theory Spec2Isabelle
  imports Complex_Main "HOL-Library.Sublist"
begin

section \<open>JavaScript strings\<close>

text \<open>
  A JavaScript string is modelled as a \<^typ>\<open>string\<close>, one \<^typ>\<open>char\<close> per code unit. A
  \<^typ>\<open>char\<close> is a code unit below 256; text with other code units is outside the model.

  White space is what \<^verbatim>\<open>trim\<close> and the regular expression class \<^verbatim>\<open>\s\<close> accept among
  these code units: tab, line feed, vertical tab, form feed, carriage return, space and the
  no-break space U+00A0.

  Case mapping acts on the letters A-Z and a-z and on the accented letters U+00C0 to U+00DE
  and U+00E0 to U+00FE (the signs U+00D7 and U+00F7 between them are no letters).
  \<^verbatim>\<open>toUpperCase\<close> writes the sharp s U+00DF as SS. The capitals of U+00B5 and U+00FF are
  not code units below 256; these two letters are kept as they are, and so are all other
  code units. The program searches case-mapped text only for ASCII words, and no such search
  tells a kept letter from its capital.
\<close>

abbreviation nl :: char where "nl \<equiv> CHR 0x0A"

abbreviation backtick :: char where "backtick \<equiv> CHR 0x60"

definition upperLetters :: string where
  "upperLetters = ''ABCDEFGHIJKLMNOPQRSTUVWXYZ''"

definition lowerLetters :: string where
  "lowerLetters = ''abcdefghijklmnopqrstuvwxyz''"

definition upperLatin :: string where
  "upperLatin =
    [
      CHR 0xC0, CHR 0xC1, CHR 0xC2, CHR 0xC3, CHR 0xC4, CHR 0xC5, CHR 0xC6, CHR 0xC7,
      CHR 0xC8, CHR 0xC9, CHR 0xCA, CHR 0xCB, CHR 0xCC, CHR 0xCD, CHR 0xCE, CHR 0xCF,
      CHR 0xD0, CHR 0xD1, CHR 0xD2, CHR 0xD3, CHR 0xD4, CHR 0xD5, CHR 0xD6, CHR 0xD8,
      CHR 0xD9, CHR 0xDA, CHR 0xDB, CHR 0xDC, CHR 0xDD, CHR 0xDE ]"

definition lowerLatin :: string where
  "lowerLatin =
    [
      CHR 0xE0, CHR 0xE1, CHR 0xE2, CHR 0xE3, CHR 0xE4, CHR 0xE5, CHR 0xE6, CHR 0xE7,
      CHR 0xE8, CHR 0xE9, CHR 0xEA, CHR 0xEB, CHR 0xEC, CHR 0xED, CHR 0xEE, CHR 0xEF,
      CHR 0xF0, CHR 0xF1, CHR 0xF2, CHR 0xF3, CHR 0xF4, CHR 0xF5, CHR 0xF6, CHR 0xF8,
      CHR 0xF9, CHR 0xFA, CHR 0xFB, CHR 0xFC, CHR 0xFD, CHR 0xFE ]"

definition toLowerChar :: "char \<Rightarrow> char" where
  "toLowerChar c =
     (case map_of (zip (upperLetters @ upperLatin) (lowerLetters @ lowerLatin)) c of
        Some d \<Rightarrow> d | None \<Rightarrow> c)"

definition toUpperChar :: "char \<Rightarrow> char" where
  "toUpperChar c =
     (case map_of (zip (lowerLetters @ lowerLatin) (upperLetters @ upperLatin)) c of
        Some d \<Rightarrow> d | None \<Rightarrow> c)"

definition toLowerCase :: "string \<Rightarrow> string" where
  "toLowerCase s = map toLowerChar s"

definition toUpperCase :: "string \<Rightarrow> string" where
  "toUpperCase s = concat (map (\<lambda>c. if c = CHR 0xDF then ''SS'' else [toUpperChar c]) s)"

definition isSpace :: "char \<Rightarrow> bool" where
  "isSpace c = (c \<in> set [CHR 0x09, CHR 0x0A, CHR 0x0B, CHR 0x0C, CHR 0x0D, CHR '' '', CHR 0xA0])"

text \<open>\<^verbatim>\<open>s.startsWith(p)\<close> is \<^term>\<open>prefix p s\<close>; \<^verbatim>\<open>s.includes(n)\<close> looks for
  \<^term>\<open>n\<close> at every position of \<^term>\<open>s\<close>, the end included.\<close>

primrec includesStr :: "string \<Rightarrow> string \<Rightarrow> bool" where
  "includesStr [] n = (n = [])"
| "includesStr (c # cs) n = (prefix n (c # cs) \<or> includesStr cs n)"

definition trimStart :: "string \<Rightarrow> string" where
  "trimStart s = dropWhile isSpace s"

definition trimEnd :: "string \<Rightarrow> string" where
  "trimEnd s = rev (dropWhile isSpace (rev s))"

definition trim :: "string \<Rightarrow> string" where
  "trim s = trimEnd (trimStart s)"

section \<open>Browser storage\<close>

text \<open>
  Each manager keeps one JSON text under one key of \<^verbatim>\<open>localStorage\<close>. The text is
  modelled by what reading it gives: the key is absent (\<^verbatim>\<open>getItem\<close> returns
  \<^verbatim>\<open>null\<close>, or the empty text, which is falsy too), \<^verbatim>\<open>JSON.parse\<close> throws, or the
  text parses to a value. The value is a list or something else. Of a value that is no
  list the managers use two things only: whether it is \<^verbatim>\<open>null\<close>, and whether reading
  its member \<^verbatim>\<open>length\<close> gives the number 0, as it does for the empty string and for an
  object with such a member. No JSON value has a method \<^verbatim>\<open>push\<close>, \<^verbatim>\<open>unshift\<close>,
  \<^verbatim>\<open>filter\<close>, \<^verbatim>\<open>find\<close> or \<^verbatim>\<open>forEach\<close> unless it is a list: calling one of them
  throws a \<^verbatim>\<open>TypeError\<close>.
\<close>

datatype nonlist =
    JNull
  | JString string
  | JOther bool

definition lengthIsZero :: "nonlist \<Rightarrow> bool" where
  "lengthIsZero v = (case v of JNull \<Rightarrow> False | JString s \<Rightarrow> s = [] | JOther z \<Rightarrow> z)"

text \<open>
  In \<^term>\<open>JOther z\<close>, a number, a boolean or an object, \<^term>\<open>z\<close> says whether the member
  \<^verbatim>\<open>length\<close> is the number 0. The elements of a stored list are taken to be records of
  the manager: \<^verbatim>\<open>JSON.stringify\<close> followed by \<^verbatim>\<open>JSON.parse\<close> gives back the records
  below unchanged, so a saved list is stored as itself.
\<close>

datatype 'a parsed = Array "'a list" | NonArray nonlist

datatype 'a item = Absent | Unparseable | Parsed "'a parsed"

text \<open>
  \<^verbatim>\<open>setItem\<close> throws when the quota is exceeded or the storage is disabled. Whether it
  does is decided outside the program: a store carries, for the coming calls of
  \<^verbatim>\<open>setItem\<close> in their order, whether the call throws, and a call beyond the end of
  this list stores its value. \<^verbatim>\<open>getItem\<close> is taken to return.
\<close>

definition throwsNext :: "bool list \<Rightarrow> bool" where
  "throwsNext outcomes = (case outcomes of [] \<Rightarrow> False | t # _ \<Rightarrow> t)"

text \<open>What is thrown, as a value: an \<^verbatim>\<open>Error\<close> with its message, a \<^verbatim>\<open>TypeError\<close> of
  the language, or the exception of \<^verbatim>\<open>setItem\<close>.\<close>

datatype error = Error string | TypeError | StorageError

section \<open>Query history (src/utils/queryHistory.ts)\<close>

record QueryHistoryItem =
  qh_id :: string
  qh_question :: string
  qh_sql :: string
  qh_timestamp :: nat
  qh_isFavorite :: bool
  qh_category :: "string option"
  qh_tags :: "string list option"
  qh_executionTime :: "nat option"
  qh_success :: bool
  qh_errorMessage :: "string option"

record QueryCategory =
  qc_id :: string
  qc_name :: string
  qc_color :: string
  qc_description :: "string option"

text \<open>The two keys that the history methods write (\<^verbatim>\<open>STORAGE_KEY\<close> and
  \<^verbatim>\<open>CATEGORIES_KEY\<close>), and the outcomes of the coming calls of \<^verbatim>\<open>setItem\<close>.\<close>

record history_store =
  history_item :: "QueryHistoryItem item"
  categories_item :: "QueryCategory item"
  hs_throws :: "bool list"

definition sqlKeywords :: "string list" where
  "sqlKeywords = [''select'', ''from'', ''where'', ''group by'', ''order by'', ''join'',
     ''union'', ''cte'', ''window'']"

definition domainTerms :: "string list" where
  "domainTerms = [''carrier'', ''cost'', ''freight'', ''delivery'', ''quarter'',
     ''performance'', ''route'']"

text \<open>The tags go into a \<^verbatim>\<open>Set\<close> in the order of the two keyword lists, which have no
  word in common, so \<^verbatim>\<open>Array.from(tags)\<close> is the list of the words found, in that order.\<close>

definition extractTags :: "string \<Rightarrow> string \<Rightarrow> string list" where
  "extractTags question sql =
     (let text = toLowerCase (question @ '' '' @ sql)
      in filter (includesStr text) sqlKeywords @ filter (includesStr text) domainTerms)"

text \<open>\<^verbatim>\<open>getHistory\<close> returns what the text parses to, a list or not; an absent key and a
  text that makes \<^verbatim>\<open>JSON.parse\<close> throw give the empty list.\<close>

definition getHistory :: "history_store \<Rightarrow> QueryHistoryItem parsed" where
  "getHistory st =
     (case history_item st of Absent \<Rightarrow> Array [] | Unparseable \<Rightarrow> Array [] | Parsed v \<Rightarrow> v)"

text \<open>\<^verbatim>\<open>saveHistory\<close> and \<^verbatim>\<open>saveCategories\<close> catch what \<^verbatim>\<open>setItem\<close> throws and log
  it: the caller goes on, and nothing is stored.\<close>

definition saveHistory :: "QueryHistoryItem list \<Rightarrow> history_store \<Rightarrow> history_store" where
  "saveHistory history st =
     (if throwsNext (hs_throws st) then st\<lparr> hs_throws := tl (hs_throws st) \<rparr>
      else st\<lparr> history_item := Parsed (Array history), hs_throws := tl (hs_throws st) \<rparr>)"

definition saveCategories :: "QueryCategory list \<Rightarrow> history_store \<Rightarrow> history_store" where
  "saveCategories categories st =
     (if throwsNext (hs_throws st) then st\<lparr> hs_throws := tl (hs_throws st) \<rparr>
      else st\<lparr> categories_item := Parsed (Array categories), hs_throws := tl (hs_throws st) \<rparr>)"

text \<open>The item that \<^verbatim>\<open>addQuery\<close> builds: \<^term>\<open>newId\<close> is what \<^verbatim>\<open>generateId()\<close>
  returns and \<^term>\<open>now\<close> what \<^verbatim>\<open>Date.now()\<close> returns after it; \<^term>\<open>success\<close> is
  \<^term>\<open>None\<close> when the caller leaves the argument out (default \<^verbatim>\<open>true\<close>).\<close>

definition newItem ::
  "string \<Rightarrow> nat \<Rightarrow> string \<Rightarrow> string \<Rightarrow> bool option \<Rightarrow> nat option \<Rightarrow> string option
     \<Rightarrow> QueryHistoryItem" where
  "newItem newId now question sql success executionTime errorMessage =
     \<lparr> qh_id = newId, qh_question = question, qh_sql = sql, qh_timestamp = now,
       qh_isFavorite = False, qh_category = None,
       qh_tags = Some (extractTags question sql),
       qh_executionTime = executionTime,
       qh_success = (case success of None \<Rightarrow> True | Some b \<Rightarrow> b),
       qh_errorMessage = errorMessage \<rparr>"

text \<open>
  \<^verbatim>\<open>addQuery\<close>: \<^verbatim>\<open>unshift\<close> puts the new item first and \<^verbatim>\<open>splice(100)\<close> cuts
  everything from index 100 on. On a stored value that is no list \<^verbatim>\<open>unshift\<close> throws,
  before anything is written. The result is the new id, or what is thrown, and the store.
\<close>

definition addQuery ::
  "string \<Rightarrow> nat \<Rightarrow> string \<Rightarrow> string \<Rightarrow> bool option \<Rightarrow> nat option \<Rightarrow> string option
     \<Rightarrow> history_store \<Rightarrow> (error + string) \<times> history_store" where
  "addQuery newId now question sql success executionTime errorMessage st =
     (case getHistory st of
        NonArray v \<Rightarrow> (Inl TypeError, st)
      | Array history \<Rightarrow>
          (let item = newItem newId now question sql success executionTime errorMessage;
               history1 = item # history;
               history2 = (if length history1 > 100 then take 100 history1 else history1)
           in (Inr (qh_id item), saveHistory history2 st)))"

text \<open>The other methods that write the history.\<close>

definition deleteQuery :: "string \<Rightarrow> history_store \<Rightarrow> (error + unit) \<times> history_store" where
  "deleteQuery ident st =
     (case getHistory st of
        NonArray v \<Rightarrow> (Inl TypeError, st)
      | Array history \<Rightarrow>
          (let filtered = filter (\<lambda>item. qh_id item \<noteq> ident) history
           in (Inr (), saveHistory filtered st)))"

definition clearHistory :: "history_store \<Rightarrow> (error + unit) \<times> history_store" where
  "clearHistory st = (Inr (), saveHistory [] st)"

text \<open>\<^verbatim>\<open>history.find(h => h.id === id)\<close> gives the first item of that id, which is then
  changed in place: \<^term>\<open>changeFirst\<close> changes the first element that passes the test.\<close>

fun changeFirst :: "('a \<Rightarrow> bool) \<Rightarrow> ('a \<Rightarrow> 'a) \<Rightarrow> 'a list \<Rightarrow> 'a list" where
  "changeFirst p f [] = []"
| "changeFirst p f (x # xs) = (if p x then f x # xs else x # changeFirst p f xs)"

definition toggleFavorite :: "string \<Rightarrow> history_store \<Rightarrow> (error + unit) \<times> history_store" where
  "toggleFavorite ident st =
     (case getHistory st of
        NonArray v \<Rightarrow> (Inl TypeError, st)
      | Array history \<Rightarrow>
          (if list_ex (\<lambda>h. qh_id h = ident) history
           then (Inr (), saveHistory
                   (changeFirst (\<lambda>h. qh_id h = ident)
                      (\<lambda>item. item\<lparr> qh_isFavorite := \<not> qh_isFavorite item \<rparr>) history) st)
           else (Inr (), st)))"

definition updateQueryCategory ::
  "string \<Rightarrow> string \<Rightarrow> history_store \<Rightarrow> (error + unit) \<times> history_store" where
  "updateQueryCategory queryId categoryId st =
     (case getHistory st of
        NonArray v \<Rightarrow> (Inl TypeError, st)
      | Array history \<Rightarrow>
          (if list_ex (\<lambda>h. qh_id h = queryId) history
           then (Inr (), saveHistory
                   (changeFirst (\<lambda>h. qh_id h = queryId)
                      (\<lambda>item. item\<lparr> qh_category := Some categoryId \<rparr>) history) st)
           else (Inr (), st)))"

definition getDefaultCategories :: "QueryCategory list" where
  "getDefaultCategories =
     [ \<lparr> qc_id = ''carrier-analysis'', qc_name = ''Carrier Analysis'', qc_color = ''#0078d4'',
         qc_description = Some ''Carrier performance and cost analysis'' \<rparr>,
       \<lparr> qc_id = ''cost-analysis'', qc_name = ''Cost Analysis'', qc_color = ''#107c10'',
         qc_description = Some ''Cost breakdown and optimization'' \<rparr>,
       \<lparr> qc_id = ''time-series'', qc_name = ''Time Series'', qc_color = ''#d83b01'',
         qc_description = Some ''Trends and seasonal analysis'' \<rparr>,
       \<lparr> qc_id = ''performance'', qc_name = ''Performance Metrics'', qc_color = ''#b4009e'',
         qc_description = Some ''Delivery and service metrics'' \<rparr>,
       \<lparr> qc_id = ''route-analysis'', qc_name = ''Route Analysis'', qc_color = ''#ff8c00'',
         qc_description = Some ''Route optimization and efficiency'' \<rparr>,
       \<lparr> qc_id = ''general'', qc_name = ''General Queries'', qc_color = ''#6b69d6'',
         qc_description = Some ''General freight data queries'' \<rparr> ]"

definition getCategories :: "history_store \<Rightarrow> QueryCategory parsed" where
  "getCategories st =
     (case categories_item st of
        Absent \<Rightarrow> Array getDefaultCategories
      | Unparseable \<Rightarrow> Array getDefaultCategories
      | Parsed v \<Rightarrow> v)"

text \<open>\<^verbatim>\<open>deleteCategory\<close> saves the categories first and the history after it, each with
  a call of \<^verbatim>\<open>setItem\<close> of its own.\<close>

definition deleteCategory :: "string \<Rightarrow> history_store \<Rightarrow> (error + unit) \<times> history_store" where
  "deleteCategory categoryId st =
     (case getCategories st of
        NonArray v \<Rightarrow> (Inl TypeError, st)
      | Array categories \<Rightarrow>
          (let filtered = filter (\<lambda>c. qc_id c \<noteq> categoryId) categories;
               st1 = saveCategories filtered st
           in case getHistory st1 of
                NonArray v \<Rightarrow> (Inl TypeError, st1)
              | Array history \<Rightarrow>
                  (Inr (), saveHistory
                     (map (\<lambda>item. if qh_category item = Some categoryId
                                   then item\<lparr> qh_category := None \<rparr> else item) history) st1)))"

text \<open>
  The argument of \<^verbatim>\<open>importHistory\<close>, as \<^verbatim>\<open>JSON.parse\<close> reads it: \<^term>\<open>None\<close> when
  parsing throws or gives \<^verbatim>\<open>null\<close>, of which no member can be read; otherwise the
  members \<^verbatim>\<open>history\<close> and \<^verbatim>\<open>categories\<close>, each of them if it is a list. Whatever is
  thrown inside is replaced by one error.
\<close>

record import_data =
  imp_history :: "QueryHistoryItem list option"
  imp_categories :: "QueryCategory list option"

definition importHistory ::
  "import_data option \<Rightarrow> history_store \<Rightarrow> (error + unit) \<times> history_store" where
  "importHistory jsonData st =
     (case jsonData of
        None \<Rightarrow> (Inl (Error ''Invalid import data format''), st)
      | Some d \<Rightarrow>
          (let st1 = (case imp_history d of None \<Rightarrow> st | Some h \<Rightarrow> saveHistory h st);
               st2 = (case imp_categories d of None \<Rightarrow> st1 | Some c \<Rightarrow> saveCategories c st1)
           in (Inr (), st2)))"

text \<open>The number of items of the stored history, when a list is stored.\<close>

definition storedLength :: "history_store \<Rightarrow> nat" where
  "storedLength st = (case history_item st of Parsed (Array h) \<Rightarrow> length h | _ \<Rightarrow> 0)"

text \<open>A stored item of an earlier query, for histories of a given length, and stores that
  hold a given list.\<close>

definition oldItem :: "nat \<Rightarrow> QueryHistoryItem" where
  "oldItem k = \<lparr> qh_id = ''old'', qh_question = ''earlier question'', qh_sql = ''SELECT 2'',
                 qh_timestamp = k, qh_isFavorite = False, qh_category = None, qh_tags = Some [],
                 qh_executionTime = None, qh_success = True, qh_errorMessage = None \<rparr>"

definition freshStore :: history_store where
  "freshStore = \<lparr> history_item = Absent, categories_item = Absent, hs_throws = [] \<rparr>"

definition storeOf :: "QueryHistoryItem list \<Rightarrow> bool list \<Rightarrow> history_store" where
  "storeOf h outcomes =
     \<lparr> history_item = Parsed (Array h), categories_item = Absent, hs_throws = outcomes \<rparr>"

section \<open>Schema manager\<close>

datatype fk_action = CASCADE | SET_NULL | RESTRICT

record DatabaseColumn =
  col_name :: string
  col_type :: string
  col_nullable :: bool
  col_description :: "string option"
  col_defaultValue :: "string option"
  col_constraints :: "string list option"

record ForeignKey =
  fk_column :: string
  fk_references_table :: string
  fk_references_column :: string
  fk_onDelete :: "fk_action option"
  fk_onUpdate :: "fk_action option"

record DatabaseTable =
  tbl_name :: string
  tbl_description :: "string option"
  tbl_columns :: "DatabaseColumn list"
  tbl_primaryKey :: "string option"
  tbl_indexes :: "string list option"
  tbl_foreignKeys :: "ForeignKey list option"

record DatabaseSchema =
  schema_id :: string
  schema_name :: string
  schema_description :: "string option"
  schema_tables :: "DatabaseTable list"
  schema_createdAt :: nat
  schema_updatedAt :: nat
  schema_isDefault :: "bool option"
  schema_version :: string

text \<open>The two keys of the schema manager: the schema list under \<^verbatim>\<open>STORAGE_KEY\<close> and
  the id of the default schema under \<^verbatim>\<open>DEFAULT_SCHEMA_KEY\<close>, and the outcomes of the
  coming calls of \<^verbatim>\<open>setItem\<close>.\<close>

record schema_store =
  schemas_item :: "DatabaseSchema item"
  default_item :: "string option"
  sc_throws :: "bool list"

text \<open>A column literal of \<^verbatim>\<open>createDefaultSchema\<close>: name, type, nullable, description.\<close>

definition column :: "string \<Rightarrow> string \<Rightarrow> bool \<Rightarrow> string \<Rightarrow> DatabaseColumn" where
  "column n t nullable d =
     \<lparr> col_name = n, col_type = t, col_nullable = nullable, col_description = Some d,
       col_defaultValue = None, col_constraints = None \<rparr>"

text \<open>\<^verbatim>\<open>createDefaultSchema\<close> reads \<^verbatim>\<open>Date.now()\<close> twice, for \<^term>\<open>createdAt\<close>
  and then for \<^term>\<open>updatedAt\<close>.\<close>

definition createDefaultSchema :: "nat \<Rightarrow> nat \<Rightarrow> DatabaseSchema" where
  "createDefaultSchema createdAt updatedAt =
     \<lparr> schema_id = ''default-freight-schema'',
       schema_name = ''Freight Analytics'',
       schema_description = Some ''Default schema for freight and logistics analysis'',
       schema_tables =
         [ \<lparr> tbl_name = ''freight_data'',
             tbl_description = Some ''Main freight shipment data'',
             tbl_columns =
               [ column ''id'' ''INT'' False ''Primary key'',
                 column ''carrier'' ''VARCHAR(50)'' False ''Carrier name'',
                 column ''origin'' ''VARCHAR(100)'' False ''Origin location'',
                 column ''destination'' ''VARCHAR(100)'' False ''Destination location'',
                 column ''cost'' ''DECIMAL(10,2)'' False ''Shipment cost'',
                 column ''weight'' ''DECIMAL(8,2)'' True ''Shipment weight'',
                 column ''shipment_date'' ''DATE'' False ''Shipment date'',
                 column ''quarter'' ''VARCHAR(10)'' False ''Quarter'',
                 column ''year'' ''INT'' False ''Year'',
                 column ''service_type'' ''VARCHAR(50)'' True ''Service type'',
                 column ''delivery_time_days'' ''INT'' True ''Delivery time in days'',
                 column ''status'' ''VARCHAR(20)'' False ''Shipment status'' ],
             tbl_primaryKey = Some ''id'', tbl_indexes = None, tbl_foreignKeys = None \<rparr>,
           \<lparr> tbl_name = ''carriers'',
             tbl_description = Some ''Carrier information'',
             tbl_columns =
               [ column ''id'' ''INT'' False ''Primary key'',
                 column ''name'' ''VARCHAR(50)'' False ''Carrier name'',
                 column ''type'' ''VARCHAR(20)'' True ''Carrier type'',
                 column ''region'' ''VARCHAR(50)'' True ''Service region'',
                 column ''rating'' ''DECIMAL(3,2)'' True ''Customer rating'' ],
             tbl_primaryKey = Some ''id'', tbl_indexes = None, tbl_foreignKeys = None \<rparr>,
           \<lparr> tbl_name = ''routes'',
             tbl_description = Some ''Route information'',
             tbl_columns =
               [ column ''id'' ''INT'' False ''Primary key'',
                 column ''origin'' ''VARCHAR(100)'' False ''Origin location'',
                 column ''destination'' ''VARCHAR(100)'' False ''Destination location'',
                 column ''distance_miles'' ''INT'' True ''Distance in miles'',
                 column ''typical_cost'' ''DECIMAL(10,2)'' True ''Typical cost for route'' ],
             tbl_primaryKey = Some ''id'', tbl_indexes = None, tbl_foreignKeys = None \<rparr> ],
       schema_createdAt = createdAt,
       schema_updatedAt = updatedAt,
       schema_isDefault = Some True,
       schema_version = ''1.0'' \<rparr>"

text \<open>\<^verbatim>\<open>saveSchemas\<close> catches what \<^verbatim>\<open>setItem\<close> throws and logs it: the caller goes
  on, and nothing is stored.\<close>

definition saveSchemas :: "DatabaseSchema list \<Rightarrow> schema_store \<Rightarrow> schema_store" where
  "saveSchemas schemas st =
     (if throwsNext (sc_throws st) then st\<lparr> sc_throws := tl (sc_throws st) \<rparr>
      else st\<lparr> schemas_item := Parsed (Array schemas), sc_throws := tl (sc_throws st) \<rparr>)"

text \<open>
  \<^verbatim>\<open>getSchemas\<close> returns a value, a list or not, and the store it leaves;
  \<^term>\<open>clock k\<close> is what the call of \<^verbatim>\<open>Date.now()\<close> number \<^term>\<open>k\<close> returns, counted
  from 0 within this call of \<^verbatim>\<open>getSchemas\<close>.

  An absent key reads as the empty list. The empty list gets the default schema pushed
  and is saved. A stored list that is not empty is returned as it is. When parsing throws,
  and when the stored value is \<^verbatim>\<open>null\<close>, of which \<^verbatim>\<open>length\<close> cannot be read, the
  \<^verbatim>\<open>catch\<close> branch returns the default schema and saves nothing. A stored value that is
  no list and has the \<^verbatim>\<open>length\<close> 0 gets as far as \<^verbatim>\<open>push\<close>, which throws after
  the default schema was built once; the \<^verbatim>\<open>catch\<close> branch builds it again. Any other
  stored value passes the test of \<^verbatim>\<open>length\<close> and is returned as it is.
\<close>

definition getSchemas ::
  "(nat \<Rightarrow> nat) \<Rightarrow> schema_store \<Rightarrow> DatabaseSchema parsed \<times> schema_store" where
  "getSchemas clock st =
     (case schemas_item st of
        Unparseable \<Rightarrow> (Array [createDefaultSchema (clock 0) (clock 1)], st)
      | Absent \<Rightarrow>
          (let schemas = [] @ [createDefaultSchema (clock 0) (clock 1)]
           in (Array schemas, saveSchemas schemas st))
      | Parsed (Array stored) \<Rightarrow>
          (if length stored = 0
           then (let schemas = stored @ [createDefaultSchema (clock 0) (clock 1)]
                 in (Array schemas, saveSchemas schemas st))
           else (Array stored, st))
      | Parsed (NonArray v) \<Rightarrow>
          (if v = JNull then (Array [createDefaultSchema (clock 0) (clock 1)], st)
           else if lengthIsZero v then (Array [createDefaultSchema (clock 2) (clock 3)], st)
           else (NonArray v, st)))"

text \<open>\<^verbatim>\<open>setDefaultSchema\<close> has no \<^verbatim>\<open>catch\<close>: what \<^verbatim>\<open>setItem\<close> throws, it throws.\<close>

definition setDefaultSchema :: "string \<Rightarrow> schema_store \<Rightarrow> (error + unit) \<times> schema_store" where
  "setDefaultSchema ident st =
     (if throwsNext (sc_throws st) then (Inl StorageError, st\<lparr> sc_throws := tl (sc_throws st) \<rparr>)
      else (Inr (), st\<lparr> default_item := Some ident, sc_throws := tl (sc_throws st) \<rparr>))"

text \<open>
  \<^verbatim>\<open>deleteSchema\<close> returns the thrown error or nothing, and the store it leaves: a
  throw does not undo what was saved before it. On a value that is no list
  \<^verbatim>\<open>filter\<close> throws.
\<close>

definition deleteSchema ::
  "(nat \<Rightarrow> nat) \<Rightarrow> string \<Rightarrow> schema_store \<Rightarrow> (error + unit) \<times> schema_store" where
  "deleteSchema clock ident st =
     (case getSchemas clock st of
        (NonArray v, st1) \<Rightarrow> (Inl TypeError, st1)
      | (Array schemas, st1) \<Rightarrow>
          (let filtered = filter (\<lambda>s. schema_id s \<noteq> ident) schemas
           in if length filtered = 0
              then (Inl (Error ''Cannot delete the last schema''), st1)
              else (let st2 = saveSchemas filtered st1;
                        defaultId = default_item st2
                    in if defaultId = Some ident
                       then setDefaultSchema (schema_id (hd filtered)) st2
                       else (Inr (), st2))))"

text \<open>Two stored schemas, an empty store and a clock, to run the manager on.\<close>

definition emptyStore :: schema_store where
  "emptyStore = \<lparr> schemas_item = Absent, default_item = None, sc_throws = [] \<rparr>"

definition userSchema :: "string \<Rightarrow> DatabaseSchema" where
  "userSchema ident =
     \<lparr> schema_id = ident, schema_name = ''Mine'', schema_description = None, schema_tables = [],
       schema_createdAt = 5, schema_updatedAt = 5, schema_isDefault = None,
       schema_version = ''1.0'' \<rparr>"

definition twoSchemas :: schema_store where
  "twoSchemas = \<lparr> schemas_item = Parsed (Array [userSchema ''a1'', userSchema ''b2'']),
                  default_item = Some ''a1'', sc_throws = [] \<rparr>"

definition oneSchema :: schema_store where
  "oneSchema = \<lparr> schemas_item = Parsed (Array [userSchema ''b2'']),
                 default_item = Some ''b2'', sc_throws = [] \<rparr>"

definition ticks :: "nat \<Rightarrow> nat" where
  "ticks k = 1700 + k"

text \<open>Whether a value that \<^verbatim>\<open>getSchemas\<close> returns is a list with an element.\<close>

definition nonEmptyList :: "'a parsed \<Rightarrow> bool" where
  "nonEmptyList p = (case p of Array xs \<Rightarrow> xs \<noteq> [] | NonArray v \<Rightarrow> False)"

section \<open>Mock data generator (src/utils/mockDataGenerator.ts)\<close>

text \<open>
  A cell of a generated row is a text, a number, \<^verbatim>\<open>undefined\<close>, or the date column of the
  basic data set: the date part of \<^verbatim>\<open>toISOString()\<close> of local midnight of a day, whose
  text depends on the time zone and is kept as year, month index and day. Numbers are exact
  rationals. A row is an object (its keys in the order of the literal) or, when formatted
  for the spreadsheet, an array.
\<close>

datatype cell = Str string | Num rat | Undef | IsoDateOfLocal nat nat nat

type_synonym object = "(string \<times> cell) list"

datatype row = Obj object | Arr "cell list"

record MockDataOptions =
  includeHeaders :: "bool option"
  formatForExcel :: "bool option"
  maxRows :: "nat option"

definition defaultOptions :: MockDataOptions where
  "defaultOptions = \<lparr> includeHeaders = None, formatForExcel = None, maxRows = None \<rparr>"

text \<open>
  \<^verbatim>\<open>Math.random()\<close>: the calls of one run are numbered from 0 in the order in which they
  are made, and \<^term>\<open>rnd k\<close> is the raw value of call \<^term>\<open>k\<close>; the number returned is
  a multiple of \<open>2\<^sup>-\<^sup>5\<^sup>3\<close> in \<open>[0, 1)\<close>.
\<close>

definition random :: "(nat \<Rightarrow> nat) \<Rightarrow> nat \<Rightarrow> rat" where
  "random rnd k = of_nat (rnd k mod 9007199254740992) / 9007199254740992"

definition mathRound :: "rat \<Rightarrow> rat" where
  "mathRound x = of_int \<lfloor>x + 1 / 2\<rfloor>"

definition mathFloor :: "rat \<Rightarrow> nat" where
  "mathFloor x = nat \<lfloor>x\<rfloor>"

record carrier =
  carrier_name :: string
  carrier_type :: string
  carrier_region :: string
  carrier_rating :: rat

definition carriers :: "carrier list" where
  "carriers =
     [ \<lparr> carrier_name = ''FedEx'', carrier_type = ''Express'', carrier_region = ''North America'', carrier_rating = 48 / 10 \<rparr>,
       \<lparr> carrier_name = ''UPS'', carrier_type = ''Ground'', carrier_region = ''North America'', carrier_rating = 46 / 10 \<rparr>,
       \<lparr> carrier_name = ''DHL'', carrier_type = ''International'', carrier_region = ''Global'', carrier_rating = 47 / 10 \<rparr>,
       \<lparr> carrier_name = ''USPS'', carrier_type = ''Standard'', carrier_region = ''North America'', carrier_rating = 42 / 10 \<rparr>,
       \<lparr> carrier_name = ''Amazon Logistics'', carrier_type = ''E-commerce'', carrier_region = ''North America'', carrier_rating = 45 / 10 \<rparr> ]"

definition origins :: "string list" where
  "origins = [''New York, NY'', ''Los Angeles, CA'', ''Chicago, IL'', ''Houston, TX'',
     ''Phoenix, AZ'', ''Philadelphia, PA'', ''San Antonio, TX'', ''San Diego, CA'',
     ''Dallas, TX'', ''San Jose, CA'']"

definition destinations :: "string list" where
  "destinations = [''Miami, FL'', ''Seattle, WA'', ''Denver, CO'', ''Boston, MA'',
     ''Atlanta, GA'', ''Las Vegas, NV'', ''Portland, OR'', ''Austin, TX'', ''Nashville, TN'',
     ''Charlotte, NC'']"

definition serviceTypes :: "string list" where
  "serviceTypes = [''Express'', ''Ground'', ''Air Freight'', ''Ocean Freight'', ''Rail'']"

text \<open>\<^verbatim>\<open>xs[Math.floor(Math.random() * xs.length)]\<close>: the index is below the length.\<close>

definition pick :: "'a list \<Rightarrow> rat \<Rightarrow> 'a" where
  "pick xs r = xs ! mathFloor (r * of_nat (length xs))"

definition isCarrierAnalysisQuery :: "string \<Rightarrow> bool" where
  "isCarrierAnalysisQuery sql =
     (includesStr sql ''carrier'' \<and>
       (includesStr sql ''group by'' \<or> includesStr sql ''sum('' \<or> includesStr sql ''count(''))"

definition isTimeSeriesQuery :: "string \<Rightarrow> bool" where
  "isTimeSeriesQuery sql =
     (includesStr sql ''quarter'' \<or> includesStr sql ''year'' \<or> includesStr sql ''month''
       \<or> includesStr sql ''date'')"

definition isRouteAnalysisQuery :: "string \<Rightarrow> bool" where
  "isRouteAnalysisQuery sql =
     (includesStr sql ''origin'' \<or> includesStr sql ''destination'' \<or> includesStr sql ''route'')"

definition isPerformanceMetricsQuery :: "string \<Rightarrow> bool" where
  "isPerformanceMetricsQuery sql =
     (includesStr sql ''delivery_time'' \<or> includesStr sql ''performance''
       \<or> includesStr sql ''rating'')"

definition isCostAnalysisQuery :: "string \<Rightarrow> bool" where
  "isCostAnalysisQuery sql =
     (includesStr sql ''cost'' \<and>
       (includesStr sql ''sum('' \<or> includesStr sql ''avg('' \<or> includesStr sql ''total''))"

definition isTrendAnalysisQuery :: "string \<Rightarrow> bool" where
  "isTrendAnalysisQuery sql =
     (includesStr sql ''trend'' \<or> includesStr sql ''window'' \<or> includesStr sql ''over('')"

text \<open>\<^verbatim>\<open>row[header]\<close> is \<^verbatim>\<open>undefined\<close> for a key the row does not have.\<close>

definition field :: "object \<Rightarrow> string \<Rightarrow> cell" where
  "field r h = (case map_of r h of Some c \<Rightarrow> c | None \<Rightarrow> Undef)"

definition limitAndFormatData :: "object list \<Rightarrow> MockDataOptions \<Rightarrow> row list" where
  "limitAndFormatData data options =
     (let result =
            (case maxRows options of
               Some n \<Rightarrow> if n \<noteq> 0 \<and> length data > n then take n data else data
             | None \<Rightarrow> data)
      in if formatForExcel options = Some True
         then (if includeHeaders options = Some True
               then (let headers = (case result of [] \<Rightarrow> [] | r # _ \<Rightarrow> map fst r)
                     in Arr (map Str headers) # map (\<lambda>r. Arr (map (field r) headers)) result)
               else map (\<lambda>r. Arr (map snd r)) result)
         else map Obj result)"

definition generateCarrierAnalysisData :: "(nat \<Rightarrow> nat) \<Rightarrow> MockDataOptions \<Rightarrow> row list" where
  "generateCarrierAnalysisData rnd options =
     (let data = map (\<lambda>(i, c).
            [ (''carrier'', Str (carrier_name c)),
              (''total_cost'', Num (mathRound (random rnd (3 * i) * 200000 + 50000))),
              (''total_shipments'', Num (mathRound (random rnd (3 * i + 1) * 100 + 20))),
              (''avg_cost_per_shipment'', Num (mathRound (random rnd (3 * i + 2) * 2000 + 500))),
              (''service_type'', Str (carrier_type c)),
              (''region'', Str (carrier_region c)),
              (''rating'', Num (carrier_rating c)) ]) (enumerate 0 carriers)
      in limitAndFormatData data options)"

definition generateTimeSeriesData :: "(nat \<Rightarrow> nat) \<Rightarrow> MockDataOptions \<Rightarrow> row list" where
  "generateTimeSeriesData rnd options =
     (let quarters = [''Q1 2025'', ''Q2 2025'', ''Q3 2025'', ''Q4 2025''];
          data = map (\<lambda>(i, quarter).
            [ (''quarter'', Str quarter),
              (''year'', Num 2025),
              (''total_cost'', Num (mathRound (random rnd (4 * i) * 300000 + 100000))),
              (''total_shipments'', Num (mathRound (random rnd (4 * i + 1) * 150 + 50))),
              (''avg_delivery_time'', Num (mathRound (random rnd (4 * i + 2) * 5 + 2))),
              (''top_carrier'', Str (carrier_name (pick carriers (random rnd (4 * i + 3))))) ])
            (enumerate 0 quarters)
      in limitAndFormatData data options)"

definition generateRouteAnalysisData :: "(nat \<Rightarrow> nat) \<Rightarrow> MockDataOptions \<Rightarrow> row list" where
  "generateRouteAnalysisData rnd options =
     (let data = map (\<lambda>(i, origin).
            (let destination = pick destinations (random rnd (5 * i))
             in [ (''origin'', Str origin),
                  (''destination'', Str destination),
                  (''distance_miles'', Num (mathRound (random rnd (5 * i + 1) * 2000 + 500))),
                  (''avg_cost'', Num (mathRound (random rnd (5 * i + 2) * 3000 + 500))),
                  (''total_shipments'', Num (mathRound (random rnd (5 * i + 3) * 50 + 10))),
                  (''cost_per_mile'',
                     Num (mathRound ((random rnd (5 * i + 4) * 2 + 1 / 2) * 100) / 100)) ]))
            (enumerate 0 (take 5 origins))
      in limitAndFormatData data options)"

definition generatePerformanceMetricsData :: "(nat \<Rightarrow> nat) \<Rightarrow> MockDataOptions \<Rightarrow> row list" where
  "generatePerformanceMetricsData rnd options =
     (let data = map (\<lambda>(i, c).
            [ (''carrier'', Str (carrier_name c)),
              (''avg_delivery_time_days'', Num (mathRound ((random rnd (4 * i) * 3 + 1) * 10) / 10)),
              (''on_time_delivery_rate'',
                 Num (mathRound ((random rnd (4 * i + 1) * 20 + 80) * 10) / 10)),
              (''customer_rating'', Num (carrier_rating c)),
              (''total_shipments'', Num (mathRound (random rnd (4 * i + 2) * 200 + 50))),
              (''cost_per_mile'',
                 Num (mathRound ((random rnd (4 * i + 3) * (3 / 2) + 3 / 10) * 100) / 100)) ])
            (enumerate 0 carriers)
      in limitAndFormatData data options)"

definition generateCostAnalysisData :: "MockDataOptions \<Rightarrow> row list" where
  "generateCostAnalysisData options =
     (let data =
            [ [(''cost_category'', Str ''Freight Charges''), (''total_cost'', Num 450000), (''percentage'', Num 65)],
              [(''cost_category'', Str ''Fuel Surcharges''), (''total_cost'', Num 85000), (''percentage'', Num 12)],
              [(''cost_category'', Str ''Accessorial Charges''), (''total_cost'', Num 62000), (''percentage'', Num 9)],
              [(''cost_category'', Str ''Insurance''), (''total_cost'', Num 35000), (''percentage'', Num 5)],
              [(''cost_category'', Str ''Customs & Duties''), (''total_cost'', Num 28000), (''percentage'', Num 4)],
              [(''cost_category'', Str ''Other Charges''), (''total_cost'', Num 15000), (''percentage'', Num 2)] ]
      in limitAndFormatData data options)"

text \<open>
  The trend rows: month 0 makes one call of \<^verbatim>\<open>Math.random()\<close> (the monthly cost), every
  later month two (the monthly cost, then the growth rate), so month \<^term>\<open>i > 0\<close> reads
  the calls \<^term>\<open>2 * i - 1\<close> and \<^term>\<open>2 * i\<close>. The running total is the sum of the
  monthly costs so far.
\<close>

definition monthlyCost :: "(nat \<Rightarrow> nat) \<Rightarrow> nat \<Rightarrow> rat" where
  "monthlyCost rnd i = mathRound (random rnd (if i = 0 then 0 else 2 * i - 1) * 50000 + 20000)"

definition generateTrendAnalysisData :: "(nat \<Rightarrow> nat) \<Rightarrow> MockDataOptions \<Rightarrow> row list" where
  "generateTrendAnalysisData rnd options =
     (let months = [''Jan'', ''Feb'', ''Mar'', ''Apr'', ''May'', ''Jun''];
          data = map (\<lambda>(index, month).
            [ (''month'', Str month),
              (''monthly_cost'', Num (monthlyCost rnd index)),
              (''running_total'', Num (sum_list (map (monthlyCost rnd) [0..<Suc index]))),
              (''month_number'', Num (of_nat (index + 1))),
              (''growth_rate'',
                 Num (if index > 0 then mathRound ((random rnd (2 * index) * 20 - 5) * 10) / 10
                      else 0)) ])
            (enumerate 0 months)
      in limitAndFormatData data options)"

definition generateBasicFreightData :: "(nat \<Rightarrow> nat) \<Rightarrow> MockDataOptions \<Rightarrow> row list" where
  "generateBasicFreightData rnd options =
     (let data = map (\<lambda>i.
            (let c = pick carriers (random rnd (11 * i));
                 origin = pick origins (random rnd (11 * i + 1));
                 destination = pick destinations (random rnd (11 * i + 2))
             in [ (''id'', Num (of_nat (i + 1))),
                  (''carrier'', Str (carrier_name c)),
                  (''origin'', Str origin),
                  (''destination'', Str destination),
                  (''cost'', Num (mathRound (random rnd (11 * i + 3) * 5000 + 500))),
                  (''weight'', Num (mathRound ((random rnd (11 * i + 4) * 100 + 10) * 10) / 10)),
                  (''shipment_date'',
                     IsoDateOfLocal 2025 (mathFloor (random rnd (11 * i + 5) * 12))
                       (mathFloor (random rnd (11 * i + 6) * 28) + 1)),
                  (''quarter'',
                     Str (''Q'' @ [''1234'' ! mathFloor (random rnd (11 * i + 7) * 4)] @ '' 2025'')),
                  (''year'', Num 2025),
                  (''service_type'', Str (pick serviceTypes (random rnd (11 * i + 8)))),
                  (''delivery_time_days'', Num (mathRound (random rnd (11 * i + 9) * 7 + 1))),
                  (''status'',
                     Str (pick [''Delivered'', ''In Transit'', ''Pending'']
                           (random rnd (11 * i + 10)))) ]))
            [0..<10]
      in limitAndFormatData data options)"

definition generateDataFromSQL :: "(nat \<Rightarrow> nat) \<Rightarrow> string \<Rightarrow> MockDataOptions \<Rightarrow> row list" where
  "generateDataFromSQL rnd sql options =
     (let lowerSQL = toLowerCase sql
      in if isCarrierAnalysisQuery lowerSQL then generateCarrierAnalysisData rnd options
         else if isTimeSeriesQuery lowerSQL then generateTimeSeriesData rnd options
         else if isRouteAnalysisQuery lowerSQL then generateRouteAnalysisData rnd options
         else if isPerformanceMetricsQuery lowerSQL then generatePerformanceMetricsData rnd options
         else if isCostAnalysisQuery lowerSQL then generateCostAnalysisData options
         else if isTrendAnalysisQuery lowerSQL then generateTrendAnalysisData rnd options
         else generateBasicFreightData rnd options)"

text \<open>
  The categories in the priority order of the claim, each with its test and its generator;
  the data set the claim describes is that of the first category whose test holds, and the
  basic freight data when none does.
\<close>

definition categories ::
  "(string \<times> (string \<Rightarrow> bool) \<times> ((nat \<Rightarrow> nat) \<Rightarrow> MockDataOptions \<Rightarrow> row list)) list" where
  "categories =
     [ (''carrier-analysis'', isCarrierAnalysisQuery, generateCarrierAnalysisData),
       (''time-series'', isTimeSeriesQuery, generateTimeSeriesData),
       (''route-analysis'', isRouteAnalysisQuery, generateRouteAnalysisData),
       (''performance-metrics'', isPerformanceMetricsQuery, generatePerformanceMetricsData),
       (''cost-analysis'', isCostAnalysisQuery, (\<lambda>rnd. generateCostAnalysisData)),
       (''trend-analysis'', isTrendAnalysisQuery, generateTrendAnalysisData) ]"

definition firstMatching :: "(nat \<Rightarrow> nat) \<Rightarrow> string \<Rightarrow> MockDataOptions \<Rightarrow> row list" where
  "firstMatching rnd lowerSQL options =
     (case find (\<lambda>(name, test, gen). test lowerSQL) categories of
        Some (name, test, gen) \<Rightarrow> gen rnd options
      | None \<Rightarrow> generateBasicFreightData rnd options)"

section \<open>CSV export\<close>

text \<open>
  A cell handed to \<^verbatim>\<open>escapeCSV\<close> is \<^verbatim>\<open>null\<close>, \<^verbatim>\<open>undefined\<close> or any other value.
  \<^verbatim>\<open>String(value)\<close> is a built-in of the language: its result on the other values is
  the parameter \<^term>\<open>str\<close>, and on \<^verbatim>\<open>null\<close> and \<^verbatim>\<open>undefined\<close> it is the name of
  the value.
\<close>

datatype 'a jsvalue = Null | Undefined | Val 'a

abbreviation dquote :: char where "dquote \<equiv> CHR 0x22"

definition String :: "('a \<Rightarrow> string) \<Rightarrow> 'a jsvalue \<Rightarrow> string" where
  "String str v = (case v of Null \<Rightarrow> ''null'' | Undefined \<Rightarrow> ''undefined'' | Val a \<Rightarrow> str a)"

text \<open>\<^verbatim>\<open>s.replace(/"/g, '""')\<close>\<close>

definition doubleQuotes :: "string \<Rightarrow> string" where
  "doubleQuotes s = concat (map (\<lambda>c. if c = dquote then [dquote, dquote] else [c]) s)"

definition escapeCSV :: "('a \<Rightarrow> string) \<Rightarrow> 'a jsvalue \<Rightarrow> string" where
  "escapeCSV str v =
     (if v = Null \<or> v = Undefined then []
      else (let stringValue = String str v
            in if includesStr stringValue '','' \<or> includesStr stringValue [dquote]
                  \<or> includesStr stringValue [nl]
               then [dquote] @ doubleQuotes stringValue @ [dquote]
               else stringValue))"

text \<open>
  Reading one CSV field back, as a CSV reader does (RFC 4180): a field that starts with a
  double quote is an escaped field, which must end with a double quote and have every
  double quote inside it doubled, each pair standing for one; any other field is its own
  text, and may not contain a comma, a double quote, a line feed or a carriage return: a
  comma ends a field, a line break ends a record. \<^term>\<open>None\<close> means that the text is not
  a field.
\<close>

abbreviation cr :: char where "cr \<equiv> CHR 0x0D"

fun readQuoted :: "string \<Rightarrow> string option" where
  "readQuoted [] = None"
| "readQuoted [c] = (if c = dquote then Some [] else None)"
| "readQuoted (c # d # s) =
     (if c = dquote
      then (if d = dquote then map_option ((#) dquote) (readQuoted s) else None)
      else map_option ((#) c) (readQuoted (d # s)))"

definition readField :: "string \<Rightarrow> string option" where
  "readField f =
     (case f of
        [] \<Rightarrow> Some []
      | c # s \<Rightarrow>
          if c = dquote then readQuoted s
          else if \<exists>x \<in> set f. x = CHR '','' \<or> x = dquote \<or> x = nl \<or> x = cr then None
          else Some f)"

section \<open>Post-processing of the generated SQL\<close>

record SQLGenerationOptions =
  includeComments :: "bool option"
  limitResults :: "nat option"
  preferCTEs :: "bool option"
  includePerformanceHints :: "bool option"

text \<open>
  A regular expression is modelled by the function that does what \<^verbatim>\<open>replace\<close> does with
  it: scan from the left, replace the leftmost match, go on after it. Under the flag
  \<^verbatim>\<open>i\<close> a letter of the pattern matches both of its cases.
\<close>

fun matchesCI :: "string \<Rightarrow> string \<Rightarrow> bool" where
  "matchesCI [] s = True"
| "matchesCI (p # ps) [] = False"
| "matchesCI (p # ps) (c # cs) = (toLowerChar p = toLowerChar c \<and> matchesCI ps cs)"

text \<open>\<^verbatim>\<open>/```sql\s*/gi\<close> replaced by the empty text: every opening fence goes, with the
  white space that follows it.\<close>

function stripFenceOpen :: "string \<Rightarrow> string" where
  "stripFenceOpen [] = []"
| "stripFenceOpen (c # cs) =
     (if matchesCI ''```sql'' (c # cs)
      then stripFenceOpen (dropWhile isSpace (drop 6 (c # cs)))
      else c # stripFenceOpen cs)"
  by pat_completeness auto
termination
  by (relation "measure length")
     (auto intro!: le_imp_less_Suc order_trans [OF length_dropWhile_le])

text \<open>\<^verbatim>\<open>/```\s*$/gi\<close> replaced by the empty text: \<^verbatim>\<open>$\<close> is the end of the text (there is
  no flag \<^verbatim>\<open>m\<close>), so the match is the leftmost fence that only white space follows, and
  it reaches to the end.\<close>

fun stripFenceClose :: "string \<Rightarrow> string" where
  "stripFenceClose [] = []"
| "stripFenceClose (c # cs) =
     (if prefix ''```'' (c # cs) \<and> list_all isSpace (drop 3 (c # cs)) then []
      else c # stripFenceClose cs)"

text \<open>
  A number in a template literal. \<^term>\<open>limitResults\<close> is modelled as a natural number
  and written in decimal, which is what JavaScript writes for the integers below
  \<open>2\<^sup>5\<^sup>3\<close>, each of them a number of the language. Larger numbers, which are rounded
  and from \<open>10\<^sup>2\<^sup>1\<close> on written with an exponent, fractions and negative numbers are
  outside the model: what is proved below about the number written is proved for
  \<open>n < 2\<^sup>5\<^sup>3\<close>.
\<close>

fun numToString :: "nat \<Rightarrow> string" where
  "numToString n =
     (if n < 10 then [''0123456789'' ! n]
      else numToString (n div 10) @ [''0123456789'' ! (n mod 10)])"

declare numToString.simps [simp del]

definition keywordsList :: "string list" where
  "keywordsList =
     [''SELECT'', ''FROM'', ''WHERE'', ''GROUP BY'', ''ORDER BY'', ''HAVING'',
      ''JOIN'', ''LEFT JOIN'', ''RIGHT JOIN'', ''INNER JOIN'', ''OUTER JOIN'',
      ''UNION'', ''UNION ALL'', ''WITH'', ''AS'', ''ON'', ''AND'', ''OR'', ''IN'',
      ''BETWEEN'', ''LIKE'', ''IS NULL'', ''IS NOT NULL'', ''LIMIT'', ''OFFSET'']"

text \<open>\<^verbatim>\<open>\b\<close> holds between two neighbours of which exactly one is a word character
  (a letter, a digit or the underscore); beyond either end of the text there is none.\<close>

definition isWordChar :: "char \<Rightarrow> bool" where
  "isWordChar c = (c \<in> set (upperLetters @ lowerLetters @ ''0123456789_''))"

definition wordBoundary :: "char option \<Rightarrow> char option \<Rightarrow> bool" where
  "wordBoundary a b =
     ((case a of None \<Rightarrow> False | Some c \<Rightarrow> isWordChar c)
       \<noteq> (case b of None \<Rightarrow> False | Some c \<Rightarrow> isWordChar c))"

definition headOpt :: "'a list \<Rightarrow> 'a option" where
  "headOpt xs = (case xs of [] \<Rightarrow> None | x # _ \<Rightarrow> Some x)"

definition lastOpt :: "'a list \<Rightarrow> 'a option" where
  "lastOpt xs = (if xs = [] then None else Some (last xs))"

text \<open>\<^verbatim>\<open>\bKEYWORD\b\<close> at the start of \<^term>\<open>s\<close>, where \<^term>\<open>prev\<close> is the character
  before \<^term>\<open>s\<close> in the text, if any.\<close>

definition matchKeywordAt :: "string \<Rightarrow> char option \<Rightarrow> string \<Rightarrow> bool" where
  "matchKeywordAt kw prev s =
     (matchesCI kw s
      \<and> wordBoundary prev (headOpt s)
      \<and> wordBoundary (lastOpt (take (length kw) s)) (headOpt (drop (length kw) s)))"

text \<open>\<^verbatim>\<open>formatted.replace(new RegExp(`\\b${keyword}\\b`, 'gi'), `\n${keyword}`)\<close>: every
  match becomes a line feed and the keyword as the list spells it.\<close>

function replaceKeyword :: "string \<Rightarrow> char option \<Rightarrow> string \<Rightarrow> string" where
  "replaceKeyword kw prev [] = []"
| "replaceKeyword kw prev (c # cs) =
     (if kw \<noteq> [] \<and> matchKeywordAt kw prev (c # cs)
      then nl # kw @ replaceKeyword kw (lastOpt (take (length kw) (c # cs)))
                       (drop (length kw) (c # cs))
      else c # replaceKeyword kw (Some c) cs)"
  by pat_completeness auto
termination
  by (relation "measure (\<lambda>(kw, prev, s). length s)") auto

text \<open>
  \<^verbatim>\<open>/\n\s*\n/g\<close> replaced by one line feed. At a line feed, \<^verbatim>\<open>\s*\<close> takes the whole run
  of white space that follows and gives back up to the last line feed of the run; without
  a line feed in the run there is no match here. The scan goes on behind the match, with
  what is left of the run.
\<close>

function collapseBlankLines :: "string \<Rightarrow> string" where
  "collapseBlankLines [] = []"
| "collapseBlankLines (c # cs) =
     (if c = nl \<and> nl \<in> set (takeWhile isSpace cs)
      then nl # collapseBlankLines
                  (rev (takeWhile (\<lambda>x. x \<noteq> nl) (rev (takeWhile isSpace cs)))
                    @ dropWhile isSpace cs)
      else c # collapseBlankLines cs)"
  by pat_completeness auto
termination
proof (relation "measure length", goal_cases)
  case 1
  show ?case by simp
next
  case (2 c cs)
  have "length (takeWhile (\<lambda>x. x \<noteq> nl) (rev (takeWhile isSpace cs)))
      \<le> length (takeWhile isSpace cs)"
    using length_takeWhile_le [of "\<lambda>x. x \<noteq> nl" "rev (takeWhile isSpace cs)"] by simp
  moreover have "length (takeWhile isSpace cs) + length (dropWhile isSpace cs) = length cs"
    by (metis length_append takeWhile_dropWhile_id)
  ultimately show ?case by simp
next
  case 3
  then show ?case by simp
qed

definition formatSQL :: "string \<Rightarrow> string" where
  "formatSQL sql =
     (let formatted = foldl (\<lambda>formatted keyword. replaceKeyword keyword None formatted)
                        sql keywordsList
      in trim (collapseBlankLines formatted))"

text \<open>The text after the two fence replacements and \<^verbatim>\<open>trim\<close>.\<close>

definition cleanSQL :: "string \<Rightarrow> string" where
  "cleanSQL sql = trim (stripFenceClose (stripFenceOpen sql))"

text \<open>\<^verbatim>\<open>options.limitResults\<close> is falsy when it is absent and when it is 0.\<close>

definition addLimit :: "string \<Rightarrow> SQLGenerationOptions \<Rightarrow> string" where
  "addLimit processedSQL options =
     (case limitResults options of
        None \<Rightarrow> processedSQL
      | Some n \<Rightarrow>
          if n \<noteq> 0 \<and> \<not> includesStr (toLowerCase processedSQL) ''limit''
          then processedSQL @ [nl] @ ''LIMIT '' @ numToString n
          else processedSQL)"

definition postProcessSQL :: "string \<Rightarrow> SQLGenerationOptions \<Rightarrow> string" where
  "postProcessSQL sql options = formatSQL (addLimit (cleanSQL sql) options)"

definition noOptions :: SQLGenerationOptions where
  "noOptions = \<lparr> includeComments = None, limitResults = None, preferCTEs = None,
                 includePerformanceHints = None \<rparr>"

text \<open>
  The LIMIT clause of the claim: the keyword LIMIT as a word of its own, in either case,
  found as \<^verbatim>\<open>\bLIMIT\b\<close> finds it; \<^term>\<open>prev\<close> is the character before the text.
\<close>

fun containsKeyword :: "string \<Rightarrow> char option \<Rightarrow> string \<Rightarrow> bool" where
  "containsKeyword kw prev [] = False"
| "containsKeyword kw prev (c # cs) =
     (matchKeywordAt kw prev (c # cs) \<or> containsKeyword kw (Some c) cs)"

definition hasLimitClause :: "string \<Rightarrow> bool" where
  "hasLimitClause sql = containsKeyword ''LIMIT'' None sql"

text \<open>One occurrence of the word: five characters that are \<^verbatim>\<open>LIMIT\<close> in some case.\<close>

definition limitWord :: "string \<Rightarrow> bool" where
  "limitWord m = (length m = 5 \<and> matchesCI ''LIMIT'' m)"

section \<open>The OpenAI service: rate limit and generateSQL\<close>

text \<open>
  The service object keeps the number of answered requests and the time of the last answer.
  Times are readings of \<^verbatim>\<open>Date.now()\<close>, in milliseconds.
\<close>

record service_state =
  requestCount :: nat
  lastRequestTime :: int

definition RATE_LIMIT_DELAY :: int where
  "RATE_LIMIT_DELAY = 1000"

definition initialService :: service_state where
  "initialService = \<lparr> requestCount = 0, lastRequestTime = 0 \<rparr>"

text \<open>
  What one call of \<^verbatim>\<open>generateSQL\<close> meets: the clock when \<^verbatim>\<open>enforceRateLimit\<close> reads
  it, by how much the clock has advanced beyond the requested delay when the request is
  sent (\<^verbatim>\<open>setTimeout\<close> does not fire early, and the calls of one service are made one
  after the other), and what the API does: it rejects with a message, or it answers with
  the content of the first choice, if any, and \<^verbatim>\<open>Date.now()\<close> is then read again.
\<close>

datatype api_outcome = Rejected string | Answered "string option" int

record call_env =
  env_now :: int
  env_late :: nat
  env_outcome :: api_outcome

text \<open>\<^verbatim>\<open>enforceRateLimit\<close>: the delay handed to \<^verbatim>\<open>setTimeout\<close>, or \<^term>\<open>None\<close> when the
  call does not wait.\<close>

definition enforceRateLimit :: "int \<Rightarrow> service_state \<Rightarrow> int option" where
  "enforceRateLimit now st =
     (let timeSinceLastRequest = now - lastRequestTime st
      in if timeSinceLastRequest < RATE_LIMIT_DELAY
         then Some (RATE_LIMIT_DELAY - timeSinceLastRequest)
         else None)"

text \<open>The clock when the chat-completion request of the call is sent.\<close>

definition requestTime :: "call_env \<Rightarrow> service_state \<Rightarrow> int" where
  "requestTime env st =
     (case enforceRateLimit (env_now env) st of
        None \<Rightarrow> env_now env + int (env_late env)
      | Some delay \<Rightarrow> env_now env + delay + int (env_late env))"

text \<open>
  \<^verbatim>\<open>generateSQL\<close> returns the SQL or the error it throws, and the state of the service. A
  rejected request leaves the state as it is; an answer is counted and its time recorded
  before the content is looked at. Every error is rethrown with the prefix
  'Failed to generate SQL: '.
\<close>

definition generateSQL ::
  "string \<Rightarrow> SQLGenerationOptions \<Rightarrow> call_env \<Rightarrow> service_state
     \<Rightarrow> (error + string) \<times> service_state" where
  "generateSQL question options env st =
     (case env_outcome env of
        Rejected message \<Rightarrow> (Inl (Error (''Failed to generate SQL: '' @ message)), st)
      | Answered content finished \<Rightarrow>
          (let st' = st\<lparr> requestCount := requestCount st + 1, lastRequestTime := finished \<rparr>;
               sql = (case content of None \<Rightarrow> [] | Some text \<Rightarrow> trim text)
           in if sql = []
              then (Inl (Error (''Failed to generate SQL: '' @ ''No SQL generated from OpenAI'')), st')
              else (Inr (postProcessSQL sql options), st')))"

section \<open>SQL validator\<close>

datatype severity = SevError | SevWarning | SevInfo

record ValidationError =
  ve_type :: severity
  ve_message :: string
  ve_line :: "nat option"
  ve_column :: "nat option"
  ve_suggestion :: "string option"

record ValidationResult =
  isValid :: bool
  errors :: "ValidationError list"
  warnings :: "ValidationError list"
  suggestions :: "ValidationError list"
  performanceHints :: "string list"

datatype token_type = TKeyword | TIdentifier | TString | TNumber | TOperator | TPunctuation | TComment

record SQLToken =
  tok_type :: token_type
  tok_value :: string
  tok_line :: nat
  tok_column :: nat

definition SQL_KEYWORDS :: "string list" where
  "SQL_KEYWORDS =
     [''SELECT'', ''FROM'', ''WHERE'', ''GROUP BY'', ''ORDER BY'', ''HAVING'', ''JOIN'',
      ''LEFT JOIN'', ''RIGHT JOIN'', ''INNER JOIN'', ''OUTER JOIN'', ''UNION'', ''UNION ALL'',
      ''WITH'', ''AS'', ''ON'', ''AND'', ''OR'', ''IN'', ''BETWEEN'', ''LIKE'', ''IS NULL'',
      ''IS NOT NULL'', ''LIMIT'', ''OFFSET'', ''DISTINCT'', ''COUNT'', ''SUM'', ''AVG'',
      ''MAX'', ''MIN'', ''CASE'', ''WHEN'', ''THEN'', ''ELSE'', ''END'', ''OVER'',
      ''PARTITION BY'', ''ROW_NUMBER'', ''RANK'', ''DENSE_RANK'', ''LAG'', ''LEAD'',
      ''FIRST_VALUE'', ''LAST_VALUE'']"

text \<open>\<^verbatim>\<open>sql.split('\n')\<close>: the lines between the line feeds, at least one.\<close>

fun splitLines :: "string \<Rightarrow> string list" where
  "splitLines [] = [[]]"
| "splitLines (c # cs) =
     (if c = nl then [] # splitLines cs
      else (case splitLines cs of [] \<Rightarrow> [[c]] | l # ls \<Rightarrow> (c # l) # ls))"

text \<open>\<^verbatim>\<open>s.split(/\s+/)\<close>: the pieces between the runs of white space; a run at either end
  leaves an empty piece there.\<close>

function splitSpaces :: "string \<Rightarrow> string list" where
  "splitSpaces [] = [[]]"
| "splitSpaces (c # cs) =
     (if isSpace c then [] # splitSpaces (dropWhile isSpace cs)
      else (case splitSpaces cs of [] \<Rightarrow> [[c]] | w # ws \<Rightarrow> (c # w) # ws))"
  by pat_completeness auto
termination
  by (relation "measure length")
     (auto intro!: le_imp_less_Suc length_dropWhile_le)

definition isDigit :: "char \<Rightarrow> bool" where
  "isDigit c = (c \<in> set ''0123456789'')"

text \<open>\<^verbatim>\<open>/^[0-9]+(\.[0-9]+)?$/\<close>, on a word (a word has no line feed in it).\<close>

definition isNumberWord :: "string \<Rightarrow> bool" where
  "isNumberWord w =
     (let whole = takeWhile isDigit w; r = dropWhile isDigit w
      in whole \<noteq> [] \<and>
         (r = [] \<or> (hd r = CHR ''.'' \<and> tl r \<noteq> [] \<and> list_all isDigit (tl r))))"

text \<open>\<^verbatim>\<open>/^[+\-*/=<>!]+$/\<close> and \<^verbatim>\<open>/^[(),;.]+$/\<close>\<close>

definition isOperatorWord :: "string \<Rightarrow> bool" where
  "isOperatorWord w = (w \<noteq> [] \<and> list_all (\<lambda>c. c \<in> set ''+-*/=<>!'') w)"

definition isPunctuationWord :: "string \<Rightarrow> bool" where
  "isPunctuationWord w = (w \<noteq> [] \<and> list_all (\<lambda>c. c \<in> set ''(),;.'') w)"

definition wordType :: "string \<Rightarrow> token_type" where
  "wordType w =
     (if toUpperCase w \<in> set SQL_KEYWORDS then TKeyword
      else if isNumberWord w then TNumber
      else if prefix [CHR 0x27] w \<and> suffix [CHR 0x27] w then TString
      else if isOperatorWord w then TOperator
      else if isPunctuationWord w then TPunctuation
      else TIdentifier)"

text \<open>The words of one trimmed line, from column \<^term>\<open>col\<close> on; an empty word is
  skipped and does not move the column.\<close>

fun tokenizeWords :: "nat \<Rightarrow> nat \<Rightarrow> string list \<Rightarrow> SQLToken list" where
  "tokenizeWords lineNo col [] = []"
| "tokenizeWords lineNo col (w # ws) =
     (if w = [] then tokenizeWords lineNo col ws
      else \<lparr> tok_type = wordType w, tok_value = w, tok_line = lineNo, tok_column = col \<rparr>
             # tokenizeWords lineNo (col + length w + 1) ws)"

definition tokenizeLine :: "nat \<Rightarrow> string \<Rightarrow> SQLToken list" where
  "tokenizeLine lineNum line =
     (let trimmedLine = trim line
      in if trimmedLine = [] then []
         else if prefix ''--'' trimmedLine
         then [\<lparr> tok_type = TComment, tok_value = trimmedLine, tok_line = lineNum + 1,
                  tok_column = 1 \<rparr>]
         else tokenizeWords (lineNum + 1) 1 (splitSpaces trimmedLine))"

definition tokenize :: "string \<Rightarrow> SQLToken list" where
  "tokenize sql = concat (map (\<lambda>(lineNum, line). tokenizeLine lineNum line)
                           (enumerate 0 (splitLines sql)))"

definition isKeywordToken :: "string \<Rightarrow> SQLToken \<Rightarrow> bool" where
  "isKeywordToken kw t = (tok_type t = TKeyword \<and> toUpperCase (tok_value t) = kw)"

text \<open>
  The loop of \<^verbatim>\<open>validateBasicSyntax\<close> over the tokens: its variables
  \<^verbatim>\<open>hasSelect\<close>, \<^verbatim>\<open>hasFrom\<close>, \<^verbatim>\<open>parenCount\<close> and the error list it pushes to.
\<close>

record basic_state =
  hasSelect :: bool
  hasFrom :: bool
  parenCount :: int
  bs_errors :: "ValidationError list"

definition basicStep :: "basic_state \<Rightarrow> SQLToken \<Rightarrow> basic_state" where
  "basicStep s t =
     (if tok_type t = TKeyword
      then (if toUpperCase (tok_value t) = ''SELECT'' then s\<lparr> hasSelect := True \<rparr>
            else if toUpperCase (tok_value t) = ''FROM'' then s\<lparr> hasFrom := True \<rparr>
            else s)
      else if tok_type t = TPunctuation
      then (if tok_value t = ''('' then s\<lparr> parenCount := parenCount s + 1 \<rparr>
            else if tok_value t = '')''
            then (let s' = s\<lparr> parenCount := parenCount s - 1 \<rparr>
                  in if parenCount s' < 0
                     then s'\<lparr> bs_errors := bs_errors s' @
                            [\<lparr> ve_type = SevError, ve_message = ''Unmatched closing parenthesis'',
                               ve_line = Some (tok_line t), ve_column = Some (tok_column t),
                               ve_suggestion = None \<rparr>] \<rparr>
                     else s')
            else s)
      else s)"

text \<open>Each validation function takes the lists it pushes to and returns them.\<close>

definition validateBasicSyntax ::
  "SQLToken list \<Rightarrow> ValidationError list \<Rightarrow> ValidationError list" where
  "validateBasicSyntax tokens errs =
     (let s = foldl basicStep
                \<lparr> hasSelect = False, hasFrom = False, parenCount = 0, bs_errors = errs \<rparr> tokens;
          errs1 = bs_errors s;
          errs2 = (if \<not> hasSelect s
                   then errs1 @ [\<lparr> ve_type = SevError, ve_message = ''Missing SELECT clause'',
                          ve_line = None, ve_column = None,
                          ve_suggestion =
                            Some ''Add a SELECT clause to specify which columns to retrieve'' \<rparr>]
                   else errs1);
          errs3 = (if \<not> hasFrom s
                   then errs2 @ [\<lparr> ve_type = SevError, ve_message = ''Missing FROM clause'',
                          ve_line = None, ve_column = None,
                          ve_suggestion =
                            Some ''Add a FROM clause to specify the table(s) to query'' \<rparr>]
                   else errs2)
      in if parenCount s > 0
         then errs3 @ [\<lparr> ve_type = SevError, ve_message = ''Unmatched opening parenthesis'',
                ve_line = None, ve_column = None,
                ve_suggestion = Some ''Check for missing closing parentheses'' \<rparr>]
         else errs3)"

text \<open>\<^verbatim>\<open>xs.join(' ')\<close>\<close>

fun joinSpace :: "string list \<Rightarrow> string" where
  "joinSpace [] = []"
| "joinSpace [x] = x"
| "joinSpace (x # y # ys) = x @ '' '' @ joinSpace (y # ys)"

text \<open>\<^verbatim>\<open>tokens.indexOf(t)\<close> is the position of the token itself, each token being an
  object of its own; so the test for \<^verbatim>\<open>SELECT *\<close> looks at a token and its successor.\<close>

definition hasSelectStar :: "SQLToken list \<Rightarrow> bool" where
  "hasSelectStar tokens =
     list_ex (\<lambda>(t, u). isKeywordToken ''SELECT'' t \<and> tok_value u = ''*'')
       (zip tokens (tl tokens))"

definition validateSQLStructure ::
  "SQLToken list \<Rightarrow> ValidationError list \<Rightarrow> ValidationError list
     \<Rightarrow> ValidationError list \<times> ValidationError list" where
  "validateSQLStructure tokens errs warns =
     (let keywords = map (\<lambda>t. toUpperCase (tok_value t)) (filter (\<lambda>t. tok_type t = TKeyword) tokens);
          keywordSequence = joinSpace keywords;
          errs1 = (if includesStr keywordSequence ''GROUP BY'' \<and> \<not> includesStr keywordSequence ''SELECT''
                   then errs @ [\<lparr> ve_type = SevError, ve_message = ''GROUP BY without SELECT'',
                          ve_line = None, ve_column = None,
                          ve_suggestion = Some ''GROUP BY must be used with SELECT'' \<rparr>]
                   else errs);
          errs2 = (if includesStr keywordSequence ''HAVING'' \<and> \<not> includesStr keywordSequence ''GROUP BY''
                   then errs1 @ [\<lparr> ve_type = SevError, ve_message = ''HAVING without GROUP BY'',
                          ve_line = None, ve_column = None,
                          ve_suggestion = Some ''HAVING must be used with GROUP BY'' \<rparr>]
                   else errs1);
          errs3 = (if includesStr keywordSequence ''ORDER BY'' \<and> \<not> includesStr keywordSequence ''SELECT''
                   then errs2 @ [\<lparr> ve_type = SevError, ve_message = ''ORDER BY without SELECT'',
                          ve_line = None, ve_column = None,
                          ve_suggestion = Some ''ORDER BY must be used with SELECT'' \<rparr>]
                   else errs2);
          warns1 = (if hasSelectStar tokens \<and> \<not> includesStr keywordSequence ''LIMIT''
                    then warns @ [\<lparr> ve_type = SevWarning,
                           ve_message = ''SELECT * without LIMIT may return large result sets'',
                           ve_line = None, ve_column = None,
                           ve_suggestion =
                             Some ''Consider adding a LIMIT clause or selecting specific columns'' \<rparr>]
                    else warns)
      in (errs3, warns1))"

definition validatePerformance ::
  "string \<Rightarrow> SQLToken list \<Rightarrow> ValidationError list \<Rightarrow> string list
     \<Rightarrow> ValidationError list \<times> string list" where
  "validatePerformance sql tokens warns hints =
     (let upperSQL = toUpperCase sql;
          hints1 = (if includesStr upperSQL ''SELECT *'' \<and> \<not> includesStr upperSQL ''LIMIT''
                    then hints @ [''Consider selecting specific columns instead of using SELECT *'']
                    else hints);
          hints2 = (if includesStr upperSQL ''LIKE'' \<and> includesStr upperSQL ''%''
                       \<and> \<not> includesStr upperSQL ''INDEX''
                    then hints1 @ [''LIKE queries with leading wildcards may be slow; consider using indexes'']
                    else hints1);
          hints3 = (if includesStr upperSQL ''ORDER BY'' \<and> \<not> includesStr upperSQL ''LIMIT''
                    then hints2 @ [''ORDER BY without LIMIT may be expensive on large datasets'']
                    else hints2);
          hints4 = (if includesStr upperSQL ''GROUP BY'' \<and> \<not> includesStr upperSQL ''HAVING''
                    then hints3 @ [''Consider if you need HAVING clause with GROUP BY'']
                    else hints3);
          hasFrom = list_ex (isKeywordToken ''FROM'') tokens;
          hasWhere = list_ex (isKeywordToken ''WHERE'') tokens;
          warns1 = (if hasFrom \<and> \<not> hasWhere
                    then warns @ [\<lparr> ve_type = SevWarning,
                           ve_message = ''Query without WHERE clause may scan entire table'',
                           ve_line = None, ve_column = None,
                           ve_suggestion = Some ''Consider adding a WHERE clause to filter results'' \<rparr>]
                    else warns)
      in (warns1, hints4))"

text \<open>
  The schema argument has the type \<^verbatim>\<open>any\<close>; what the validator reads of it is
  \<^verbatim>\<open>schema.tables\<close>, here the names of its tables if it has tables. The table names of
  the query are collected in a \<^verbatim>\<open>Set\<close>, which keeps each name once, in the order of the
  first occurrence.
\<close>

record schema_arg =
  arg_tables :: "string list option"

definition addToSet :: "'a list \<Rightarrow> 'a \<Rightarrow> 'a list" where
  "addToSet xs x = (if x \<in> set xs then xs else xs @ [x])"

definition tableNamesOf :: "SQLToken list \<Rightarrow> string list" where
  "tableNamesOf tokens =
     foldl (\<lambda>names (token, nextToken).
              (let names1 = (if isKeywordToken ''FROM'' token \<and> tok_type nextToken = TIdentifier
                             then addToSet names (tok_value nextToken) else names)
               in if tok_type token = TKeyword \<and> includesStr (toUpperCase (tok_value token)) ''JOIN''
                     \<and> tok_type nextToken = TIdentifier
                  then addToSet names1 (tok_value nextToken) else names1))
       [] (zip tokens (tl tokens))"

definition validateAgainstSchema ::
  "SQLToken list \<Rightarrow> schema_arg \<Rightarrow> ValidationError list \<Rightarrow> ValidationError list
     \<Rightarrow> ValidationError list \<times> ValidationError list" where
  "validateAgainstSchema tokens schema errs warns =
     (case arg_tables schema of
        None \<Rightarrow> (errs, warns)
      | Some schemaTableNames \<Rightarrow>
          (errs, warns @ map (\<lambda>tableName.
                   \<lparr> ve_type = SevWarning,
                     ve_message = ''Table '' @ [CHR 0x27] @ tableName @ [CHR 0x27] @ '' not found in schema'',
                     ve_line = None, ve_column = None,
                     ve_suggestion = Some ''Verify table name or check schema definition'' \<rparr>)
                 (filter (\<lambda>tableName. tableName \<notin> set schemaTableNames) (tableNamesOf tokens))))"

text \<open>
  \<^verbatim>\<open>/[A-Za-z_][A-Za-z0-9_]*\s+AS\s+[A-Za-z_][A-Za-z0-9_]*/i\<close> at the start of a text: a name,
  white space, AS in either case, white space, the first character of a name. The name
  and the white space are taken as far as they go; giving some back cannot help, since what
  follows must be of another kind.
\<close>

definition isNameStart :: "char \<Rightarrow> bool" where
  "isNameStart c = (c \<in> set (upperLetters @ lowerLetters @ ''_''))"

definition aliasAt :: "string \<Rightarrow> bool" where
  "aliasAt s =
     (case s of
        [] \<Rightarrow> False
      | c # cs \<Rightarrow>
          isNameStart c \<and>
          (let r1 = dropWhile isWordChar cs; r2 = dropWhile isSpace r1
           in r2 \<noteq> r1 \<and> matchesCI ''AS'' r2 \<and>
              (let r3 = drop 2 r2; r4 = dropWhile isSpace r3
               in r4 \<noteq> r3 \<and> r4 \<noteq> [] \<and> isNameStart (hd r4))))"

primrec hasAliases :: "string \<Rightarrow> bool" where
  "hasAliases [] = False"
| "hasAliases (c # cs) = (aliasAt (c # cs) \<or> hasAliases cs)"

definition validateBestPractices ::
  "string \<Rightarrow> SQLToken list \<Rightarrow> ValidationError list \<Rightarrow> ValidationError list" where
  "validateBestPractices sql tokens suggs =
     (let upperSQL = toUpperCase sql;
          suggs1 = (if includesStr upperSQL ''SELECT *''
                    then suggs @ [\<lparr> ve_type = SevInfo,
                           ve_message = ''Consider selecting specific columns instead of SELECT *'',
                           ve_line = None, ve_column = None,
                           ve_suggestion =
                             Some ''This improves performance and makes the query more explicit'' \<rparr>]
                    else suggs);
          suggs2 = (if \<not> includesStr upperSQL ''ORDER BY'' \<and> includesStr upperSQL ''LIMIT''
                    then suggs1 @ [\<lparr> ve_type = SevInfo,
                           ve_message = ''Consider adding ORDER BY with LIMIT'',
                           ve_line = None, ve_column = None,
                           ve_suggestion =
                             Some ''Without ORDER BY, the results may be unpredictable'' \<rparr>]
                    else suggs1);
          suggs3 = (if includesStr upperSQL ''COUNT(*)'' \<and> includesStr upperSQL ''WHERE''
                    then suggs2 @ [\<lparr> ve_type = SevInfo,
                           ve_message = ''Consider using COUNT(1) instead of COUNT(*)'',
                           ve_line = None, ve_column = None,
                           ve_suggestion =
                             Some ''COUNT(1) is often more efficient than COUNT(*)'' \<rparr>]
                    else suggs2);
          hasJoins = includesStr upperSQL ''JOIN''
      in if hasJoins \<and> \<not> hasAliases sql
         then suggs3 @ [\<lparr> ve_type = SevInfo,
                ve_message = ''Consider using table aliases for better readability'',
                ve_line = None, ve_column = None,
                ve_suggestion =
                  Some ''Example: FROM table1 t1 JOIN table2 t2 ON t1.id = t2.id'' \<rparr>]
         else suggs3)"

definition validateSQL :: "string \<Rightarrow> schema_arg option \<Rightarrow> ValidationResult" where
  "validateSQL sql schema =
     (let tokens = tokenize sql;
          errs1 = validateBasicSyntax tokens [];
          (errs2, warns2) = validateSQLStructure tokens errs1 [];
          (warns3, hints) = validatePerformance sql tokens warns2 [];
          (errs4, warns4) = (case schema of
                               None \<Rightarrow> (errs2, warns3)
                             | Some sch \<Rightarrow> validateAgainstSchema tokens sch errs2 warns3);
          suggs = validateBestPractices sql tokens []
      in \<lparr> isValid = (length errs4 = 0), errors = errs4, warnings = warns4,
           suggestions = suggs, performanceHints = hints \<rparr>)"

text \<open>The two errors of \<^verbatim>\<open>validateBasicSyntax\<close> for a missing clause.\<close>

definition missingSelect :: ValidationError where
  "missingSelect =
     \<lparr> ve_type = SevError, ve_message = ''Missing SELECT clause'', ve_line = None,
       ve_column = None,
       ve_suggestion = Some ''Add a SELECT clause to specify which columns to retrieve'' \<rparr>"

definition missingFrom :: ValidationError where
  "missingFrom =
     \<lparr> ve_type = SevError, ve_message = ''Missing FROM clause'', ve_line = None,
       ve_column = None,
       ve_suggestion = Some ''Add a FROM clause to specify the table(s) to query'' \<rparr>"


text \<open>
  The white-space separated words of a text, as the claim about the validator speaks of
  them: the maximal runs of characters that are not white space, from left to right.
\<close>

function wordsOf :: "string \<Rightarrow> string list" where
  "wordsOf [] = []"
| "wordsOf (c # cs) =
     (if isSpace c then wordsOf cs
      else (c # takeWhile (\<lambda>x. \<not> isSpace x) cs) # wordsOf (dropWhile (\<lambda>x. \<not> isSpace x) cs))"
  by pat_completeness auto
termination
  by (relation "measure length")
     (auto intro!: le_imp_less_Suc length_dropWhile_le)

section \<open>Properties of the query history\<close>

lemma getHistory_saveHistory:
  "getHistory (saveHistory h st) = (if throwsNext (hs_throws st) then getHistory st else Array h)"
  by (simp add: getHistory_def saveHistory_def)

lemma history_item_saveHistory:
  "history_item (saveHistory h st)
     = (if throwsNext (hs_throws st) then history_item st else Parsed (Array h))"
  by (simp add: saveHistory_def)

lemma history_item_saveCategories: "history_item (saveCategories c st) = history_item st"
  by (simp add: saveCategories_def)

lemma storedLength_saveHistory:
  "storedLength (saveHistory h st)
     = (if throwsNext (hs_throws st) then storedLength st else length h)"
  by (simp add: storedLength_def saveHistory_def)

lemma storedLength_getHistory:
  "getHistory st = Array h \<Longrightarrow> storedLength st \<le> length h"
  by (auto simp: storedLength_def getHistory_def split: item.splits parsed.splits)

lemma storedLength_Array:
  "history_item st = Parsed (Array h) \<Longrightarrow> storedLength st = length h"
  by (simp add: storedLength_def)

lemma getHistory_cases:
  obtains h where "getHistory st = Array h" "history_item st = Parsed (Array h) \<or> h = []"
  | v where "getHistory st = NonArray v" "history_item st = Parsed (NonArray v)"
  by (cases "history_item st"; simp add: getHistory_def)
     (metis parsed.exhaust)

lemma length_changeFirst: "length (changeFirst p f xs) = length xs"
  by (induction xs) simp_all

lemma addQuery_Array:
  assumes "getHistory st = Array h"
  shows "addQuery newId now question sql success executionTime errorMessage st
     = (Inr newId,
        saveHistory (take 100 (newItem newId now question sql success executionTime errorMessage # h)) st)"
  using assms by (simp add: addQuery_def Let_def newItem_def)

lemma addQuery_NonArray:
  assumes "getHistory st = NonArray v"
  shows "addQuery newId now question sql success executionTime errorMessage st = (Inl TypeError, st)"
  using assms by (simp add: addQuery_def)

text \<open>
  Claim C8, as stated, fails on a full history: of 100 stored items the last one does not
  follow the new item, it is gone.
\<close>

theorem addQuery_drops_oldest:
  "getHistory (storeOf (map oldItem [0..<100]) []) = Array (map oldItem [0..<100])
   \<and> length (map oldItem [0..<100]) = 100
   \<and> oldItem 99 \<in> set (map oldItem [0..<100])
   \<and> fst (addQuery ''k1'' 1700 ''top carriers'' ''SELECT 1'' None None None
            (storeOf (map oldItem [0..<100]) [])) = Inr ''k1''
   \<and> getHistory (snd (addQuery ''k1'' 1700 ''top carriers'' ''SELECT 1'' None None None
                         (storeOf (map oldItem [0..<100]) [])))
       = Array (newItem ''k1'' 1700 ''top carriers'' ''SELECT 1'' None None None
                # map oldItem [0..<99])
   \<and> oldItem 99 \<notin> set (newItem ''k1'' 1700 ''top carriers'' ''SELECT 1'' None None None
                         # map oldItem [0..<99])"
proof -
  have g: "getHistory (storeOf (map oldItem [0..<100]) []) = Array (map oldItem [0..<100])"
    by (simp add: getHistory_def storeOf_def)
  have t: "take 99 (map oldItem [0..<100]) = map oldItem [0..<99]"
    by (simp add: take_map)
  have n: "oldItem 99 \<notin> set (map oldItem [0..<99])"
    by (auto simp: oldItem_def)
  have m: "oldItem 99 \<in> set (map oldItem [0..<100])"
    by simp
  have d: "oldItem 99 \<noteq> newItem ''k1'' 1700 ''top carriers'' ''SELECT 1'' None None None"
    by (simp add: oldItem_def newItem_def)
  have w: "\<not> throwsNext (hs_throws (storeOf (map oldItem [0..<100]) []))"
    by (simp add: storeOf_def throwsNext_def)
  show ?thesis
    using g t n m d w by (simp add: addQuery_Array [OF g] getHistory_saveHistory)
qed

text \<open>
  Claim C8, amended. When the stored value is a list (or absent, or unparseable, which read
  as the empty list), \<^verbatim>\<open>addQuery(question, sql, success, ...)\<close> completes and returns the
  new id. If its call of \<^verbatim>\<open>setItem\<close> does not throw, \<^verbatim>\<open>getHistory\<close> then returns a
  list whose first element records exactly that question and sql, with
  \<^verbatim>\<open>isFavorite = false\<close>; what follows it is the previous history in its previous order,
  all of it while fewer than 100 items were stored, and its first 99 items otherwise. If
  \<^verbatim>\<open>setItem\<close> throws, the error is caught and the stored history stays as it was.
\<close>

theorem addQuery_persists:
  assumes "getHistory st = Array h"
  shows "let r = addQuery newId now question sql success executionTime errorMessage st;
             item = newItem newId now question sql success executionTime errorMessage
         in fst r = Inr newId
            \<and> qh_question item = question \<and> qh_sql item = sql \<and> qh_isFavorite item = False
            \<and> qh_id item = newId
            \<and> (\<not> throwsNext (hs_throws st) \<longrightarrow>
                  getHistory (snd r) = Array (item # take 99 h)
                  \<and> prefix (take 99 h) h
                  \<and> (length h < 100 \<longrightarrow> getHistory (snd r) = Array (item # h)))
            \<and> (throwsNext (hs_throws st) \<longrightarrow>
                  history_item (snd r) = history_item st \<and> getHistory (snd r) = Array h)"
  using assms
  by (simp add: addQuery_Array Let_def getHistory_saveHistory history_item_saveHistory
      take_is_prefix) (simp add: newItem_def)

theorem addQuery_persists_witness:
  "getHistory freshStore = Array []
   \<and> \<not> throwsNext (hs_throws freshStore)
   \<and> fst (addQuery ''k1'' 1700 ''top carriers'' ''SELECT 1'' None (Some 12) None freshStore)
       = Inr ''k1''
   \<and> getHistory (snd (addQuery ''k1'' 1700 ''top carriers'' ''SELECT 1'' None (Some 12) None
                         freshStore))
       = Array [newItem ''k1'' 1700 ''top carriers'' ''SELECT 1'' None (Some 12) None]
   \<and> getHistory (storeOf [oldItem 0] [True]) = Array [oldItem 0]
   \<and> throwsNext (hs_throws (storeOf [oldItem 0] [True]))
   \<and> fst (addQuery ''k1'' 1700 ''top carriers'' ''SELECT 1'' None (Some 12) None
            (storeOf [oldItem 0] [True])) = Inr ''k1''
   \<and> getHistory (snd (addQuery ''k1'' 1700 ''top carriers'' ''SELECT 1'' None (Some 12) None
                         (storeOf [oldItem 0] [True]))) = Array [oldItem 0]"
proof -
  have a: "getHistory freshStore = Array []"
    by (simp add: getHistory_def freshStore_def)
  have b: "\<not> throwsNext (hs_throws freshStore)"
    by (simp add: throwsNext_def freshStore_def)
  have c: "getHistory (storeOf [oldItem 0] [True]) = Array [oldItem 0]"
    by (simp add: getHistory_def storeOf_def)
  have d: "throwsNext (hs_throws (storeOf [oldItem 0] [True]))"
    by (simp add: throwsNext_def storeOf_def)
  note p = addQuery_persists [OF a, of "''k1''" 1700 "''top carriers''" "''SELECT 1''" None "Some 12" None]
  note q = addQuery_persists [OF c, of "''k1''" 1700 "''top carriers''" "''SELECT 1''" None "Some 12" None]
  from p b have "fst (addQuery ''k1'' 1700 ''top carriers'' ''SELECT 1'' None (Some 12) None freshStore)
       = Inr ''k1''
     \<and> getHistory (snd (addQuery ''k1'' 1700 ''top carriers'' ''SELECT 1'' None (Some 12) None
                         freshStore))
       = Array [newItem ''k1'' 1700 ''top carriers'' ''SELECT 1'' None (Some 12) None]"
    by (simp add: Let_def)
  moreover from q d have "fst (addQuery ''k1'' 1700 ''top carriers'' ''SELECT 1'' None (Some 12) None
            (storeOf [oldItem 0] [True])) = Inr ''k1''
     \<and> getHistory (snd (addQuery ''k1'' 1700 ''top carriers'' ''SELECT 1'' None (Some 12) None
                         (storeOf [oldItem 0] [True]))) = Array [oldItem 0]"
    by (simp add: Let_def)
  ultimately show ?thesis using a b c d by blast
qed

text \<open>
  Claim C9, as stated, fails when \<^verbatim>\<open>setItem\<close> throws: \<^verbatim>\<open>addQuery\<close> on a history of
  100 items completes, and the oldest item is still stored, the new one is not.
\<close>

theorem addQuery_full_write_fails:
  "storedLength (storeOf (map oldItem [0..<100]) [True]) = 100
   \<and> fst (addQuery ''k1'' 1700 ''top carriers'' ''SELECT 1'' None None None
            (storeOf (map oldItem [0..<100]) [True])) = Inr ''k1''
   \<and> history_item (snd (addQuery ''k1'' 1700 ''top carriers'' ''SELECT 1'' None None None
                           (storeOf (map oldItem [0..<100]) [True])))
       = Parsed (Array (map oldItem [0..<100]))
   \<and> oldItem 99 \<in> set (map oldItem [0..<100])
   \<and> newItem ''k1'' 1700 ''top carriers'' ''SELECT 1'' None None None
       \<notin> set (map oldItem [0..<100])"
proof -
  have g: "getHistory (storeOf (map oldItem [0..<100]) [True]) = Array (map oldItem [0..<100])"
    by (simp add: getHistory_def storeOf_def)
  have w: "throwsNext (hs_throws (storeOf (map oldItem [0..<100]) [True]))"
    by (simp add: storeOf_def throwsNext_def)
  have s: "history_item (storeOf (map oldItem [0..<100]) [True])
      = Parsed (Array (map oldItem [0..<100]))"
    by (simp add: storeOf_def)
  have n: "newItem ''k1'' 1700 ''top carriers'' ''SELECT 1'' None None None
      \<notin> set (map oldItem [0..<100])"
    by (auto simp: oldItem_def newItem_def)
  have m: "oldItem 99 \<in> set (map oldItem [0..<100])"
    by simp
  show ?thesis
    using w s n m
    by (simp add: addQuery_Array [OF g] history_item_saveHistory storedLength_Array [OF s])
qed

text \<open>The other writers of the history do not lengthen the stored list.\<close>

lemma deleteQuery_length: "storedLength (snd (deleteQuery ident st)) \<le> storedLength st"
proof (cases st rule: getHistory_cases)
  case (1 h)
  then show ?thesis
    by (auto simp: deleteQuery_def Let_def storedLength_saveHistory storedLength_Array)
next
  case (2 v)
  then show ?thesis by (simp add: deleteQuery_def)
qed

lemma clearHistory_length: "storedLength (snd (clearHistory st)) \<le> storedLength st"
  by (simp add: clearHistory_def storedLength_saveHistory)

lemma toggleFavorite_length: "storedLength (snd (toggleFavorite ident st)) \<le> storedLength st"
proof (cases st rule: getHistory_cases)
  case (1 h)
  then show ?thesis
    by (auto simp: toggleFavorite_def storedLength_saveHistory storedLength_Array
        length_changeFirst list_ex_iff)
next
  case (2 v)
  then show ?thesis by (simp add: toggleFavorite_def)
qed

lemma updateQueryCategory_length:
  "storedLength (snd (updateQueryCategory queryId categoryId st)) \<le> storedLength st"
proof (cases st rule: getHistory_cases)
  case (1 h)
  then show ?thesis
    by (auto simp: updateQueryCategory_def storedLength_saveHistory storedLength_Array
        length_changeFirst list_ex_iff)
next
  case (2 v)
  then show ?thesis by (simp add: updateQueryCategory_def)
qed

lemma storedLength_saveCategories: "storedLength (saveCategories c st) = storedLength st"
  by (simp add: storedLength_def saveCategories_def)

lemma getHistory_saveCategories: "getHistory (saveCategories c st) = getHistory st"
  by (simp add: getHistory_def saveCategories_def)

lemma deleteCategory_length: "storedLength (snd (deleteCategory categoryId st)) \<le> storedLength st"
proof (cases "getCategories st")
  case (NonArray v)
  then show ?thesis by (simp add: deleteCategory_def)
next
  case (Array cats)
  let ?st1 = "saveCategories (filter (\<lambda>c. qc_id c \<noteq> categoryId) cats) st"
  show ?thesis
  proof (cases ?st1 rule: getHistory_cases)
    case (1 h)
    have "storedLength ?st1 = storedLength st" by (rule storedLength_saveCategories)
    moreover have "history_item ?st1 = history_item st" by (rule history_item_saveCategories)
    ultimately show ?thesis
      using Array 1
      by (auto simp: deleteCategory_def Let_def storedLength_saveHistory storedLength_Array)
  next
    case (2 v)
    with Array show ?thesis
      by (simp add: deleteCategory_def Let_def storedLength_saveCategories)
  qed
qed

text \<open>\<^verbatim>\<open>importHistory\<close> stores the list it is given, of any length.\<close>

lemma importHistory_stores:
  "history_item (snd (importHistory
       (Some \<lparr> imp_history = Some (map oldItem [0..<101]), imp_categories = None \<rparr>) freshStore))
     = Parsed (Array (map oldItem [0..<101]))
   \<and> storedLength (snd (importHistory
       (Some \<lparr> imp_history = Some (map oldItem [0..<101]), imp_categories = None \<rparr>) freshStore))
     = 101"
  by (simp add: importHistory_def saveHistory_def freshStore_def throwsNext_def storedLength_def)

text \<open>
  Claim C9, amended. After an \<^verbatim>\<open>addQuery\<close> call whose \<^verbatim>\<open>setItem\<close> does not throw the
  stored history has at most 100 items: the new item and the first 99 of those read; when
  100 items were stored, the oldest one (the last of the list) is gone and the other 99
  follow the new item. An \<^verbatim>\<open>addQuery\<close> call whose \<^verbatim>\<open>setItem\<close> throws, or that finds a
  stored value that is no list, leaves the stored history as it was.
  \<^verbatim>\<open>deleteQuery\<close>, \<^verbatim>\<open>clearHistory\<close>, \<^verbatim>\<open>toggleFavorite\<close>, \<^verbatim>\<open>updateQueryCategory\<close> and
  \<^verbatim>\<open>deleteCategory\<close> never lengthen it. So none of these calls takes a stored history
  of at most 100 items to a longer one.
\<close>

theorem addQuery_bounded:
  "let r = addQuery newId now question sql success executionTime errorMessage st;
       item = newItem newId now question sql success executionTime errorMessage
   in (\<forall>h. getHistory st = Array h \<and> \<not> throwsNext (hs_throws st) \<longrightarrow>
          history_item (snd r) = Parsed (Array (take 100 (item # h)))
          \<and> storedLength (snd r) \<le> 100
          \<and> (length h = 100 \<longrightarrow> history_item (snd r) = Parsed (Array (item # butlast h))))
      \<and> (throwsNext (hs_throws st) \<or> (\<exists>v. getHistory st = NonArray v) \<longrightarrow>
          history_item (snd r) = history_item st)
      \<and> (storedLength st \<le> 100 \<longrightarrow>
          storedLength (snd r) \<le> 100
          \<and> storedLength (snd (deleteQuery ident st)) \<le> 100
          \<and> storedLength (snd (clearHistory st)) \<le> 100
          \<and> storedLength (snd (toggleFavorite ident st)) \<le> 100
          \<and> storedLength (snd (updateQueryCategory ident categoryId st)) \<le> 100
          \<and> storedLength (snd (deleteCategory categoryId st)) \<le> 100)"
proof -
  let ?r = "addQuery newId now question sql success executionTime errorMessage st"
  let ?item = "newItem newId now question sql success executionTime errorMessage"
  have a: "history_item (snd ?r) = Parsed (Array (take 100 (?item # h)))
      \<and> storedLength (snd ?r) \<le> 100
      \<and> (length h = 100 \<longrightarrow> history_item (snd ?r) = Parsed (Array (?item # butlast h)))"
    if "getHistory st = Array h" "\<not> throwsNext (hs_throws st)" for h
    using that
    by (simp add: addQuery_Array history_item_saveHistory storedLength_saveHistory
        butlast_conv_take)
  have b: "history_item (snd ?r) = history_item st"
    if "throwsNext (hs_throws st) \<or> (\<exists>v. getHistory st = NonArray v)"
  proof (cases st rule: getHistory_cases)
    case (1 h)
    with that show ?thesis by (simp add: addQuery_Array history_item_saveHistory)
  next
    case (2 v)
    then show ?thesis by (simp add: addQuery_NonArray)
  qed
  have c: "storedLength (snd ?r) \<le> 100" if "storedLength st \<le> 100"
  proof (cases st rule: getHistory_cases)
    case (1 h)
    with that show ?thesis by (simp add: addQuery_Array storedLength_saveHistory)
  next
    case (2 v)
    with that show ?thesis by (simp add: addQuery_NonArray)
  qed
  have d: "storedLength (snd (deleteQuery ident st)) \<le> 100
      \<and> storedLength (snd (clearHistory st)) \<le> 100
      \<and> storedLength (snd (toggleFavorite ident st)) \<le> 100
      \<and> storedLength (snd (updateQueryCategory ident categoryId st)) \<le> 100
      \<and> storedLength (snd (deleteCategory categoryId st)) \<le> 100"
    if "storedLength st \<le> 100"
    using that deleteQuery_length [of ident st] clearHistory_length [of st]
      toggleFavorite_length [of ident st] updateQueryCategory_length [of ident categoryId st]
      deleteCategory_length [of categoryId st]
    by linarith
  show ?thesis
    unfolding Let_def using a b c d by blast
qed

theorem addQuery_bounded_witness:
  "getHistory (storeOf (map oldItem [0..<100]) []) = Array (map oldItem [0..<100])
   \<and> \<not> throwsNext (hs_throws (storeOf (map oldItem [0..<100]) []))
   \<and> length (map oldItem [0..<100]) = 100
   \<and> storedLength (storeOf (map oldItem [0..<100]) []) \<le> 100
   \<and> history_item (snd (addQuery ''k1'' 1700 ''top carriers'' ''SELECT 1'' None None None
                           (storeOf (map oldItem [0..<100]) [])))
       = Parsed (Array (newItem ''k1'' 1700 ''top carriers'' ''SELECT 1'' None None None
                        # butlast (map oldItem [0..<100])))
   \<and> storedLength (snd (addQuery ''k1'' 1700 ''top carriers'' ''SELECT 1'' None None None
                           (storeOf (map oldItem [0..<100]) []))) \<le> 100
   \<and> storedLength (snd (deleteQuery ''old'' (storeOf (map oldItem [0..<100]) []))) \<le> 100"
proof -
  have g: "getHistory (storeOf (map oldItem [0..<100]) []) = Array (map oldItem [0..<100])"
    by (simp add: getHistory_def storeOf_def)
  have w: "\<not> throwsNext (hs_throws (storeOf (map oldItem [0..<100]) []))"
    by (simp add: storeOf_def throwsNext_def)
  have l: "length (map oldItem [0..<100]) = 100"
    by simp
  have s: "storedLength (storeOf (map oldItem [0..<100]) []) \<le> 100"
    by (simp add: storedLength_def storeOf_def)
  note t = addQuery_bounded [of "''k1''" 1700 "''top carriers''" "''SELECT 1''" None None None
      "storeOf (map oldItem [0..<100]) []" "''old''" "''general''"]
  from t g w l s show ?thesis
    unfolding Let_def by blast
qed

section \<open>Properties of the schema manager\<close>

lemma getSchemas_empty:
  assumes "schemas_item st = Absent \<or> schemas_item st = Parsed (Array [])"
  shows "getSchemas clock st
     = (Array [createDefaultSchema (clock 0) (clock 1)],
        saveSchemas [createDefaultSchema (clock 0) (clock 1)] st)"
  using assms by (auto simp: getSchemas_def Let_def)

lemma getSchemas_stored:
  assumes "schemas_item st = Parsed (Array stored)" "stored \<noteq> []"
  shows "getSchemas clock st = (Array stored, st)"
  using assms by (simp add: getSchemas_def)

lemma getSchemas_Unparseable:
  assumes "schemas_item st = Unparseable"
  shows "getSchemas clock st = (Array [createDefaultSchema (clock 0) (clock 1)], st)"
  using assms by (simp add: getSchemas_def)

lemma getSchemas_NonArray:
  assumes "schemas_item st = Parsed (NonArray v)"
  shows "getSchemas clock st =
     (if v = JNull then (Array [createDefaultSchema (clock 0) (clock 1)], st)
      else if lengthIsZero v then (Array [createDefaultSchema (clock 2) (clock 3)], st)
      else (NonArray v, st))"
  using assms by (simp add: getSchemas_def)

lemma getSchemas_unchanged:
  assumes "schemas_item st \<noteq> Absent" "schemas_item st \<noteq> Parsed (Array [])"
  shows "snd (getSchemas clock st) = st"
proof (cases "schemas_item st")
  case Absent
  with assms show ?thesis by simp
next
  case Unparseable
  then show ?thesis by (simp add: getSchemas_Unparseable)
next
  case (Parsed p)
  show ?thesis
  proof (cases p)
    case (Array stored)
    with Parsed assms(2) show ?thesis by (simp add: getSchemas_stored)
  next
    case (NonArray v)
    with Parsed show ?thesis by (simp add: getSchemas_NonArray)
  qed
qed

lemma getSchemas_default_item: "default_item (snd (getSchemas clock st)) = default_item st"
proof (cases "schemas_item st = Absent \<or> schemas_item st = Parsed (Array [])")
  case True
  then show ?thesis by (simp add: getSchemas_empty saveSchemas_def)
next
  case False
  then show ?thesis by (simp add: getSchemas_unchanged)
qed

lemma getSchemas_nonEmpty:
  assumes "\<forall>v. schemas_item st = Parsed (NonArray v) \<longrightarrow> v = JNull \<or> lengthIsZero v"
  shows "nonEmptyList (fst (getSchemas clock st))"
proof (cases "schemas_item st")
  case Absent
  then show ?thesis by (simp add: getSchemas_empty nonEmptyList_def)
next
  case Unparseable
  then show ?thesis by (simp add: getSchemas_Unparseable nonEmptyList_def)
next
  case (Parsed p)
  show ?thesis
  proof (cases p)
    case (Array stored)
    with Parsed show ?thesis
      by (cases "stored = []") (simp_all add: getSchemas_empty getSchemas_stored nonEmptyList_def)
  next
    case (NonArray v)
    with Parsed assms show ?thesis by (auto simp: getSchemas_NonArray nonEmptyList_def)
  qed
qed

text \<open>
  Claim C10, as stated, fails when \<^verbatim>\<open>setItem\<close> throws: on an empty store
  \<^verbatim>\<open>getSchemas\<close> returns the default schema, and the store still holds no schema list.
\<close>

theorem getSchemas_default_not_persisted:
  "schemas_item (emptyStore\<lparr> sc_throws := [True] \<rparr>) = Absent
   \<and> fst (getSchemas ticks (emptyStore\<lparr> sc_throws := [True] \<rparr>))
       = Array [createDefaultSchema 1700 1701]
   \<and> schemas_item (snd (getSchemas ticks (emptyStore\<lparr> sc_throws := [True] \<rparr>))) = Absent"
  by (simp add: getSchemas_def saveSchemas_def emptyStore_def throwsNext_def ticks_def Let_def)

text \<open>
  Claim C10, amended. \<^verbatim>\<open>getSchemas\<close> returns a list that is not empty, unless the
  stored text parses to a value that is no list, is not \<^verbatim>\<open>null\<close> and has not the
  \<^verbatim>\<open>length\<close> 0: such a value is returned as it is. When the store holds no schemas (no
  text, or the empty list) it returns the built-in default schema, named
  'Freight Analytics', and saves it; the default schema is then stored unless
  \<^verbatim>\<open>setItem\<close> throws, in which case the store stays as it was. When the text cannot be
  parsed it returns the default schema and leaves the store as it is. A stored list that is
  not empty is returned as it is.
\<close>

theorem getSchemas_at_least_one:
  "let r = getSchemas clock st;
       default = createDefaultSchema (clock 0) (clock 1)
   in ((\<forall>v. schemas_item st = Parsed (NonArray v) \<longrightarrow> v = JNull \<or> lengthIsZero v) \<longrightarrow>
          nonEmptyList (fst r))
      \<and> (\<forall>v. schemas_item st = Parsed (NonArray v) \<and> v \<noteq> JNull \<and> \<not> lengthIsZero v \<longrightarrow>
          r = (NonArray v, st))
      \<and> (schemas_item st = Absent \<or> schemas_item st = Parsed (Array []) \<longrightarrow>
          fst r = Array [default]
          \<and> (\<not> throwsNext (sc_throws st) \<longrightarrow> schemas_item (snd r) = Parsed (Array [default]))
          \<and> (throwsNext (sc_throws st) \<longrightarrow> schemas_item (snd r) = schemas_item st))
      \<and> (schemas_item st = Unparseable \<longrightarrow> r = (Array [default], st))
      \<and> (\<forall>stored. schemas_item st = Parsed (Array stored) \<and> stored \<noteq> [] \<longrightarrow>
          r = (Array stored, st))
      \<and> schema_name default = ''Freight Analytics''"
proof -
  let ?r = "getSchemas clock st"
  let ?d = "createDefaultSchema (clock 0) (clock 1)"
  have a: "(\<forall>v. schemas_item st = Parsed (NonArray v) \<longrightarrow> v = JNull \<or> lengthIsZero v) \<longrightarrow>
      nonEmptyList (fst ?r)"
    using getSchemas_nonEmpty [of st clock] by blast
  have b: "\<forall>v. schemas_item st = Parsed (NonArray v) \<and> v \<noteq> JNull \<and> \<not> lengthIsZero v \<longrightarrow>
      ?r = (NonArray v, st)"
    by (simp add: getSchemas_NonArray)
  have c: "schemas_item st = Absent \<or> schemas_item st = Parsed (Array []) \<longrightarrow>
      fst ?r = Array [?d]
      \<and> (\<not> throwsNext (sc_throws st) \<longrightarrow> schemas_item (snd ?r) = Parsed (Array [?d]))
      \<and> (throwsNext (sc_throws st) \<longrightarrow> schemas_item (snd ?r) = schemas_item st)"
    by (auto simp: getSchemas_empty saveSchemas_def)
  have d: "schemas_item st = Unparseable \<longrightarrow> ?r = (Array [?d], st)"
    by (simp add: getSchemas_Unparseable)
  have e: "\<forall>stored. schemas_item st = Parsed (Array stored) \<and> stored \<noteq> [] \<longrightarrow>
      ?r = (Array stored, st)"
    by (simp add: getSchemas_stored)
  have f: "schema_name ?d = ''Freight Analytics''"
    by (simp add: createDefaultSchema_def)
  show ?thesis
    unfolding Let_def using a b c d e f by blast
qed

theorem getSchemas_at_least_one_witness:
  "schemas_item emptyStore = Absent \<and> \<not> throwsNext (sc_throws emptyStore)
   \<and> fst (getSchemas ticks emptyStore) = Array [createDefaultSchema 1700 1701]
   \<and> schemas_item (snd (getSchemas ticks emptyStore)) = Parsed (Array [createDefaultSchema 1700 1701])
   \<and> nonEmptyList (fst (getSchemas ticks emptyStore))
   \<and> schemas_item (emptyStore\<lparr> schemas_item := Unparseable \<rparr>) = Unparseable
   \<and> getSchemas ticks (emptyStore\<lparr> schemas_item := Unparseable \<rparr>)
       = (Array [createDefaultSchema 1700 1701], emptyStore\<lparr> schemas_item := Unparseable \<rparr>)
   \<and> getSchemas ticks twoSchemas = (Array [userSchema ''a1'', userSchema ''b2''], twoSchemas)
   \<and> schemas_item (emptyStore\<lparr> schemas_item := Parsed (NonArray (JOther False)) \<rparr>)
       = Parsed (NonArray (JOther False))
   \<and> getSchemas ticks (emptyStore\<lparr> schemas_item := Parsed (NonArray (JOther False)) \<rparr>)
       = (NonArray (JOther False), emptyStore\<lparr> schemas_item := Parsed (NonArray (JOther False)) \<rparr>)"
proof -
  have t: "ticks 0 = 1700" "ticks 1 = 1701"
    by (simp_all add: ticks_def)
  have e: "schemas_item emptyStore = Absent" "\<not> throwsNext (sc_throws emptyStore)"
    by (simp_all add: emptyStore_def throwsNext_def)
  have u: "schemas_item (emptyStore\<lparr> schemas_item := Unparseable \<rparr>) = Unparseable"
    by simp
  have s: "schemas_item twoSchemas = Parsed (Array [userSchema ''a1'', userSchema ''b2''])"
    by (simp add: twoSchemas_def)
  have n: "schemas_item (emptyStore\<lparr> schemas_item := Parsed (NonArray (JOther False)) \<rparr>)
       = Parsed (NonArray (JOther False))"
    "JOther False \<noteq> JNull" "\<not> lengthIsZero (JOther False)"
    by (simp_all add: lengthIsZero_def)
  note a = getSchemas_at_least_one [of ticks emptyStore]
  note b = getSchemas_at_least_one [of ticks "emptyStore\<lparr> schemas_item := Unparseable \<rparr>"]
  note c = getSchemas_at_least_one [of ticks twoSchemas]
  note d = getSchemas_at_least_one
    [of ticks "emptyStore\<lparr> schemas_item := Parsed (NonArray (JOther False)) \<rparr>"]
  from a e have "fst (getSchemas ticks emptyStore) = Array [createDefaultSchema 1700 1701]
      \<and> schemas_item (snd (getSchemas ticks emptyStore))
          = Parsed (Array [createDefaultSchema 1700 1701])
      \<and> nonEmptyList (fst (getSchemas ticks emptyStore))"
    unfolding Let_def t by (simp add: nonEmptyList_def)
  moreover from b u have "getSchemas ticks (emptyStore\<lparr> schemas_item := Unparseable \<rparr>)
       = (Array [createDefaultSchema 1700 1701], emptyStore\<lparr> schemas_item := Unparseable \<rparr>)"
    unfolding Let_def t by blast
  moreover from c s have "getSchemas ticks twoSchemas
      = (Array [userSchema ''a1'', userSchema ''b2''], twoSchemas)"
    unfolding Let_def by blast
  moreover from d n have
    "getSchemas ticks (emptyStore\<lparr> schemas_item := Parsed (NonArray (JOther False)) \<rparr>)
       = (NonArray (JOther False), emptyStore\<lparr> schemas_item := Parsed (NonArray (JOther False)) \<rparr>)"
    unfolding Let_def by blast
  ultimately show ?thesis using e u n(1) by blast
qed

text \<open>
  Claim C5, as stated, fails on an empty store: deleting the id of the default schema
  throws 'Cannot delete the last schema', and the store, which held no schema list, now
  holds the default schema that \<^verbatim>\<open>getSchemas\<close> saved before the throw.
\<close>

theorem deleteSchema_error_store_changed:
  "fst (deleteSchema ticks ''default-freight-schema'' emptyStore)
     = Inl (Error ''Cannot delete the last schema'')
   \<and> schemas_item emptyStore = Absent
   \<and> schemas_item (snd (deleteSchema ticks ''default-freight-schema'' emptyStore))
       = Parsed (Array [createDefaultSchema 1700 1701])"
  by (simp add: deleteSchema_def getSchemas_def saveSchemas_def emptyStore_def Let_def
      createDefaultSchema_def throwsNext_def ticks_def)

text \<open>
  Claim C5, amended. Let \<^verbatim>\<open>getSchemas\<close> return a list. \<^verbatim>\<open>deleteSchema\<close> throws
  'Cannot delete the last schema' exactly when removing the id from that list leaves
  nothing. In that case the store is as \<^verbatim>\<open>getSchemas\<close> left it: unchanged unless it
  held no text or the empty list. Otherwise the list without the schemas of that id is
  saved, and is then the stored list unless \<^verbatim>\<open>setItem\<close> throws, which leaves the stored
  list as it was; and when the id was the stored default id, the id of the first remaining
  schema becomes the default, unless that call of \<^verbatim>\<open>setItem\<close> throws: then
  \<^verbatim>\<open>deleteSchema\<close> throws what \<^verbatim>\<open>setItem\<close> threw, after the list was saved, and the
  default id stays.
\<close>

theorem deleteSchema_last_or_removed:
  assumes "fst (getSchemas clock st) = Array schemas"
  shows "let st1 = snd (getSchemas clock st);
             filtered = filter (\<lambda>s. schema_id s \<noteq> ident) schemas;
             r = deleteSchema clock ident st
         in (filtered = [] \<longrightarrow>
               fst r = Inl (Error ''Cannot delete the last schema'')
               \<and> snd r = st1
               \<and> (schemas_item st \<noteq> Absent \<and> schemas_item st \<noteq> Parsed (Array []) \<longrightarrow> snd r = st))
            \<and> (filtered \<noteq> [] \<longrightarrow>
               fst r \<noteq> Inl (Error ''Cannot delete the last schema'')
               \<and> (\<not> throwsNext (sc_throws st1) \<longrightarrow> schemas_item (snd r) = Parsed (Array filtered))
               \<and> (throwsNext (sc_throws st1) \<longrightarrow> schemas_item (snd r) = schemas_item st1)
               \<and> (default_item st \<noteq> Some ident \<longrightarrow>
                    fst r = Inr () \<and> default_item (snd r) = default_item st)
               \<and> (default_item st = Some ident \<and> \<not> throwsNext (tl (sc_throws st1)) \<longrightarrow>
                    fst r = Inr () \<and> default_item (snd r) = Some (schema_id (hd filtered)))
               \<and> (default_item st = Some ident \<and> throwsNext (tl (sc_throws st1)) \<longrightarrow>
                    fst r = Inl StorageError \<and> default_item (snd r) = default_item st))"
proof -
  obtain st1 where g: "getSchemas clock st = (Array schemas, st1)"
    using assms by (cases "getSchemas clock st") simp
  have d: "default_item st1 = default_item st"
    using getSchemas_default_item [of clock st] g by simp
  have u: "schemas_item st \<noteq> Absent \<and> schemas_item st \<noteq> Parsed (Array []) \<longrightarrow> st1 = st"
    using getSchemas_unchanged [of st clock] g by simp
  let ?f = "filter (\<lambda>s. schema_id s \<noteq> ident) schemas"
  have e: "deleteSchema clock ident st = (Inl (Error ''Cannot delete the last schema''), st1)"
    if "?f = []"
    using that g by (simp add: deleteSchema_def Let_def)
  have n: "deleteSchema clock ident st =
      (if default_item st = Some ident
       then setDefaultSchema (schema_id (hd ?f)) (saveSchemas ?f st1)
       else (Inr (), saveSchemas ?f st1))"
    if "?f \<noteq> []"
    using that g d by (simp add: deleteSchema_def Let_def saveSchemas_def)
  show ?thesis
  proof (cases "?f = []")
    case True
    with e u g show ?thesis by (simp add: Let_def)
  next
    case False
    with n g d show ?thesis
      by (simp add: Let_def saveSchemas_def setDefaultSchema_def)
  qed
qed

theorem deleteSchema_last_or_removed_witness:
  "fst (getSchemas ticks twoSchemas) = Array [userSchema ''a1'', userSchema ''b2'']
   \<and> filter (\<lambda>s. schema_id s \<noteq> ''a1'') [userSchema ''a1'', userSchema ''b2''] = [userSchema ''b2'']
   \<and> fst (deleteSchema ticks ''a1'' twoSchemas) = Inr ()
   \<and> schemas_item (snd (deleteSchema ticks ''a1'' twoSchemas)) = Parsed (Array [userSchema ''b2''])
   \<and> default_item (snd (deleteSchema ticks ''a1'' twoSchemas)) = Some ''b2''
   \<and> fst (getSchemas ticks oneSchema) = Array [userSchema ''b2'']
   \<and> filter (\<lambda>s. schema_id s \<noteq> ''b2'') [userSchema ''b2''] = []
   \<and> deleteSchema ticks ''b2'' oneSchema = (Inl (Error ''Cannot delete the last schema''), oneSchema)
   \<and> fst (getSchemas ticks (twoSchemas\<lparr> sc_throws := [False, True] \<rparr>))
       = Array [userSchema ''a1'', userSchema ''b2'']
   \<and> fst (deleteSchema ticks ''a1'' (twoSchemas\<lparr> sc_throws := [False, True] \<rparr>)) = Inl StorageError
   \<and> schemas_item (snd (deleteSchema ticks ''a1'' (twoSchemas\<lparr> sc_throws := [False, True] \<rparr>)))
       = Parsed (Array [userSchema ''b2''])
   \<and> default_item (snd (deleteSchema ticks ''a1'' (twoSchemas\<lparr> sc_throws := [False, True] \<rparr>)))
       = Some ''a1''"
proof -
  have g2: "getSchemas ticks twoSchemas = (Array [userSchema ''a1'', userSchema ''b2''], twoSchemas)"
    by (simp add: getSchemas_def twoSchemas_def)
  have g1: "getSchemas ticks oneSchema = (Array [userSchema ''b2''], oneSchema)"
    by (simp add: getSchemas_def oneSchema_def)
  have g3: "getSchemas ticks (twoSchemas\<lparr> sc_throws := [False, True] \<rparr>)
      = (Array [userSchema ''a1'', userSchema ''b2''], twoSchemas\<lparr> sc_throws := [False, True] \<rparr>)"
    by (simp add: getSchemas_def twoSchemas_def)
  have f2: "filter (\<lambda>s. schema_id s \<noteq> ''a1'') [userSchema ''a1'', userSchema ''b2''] = [userSchema ''b2'']"
    by (simp add: userSchema_def)
  have f1: "filter (\<lambda>s. schema_id s \<noteq> ''b2'') [userSchema ''b2''] = []"
    by (simp add: userSchema_def)
  have i: "schema_id (userSchema ''b2'') = ''b2''"
    by (simp add: userSchema_def)
  have s: "schemas_item oneSchema \<noteq> Absent" "schemas_item oneSchema \<noteq> Parsed (Array [])"
    by (simp_all add: oneSchema_def)
  have p: "default_item twoSchemas = Some ''a1''" "\<not> throwsNext (sc_throws twoSchemas)"
    "\<not> throwsNext (tl (sc_throws twoSchemas))"
    "default_item (twoSchemas\<lparr> sc_throws := [False, True] \<rparr>) = Some ''a1''"
    "\<not> throwsNext (sc_throws (twoSchemas\<lparr> sc_throws := [False, True] \<rparr>))"
    "throwsNext (tl (sc_throws (twoSchemas\<lparr> sc_throws := [False, True] \<rparr>)))"
    by (simp_all add: twoSchemas_def throwsNext_def)
  have a: "fst (getSchemas ticks twoSchemas) = Array [userSchema ''a1'', userSchema ''b2'']"
    using g2 by simp
  have b: "fst (getSchemas ticks oneSchema) = Array [userSchema ''b2'']"
    using g1 by simp
  have c: "fst (getSchemas ticks (twoSchemas\<lparr> sc_throws := [False, True] \<rparr>))
      = Array [userSchema ''a1'', userSchema ''b2'']"
    using g3 by simp
  note ta = deleteSchema_last_or_removed [OF a, of "''a1''"]
  note tb = deleteSchema_last_or_removed [OF b, of "''b2''"]
  note tc = deleteSchema_last_or_removed [OF c, of "''a1''"]
  from ta p have "fst (deleteSchema ticks ''a1'' twoSchemas) = Inr ()
      \<and> schemas_item (snd (deleteSchema ticks ''a1'' twoSchemas)) = Parsed (Array [userSchema ''b2''])
      \<and> default_item (snd (deleteSchema ticks ''a1'' twoSchemas)) = Some ''b2''"
    unfolding Let_def g2 f2 snd_conv by (simp add: i)
  moreover from tb s have "deleteSchema ticks ''b2'' oneSchema
      = (Inl (Error ''Cannot delete the last schema''), oneSchema)"
    unfolding Let_def g1 f1 snd_conv by (simp add: prod_eq_iff)
  moreover from tc p have
    "fst (deleteSchema ticks ''a1'' (twoSchemas\<lparr> sc_throws := [False, True] \<rparr>)) = Inl StorageError
     \<and> schemas_item (snd (deleteSchema ticks ''a1'' (twoSchemas\<lparr> sc_throws := [False, True] \<rparr>)))
         = Parsed (Array [userSchema ''b2''])
     \<and> default_item (snd (deleteSchema ticks ''a1'' (twoSchemas\<lparr> sc_throws := [False, True] \<rparr>)))
         = Some ''a1''"
    unfolding Let_def g3 f2 snd_conv by simp
  ultimately show ?thesis using a b c f1 f2 by blast
qed

section \<open>Properties of the mock data generator\<close>

lemma length_limitAndFormatData_default:
  "length (limitAndFormatData data defaultOptions) = length data"
  by (simp add: limitAndFormatData_def defaultOptions_def)

lemma generator_lengths:
  "length (generateCarrierAnalysisData rnd defaultOptions) = 5"
  "length (generateTimeSeriesData rnd defaultOptions) = 4"
  "length (generateRouteAnalysisData rnd defaultOptions) = 5"
  "length (generatePerformanceMetricsData rnd defaultOptions) = 5"
  "length (generateCostAnalysisData defaultOptions) = 6"
  "length (generateTrendAnalysisData rnd defaultOptions) = 6"
  "length (generateBasicFreightData rnd defaultOptions) = 10"
  by (simp_all add: generateCarrierAnalysisData_def generateTimeSeriesData_def
      generateRouteAnalysisData_def generatePerformanceMetricsData_def
      generateCostAnalysisData_def generateTrendAnalysisData_def generateBasicFreightData_def
      length_limitAndFormatData_default Let_def carriers_def origins_def)

text \<open>
  Claim C2. \<^verbatim>\<open>generateDataFromSQL\<close> lowercases the SQL and returns the data set of the
  first category, in the order carrier-analysis, time-series, route-analysis,
  performance-metrics, cost-analysis, trend-analysis, whose substring test holds; when none
  holds it returns the basic freight data, which has 10 rows. With the default options the
  result is never empty.
\<close>

theorem generateDataFromSQL_first_match:
  "generateDataFromSQL rnd sql options = firstMatching rnd (toLowerCase sql) options
   \<and> map fst categories = [''carrier-analysis'', ''time-series'', ''route-analysis'',
        ''performance-metrics'', ''cost-analysis'', ''trend-analysis'']
   \<and> (find (\<lambda>(name, test, gen). test (toLowerCase sql)) categories = None \<longrightarrow>
        generateDataFromSQL rnd sql options = generateBasicFreightData rnd options)
   \<and> length (generateBasicFreightData rnd defaultOptions) = 10
   \<and> generateDataFromSQL rnd sql defaultOptions \<noteq> []"
proof -
  have sel: "generateDataFromSQL rnd sql opts = firstMatching rnd (toLowerCase sql) opts" for opts
    by (simp add: generateDataFromSQL_def firstMatching_def categories_def Let_def)
  have names: "map fst categories = [''carrier-analysis'', ''time-series'', ''route-analysis'',
        ''performance-metrics'', ''cost-analysis'', ''trend-analysis'']"
    by (simp add: categories_def)
  have "length (generateDataFromSQL rnd sql defaultOptions) \<in> {4, 5, 6, 10}"
    by (simp add: generateDataFromSQL_def Let_def generator_lengths)
  then have ne: "generateDataFromSQL rnd sql defaultOptions \<noteq> []"
    by auto
  show ?thesis
    using sel names ne by (simp add: firstMatching_def generator_lengths)
qed

theorem generateDataFromSQL_first_match_witness:
  "find (\<lambda>(name, test, gen). test (toLowerCase ''SELECT 1'')) categories = None
   \<and> generateDataFromSQL (\<lambda>k. 0) ''SELECT 1'' defaultOptions
       = generateBasicFreightData (\<lambda>k. 0) defaultOptions
   \<and> length (generateDataFromSQL (\<lambda>k. 0) ''SELECT 1'' defaultOptions) = 10"
proof -
  have n: "find (\<lambda>(name, test, gen). test (toLowerCase ''SELECT 1'')) categories = None"
    by (simp add: categories_def toLowerCase_def toLowerChar_def upperLetters_def
        lowerLetters_def upperLatin_def lowerLatin_def isCarrierAnalysisQuery_def isTimeSeriesQuery_def
        isRouteAnalysisQuery_def isPerformanceMetricsQuery_def isCostAnalysisQuery_def
        isTrendAnalysisQuery_def)
  note t = generateDataFromSQL_first_match [of "\<lambda>k. 0" "''SELECT 1''" defaultOptions]
  have a: "generateDataFromSQL (\<lambda>k. 0) ''SELECT 1'' defaultOptions
       = generateBasicFreightData (\<lambda>k. 0) defaultOptions"
    using t n by blast
  have b: "length (generateBasicFreightData (\<lambda>k. 0) defaultOptions) = 10"
    using t by blast
  show ?thesis
    using n b by (simp add: a)
qed

section \<open>Properties of the CSV export\<close>





text \<open>A carriage return alone does not make \<^verbatim>\<open>escapeCSV\<close> quote the field.\<close>

lemma escapeCSV_bare_cr:
  "escapeCSV id (Val [CHR ''a'', cr, CHR ''b'']) = [CHR ''a'', cr, CHR ''b'']
   \<and> readField (escapeCSV id (Val [CHR ''a'', cr, CHR ''b''])) = None"
  by (simp add: escapeCSV_def String_def readField_def)



section \<open>Properties of the post-processing\<close>

subsection \<open>Fence markers\<close>

lemma includesStr_sublist: "includesStr s n = sublist n s"
  by (induction s) (auto simp: sublist_Cons_right)

lemma fence_free_sublist:
  "\<not> includesStr s ''```'' \<Longrightarrow> sublist t s \<Longrightarrow> \<not> includesStr t ''```''"
  unfolding includesStr_sublist using sublist_order.order_trans by blast

lemma fence_prefix_free:
  "backtick \<notin> set a \<Longrightarrow> includesStr (a @ r) ''```'' = includesStr r ''```''"
  by (induction a) auto

lemma fence_suffix_free:
  "backtick \<notin> set b \<Longrightarrow> includesStr (a @ b) ''```'' = includesStr a ''```''"
proof -
  assume b: "backtick \<notin> set b"
  have "includesStr (a @ b) ''```'' = sublist (rev ''```'') (rev b @ rev a)"
    unfolding includesStr_sublist by (metis rev_append sublist_rev)
  also have "\<dots> = includesStr (rev b @ rev a) ''```''"
    by (simp add: includesStr_sublist)
  also have "\<dots> = includesStr (rev a) ''```''"
    using b by (simp add: fence_prefix_free)
  also have "\<dots> = sublist (rev ''```'') (rev a)"
    by (simp add: includesStr_sublist)
  also have "\<dots> = includesStr a ''```''"
    unfolding includesStr_sublist by (metis sublist_rev)
  finally show ?thesis .
qed

lemma fence_free_Cons:
  "\<not> includesStr (c # s) ''```'' \<longleftrightarrow>
     \<not> (c = backtick \<and> prefix [backtick, backtick] s) \<and> \<not> includesStr s ''```''"
  by auto

lemma replaceKeyword_ticks:
  "prefix (replicate k backtick) (replaceKeyword kw prev s) \<Longrightarrow> prefix (replicate k backtick) s"
proof (induction kw prev s arbitrary: k rule: replaceKeyword.induct)
  case (1 kw prev)
  then show ?case by simp
next
  case (2 kw prev c cs)
  show ?case
  proof (cases "kw \<noteq> [] \<and> matchKeywordAt kw prev (c # cs)")
    case True
    with "2.prems" show ?thesis by (cases k) auto
  next
    case False
    with "2.prems" "2.IH"(2) show ?thesis by (cases k) auto
  qed
qed

lemma replaceKeyword_fence_free:
  "backtick \<notin> set kw \<Longrightarrow> \<not> includesStr s ''```'' \<Longrightarrow>
     \<not> includesStr (replaceKeyword kw prev s) ''```''"
proof (induction kw prev s rule: replaceKeyword.induct)
  case (1 kw prev)
  then show ?case by simp
next
  case (2 kw prev c cs)
  show ?case
  proof (cases "kw \<noteq> [] \<and> matchKeywordAt kw prev (c # cs)")
    case True
    have "sublist (drop (length kw) (c # cs)) (c # cs)" by (rule sublist_drop)
    with "2.prems"(2) have "\<not> includesStr (drop (length kw) (c # cs)) ''```''"
      by (rule fence_free_sublist)
    with True "2.IH"(1) "2.prems"(1)
    have r: "\<not> includesStr (replaceKeyword kw (lastOpt (take (length kw) (c # cs)))
                       (drop (length kw) (c # cs))) ''```''"
      by blast
    have "backtick \<notin> set (nl # kw)" using "2.prems"(1) by simp
    from fence_prefix_free [OF this] r True show ?thesis
      by simp
  next
    case False
    from "2.prems"(2) have t: "\<not> (c = backtick \<and> prefix [backtick, backtick] cs)"
      and f: "\<not> includesStr cs ''```''"
      by auto
    from False "2.IH"(2) "2.prems"(1) f
    have r: "\<not> includesStr (replaceKeyword kw (Some c) cs) ''```''" by blast
    have "\<not> prefix [backtick, backtick] (replaceKeyword kw (Some c) cs)" if "c = backtick"
      using replaceKeyword_ticks [of 2 kw "Some c" cs] t that
      by (auto simp: numeral_2_eq_2)
    with r False show ?thesis
      by (simp only: replaceKeyword.simps if_False fence_free_Cons) blast
  qed
qed

lemma isSpace_backtick: "\<not> isSpace backtick"
  by (simp add: isSpace_def)

lemma collapse_rest_fence_free:
  assumes "\<not> includesStr cs ''```''"
  shows "\<not> includesStr (rev (takeWhile (\<lambda>x. x \<noteq> nl) (rev (takeWhile isSpace cs)))
                          @ dropWhile isSpace cs) ''```''"
proof -
  have "sublist (dropWhile isSpace cs) cs" by (rule sublist_dropWhile)
  with assms have d: "\<not> includesStr (dropWhile isSpace cs) ''```''"
    by (rule fence_free_sublist)
  have "backtick \<notin> set (rev (takeWhile (\<lambda>x. x \<noteq> nl) (rev (takeWhile isSpace cs))))"
    using isSpace_backtick by (auto dest!: set_takeWhileD)
  from fence_prefix_free [OF this] d show ?thesis by simp
qed

lemma collapseBlankLines_ticks:
  "prefix (replicate k backtick) (collapseBlankLines s) \<Longrightarrow> prefix (replicate k backtick) s"
proof (induction s arbitrary: k rule: collapseBlankLines.induct)
  case 1
  then show ?case by simp
next
  case (2 c cs)
  show ?case
  proof (cases "c = nl \<and> nl \<in> set (takeWhile isSpace cs)")
    case True
    with "2.prems" show ?thesis by (cases k) auto
  next
    case False
    with "2.prems" "2.IH"(2) show ?thesis by (cases k) auto
  qed
qed

lemma collapseBlankLines_fence_free:
  "\<not> includesStr s ''```'' \<Longrightarrow> \<not> includesStr (collapseBlankLines s) ''```''"
proof (induction s rule: collapseBlankLines.induct)
  case 1
  then show ?case by simp
next
  case (2 c cs)
  from "2.prems" have t: "\<not> (c = backtick \<and> prefix [backtick, backtick] cs)"
    and f: "\<not> includesStr cs ''```''"
    by auto
  show ?case
  proof (cases "c = nl \<and> nl \<in> set (takeWhile isSpace cs)")
    case True
    from True "2.IH"(1) collapse_rest_fence_free [OF f]
    have r: "\<not> includesStr (collapseBlankLines
        (rev (takeWhile (\<lambda>x. x \<noteq> nl) (rev (takeWhile isSpace cs))) @ dropWhile isSpace cs)) ''```''"
      by blast
    from fence_prefix_free [of "[nl]"] r True show ?thesis by simp
  next
    case False
    from False "2.IH"(2) f
    have r: "\<not> includesStr (collapseBlankLines cs) ''```''" by blast
    have "\<not> prefix [backtick, backtick] (collapseBlankLines cs)" if "c = backtick"
      using collapseBlankLines_ticks [of 2 cs] t that
      by (auto simp: numeral_2_eq_2)
    with r False show ?thesis
      by (simp only: collapseBlankLines.simps if_False fence_free_Cons) blast
  qed
qed

lemma trim_sublist: "sublist (trim s) s"
proof -
  have "sublist (trimEnd (trimStart s)) (trimStart s)"
    unfolding trimEnd_def by (metis sublist_dropWhile sublist_rev_left)
  moreover have "sublist (trimStart s) s"
    unfolding trimStart_def by (rule sublist_dropWhile)
  ultimately show ?thesis
    unfolding trim_def by (rule sublist_order.order_trans)
qed

lemma trim_fence_free: "\<not> includesStr s ''```'' \<Longrightarrow> \<not> includesStr (trim s) ''```''"
  using fence_free_sublist trim_sublist by blast

lemma keywordsList_no_backtick: "\<forall>kw \<in> set keywordsList. backtick \<notin> set kw"
  by (simp add: keywordsList_def)

lemma foldl_replaceKeyword_fence_free:
  "\<forall>kw \<in> set kws. backtick \<notin> set kw \<Longrightarrow> \<not> includesStr s ''```'' \<Longrightarrow>
     \<not> includesStr (foldl (\<lambda>formatted keyword. replaceKeyword keyword None formatted) s kws) ''```''"
  by (induction kws arbitrary: s) (simp_all add: replaceKeyword_fence_free)

lemma formatSQL_fence_free: "\<not> includesStr s ''```'' \<Longrightarrow> \<not> includesStr (formatSQL s) ''```''"
  unfolding formatSQL_def Let_def
  by (intro trim_fence_free collapseBlankLines_fence_free foldl_replaceKeyword_fence_free
      keywordsList_no_backtick)

lemma numToString_digits: "set (numToString n) \<subseteq> set ''0123456789''"
proof (induction n rule: numToString.induct)
  case (1 n)
  have d: "''0123456789'' ! k \<in> set ''0123456789''" if "k < 10" for k
    using that nth_mem [of k "''0123456789''"] by simp
  show ?case
  proof (cases "n < 10")
    case True
    then show ?thesis using d [of n] by (subst numToString.simps) simp
  next
    case False
    then show ?thesis
      using "1.IH" d [of "n mod 10"] by (subst numToString.simps) simp
  qed
qed

lemma addLimit_fence_free:
  "\<not> includesStr s ''```'' \<Longrightarrow> \<not> includesStr (addLimit s options) ''```''"
proof -
  assume f: "\<not> includesStr s ''```''"
  have "backtick \<notin> set ([nl] @ ''LIMIT '' @ numToString n)" for n
    using numToString_digits [of n] by auto
  from fence_suffix_free [OF this] f show ?thesis
    by (auto simp: addLimit_def split: option.splits)
qed

lemma toLowerChar_backtick: "toLowerChar backtick = toLowerChar c \<longleftrightarrow> c = backtick"
  by (auto simp: toLowerChar_def upperLetters_def lowerLetters_def upperLatin_def lowerLatin_def)

lemma matchesCI_Cons:
  "matchesCI (p # ps) t \<longleftrightarrow> (\<exists>c cs. t = c # cs \<and> toLowerChar p = toLowerChar c \<and> matchesCI ps cs)"
  by (cases t) auto

lemma matchesCI_fence: "matchesCI ''```sql'' t \<Longrightarrow> prefix ''```'' t"
  by (auto simp: matchesCI_Cons toLowerChar_backtick)

lemma prefix_fence_before_fence:
  assumes "prefix ''```'' (x @ ''```'')" "x \<noteq> []" "last x \<noteq> backtick"
  shows "prefix ''```'' x"
proof (cases x)
  case Nil
  with assms show ?thesis by simp
next
  case (Cons a y)
  note x = Cons
  show ?thesis
  proof (cases y)
    case Nil
    with x assms show ?thesis by auto
  next
    case (Cons b z)
    with x assms show ?thesis by (cases z) auto
  qed
qed

lemma stripFenceOpen_before_fence:
  "\<not> includesStr r ''```'' \<Longrightarrow> r = [] \<or> last r \<noteq> backtick \<Longrightarrow>
     stripFenceOpen (r @ ''```'') = r @ ''```''"
proof (induction r)
  case Nil
  show ?case by (simp add: toLowerChar_backtick)
next
  case (Cons c cs)
  have "\<not> prefix ''```'' (c # cs)"
    using Cons.prems(1) by auto
  moreover have "last (c # cs) \<noteq> backtick"
    using Cons.prems(2) by simp
  ultimately have "\<not> prefix ''```'' ((c # cs) @ ''```'')"
    using prefix_fence_before_fence [of "c # cs"] by blast
  then have n: "\<not> matchesCI ''```sql'' (c # cs @ ''```'')"
    using matchesCI_fence [of "c # cs @ ''```''"] by auto
  have "\<not> includesStr cs ''```''" using Cons.prems(1) by auto
  moreover have "cs = [] \<or> last cs \<noteq> backtick" using Cons.prems(2) by auto
  ultimately have "stripFenceOpen (cs @ ''```'') = cs @ ''```''" by (rule Cons.IH)
  moreover have "stripFenceOpen (c # cs @ ''```'') = c # stripFenceOpen (cs @ ''```'')"
    by (simp only: stripFenceOpen.simps n if_False)
  ultimately show ?case by simp
qed

lemma stripFenceOpen_fence_free: "\<not> includesStr s ''```'' \<Longrightarrow> stripFenceOpen s = s"
proof (induction s)
  case Nil
  show ?case by simp
next
  case (Cons c cs)
  then have "\<not> prefix ''```'' (c # cs)" and "stripFenceOpen cs = cs" by auto
  then show ?case using matchesCI_fence [of "c # cs"] by auto
qed

lemma stripFenceClose_fence_free: "\<not> includesStr s ''```'' \<Longrightarrow> stripFenceClose s = s"
  by (induction s) auto

lemma stripFenceClose_before_fence: "stripFenceClose (r @ ''```'') = r"
proof (induction r)
  case Nil
  show ?case by simp
next
  case (Cons c cs)
  have len: "3 < length (c # cs @ ''```'')" by simp
  have "last (drop 3 (c # cs @ ''```'')) = last (c # cs @ ''```'')"
    using len by (rule last_drop)
  then have "last (drop 3 (c # cs @ ''```'')) = backtick" by simp
  moreover have "drop 3 (c # cs @ ''```'') \<noteq> []"
    using len by (metis drop_eq_Nil leD)
  ultimately have "backtick \<in> set (drop 3 (c # cs @ ''```''))"
    by (metis last_in_set)
  then have "\<not> list_all isSpace (drop 3 (c # cs @ ''```''))"
    using isSpace_backtick by (auto simp: list_all_iff)
  with Cons show ?case by simp
qed

lemma isSpace_nl: "isSpace nl"
  by (simp add: isSpace_def)

lemma last_dropWhile: "dropWhile P xs \<noteq> [] \<Longrightarrow> last (dropWhile P xs) = last xs"
  by (metis last_appendR takeWhile_dropWhile_id)

lemma trim_dropWhile_newline: "trim (dropWhile isSpace (q @ [nl])) = trim q"
proof (cases "\<forall>x \<in> set q. isSpace x")
  case True
  have a: "dropWhile isSpace (q @ [nl]) = []"
    using True isSpace_nl by simp
  have b: "dropWhile isSpace q = []"
    using True by simp
  show ?thesis
    unfolding trim_def trimStart_def a b by simp
next
  case False
  then have d: "dropWhile isSpace (q @ [nl]) = dropWhile isSpace q @ [nl]"
    by (auto simp: dropWhile_append)
  from False have "dropWhile isSpace q \<noteq> []" by simp
  then obtain y ys where y: "dropWhile isSpace q = y # ys" "\<not> isSpace y"
    using hd_dropWhile [of isSpace q] by (cases "dropWhile isSpace q") auto
  then have a: "dropWhile isSpace (dropWhile isSpace q @ [nl]) = dropWhile isSpace q @ [nl]"
    by simp
  have b: "trimEnd (x @ [nl]) = trimEnd x" for x
    by (simp add: trimEnd_def isSpace_nl)
  have c: "dropWhile isSpace (dropWhile isSpace q) = dropWhile isSpace q"
    using y by simp
  show ?thesis
    by (simp only: trim_def trimStart_def d a b c)
qed

lemma cleanSQL_fenced:
  assumes "\<not> includesStr query ''```''"
  shows "cleanSQL (''```sql'' @ [nl] @ query @ [nl] @ ''```'') = trim query"
proof -
  let ?r = "dropWhile isSpace (query @ [nl])"
  have q: "\<not> includesStr (query @ [nl]) ''```''"
    using assms fence_suffix_free [of "[nl]" query] by simp
  have f: "\<not> includesStr ?r ''```''"
    using q sublist_dropWhile by (rule fence_free_sublist)
  have l: "?r = [] \<or> last ?r \<noteq> backtick"
  proof (cases "?r = []")
    case True
    then show ?thesis by blast
  next
    case False
    then have "last ?r = last (query @ [nl])" by (rule last_dropWhile)
    also have "\<dots> = nl" by simp
    finally show ?thesis by simp
  qed
  have "dropWhile isSpace ((query @ [nl]) @ backtick # [backtick, backtick])
      = ?r @ backtick # [backtick, backtick]"
    using isSpace_backtick by (rule dropWhile_append3)
  then have "stripFenceOpen (''```sql'' @ [nl] @ query @ [nl] @ ''```'')
      = stripFenceOpen (?r @ ''```'')"
    by (simp add: isSpace_def)
  also have "\<dots> = ?r @ ''```''"
    using f l by (rule stripFenceOpen_before_fence)
  finally show ?thesis
    by (simp only: cleanSQL_def stripFenceClose_before_fence trim_dropWhile_newline)
qed

lemma cleanSQL_fence_free: "\<not> includesStr s ''```'' \<Longrightarrow> cleanSQL s = trim s"
  by (simp add: cleanSQL_def stripFenceOpen_fence_free stripFenceClose_fence_free)

text \<open>
  Claim C7, amended. For a reply of the form \<^verbatim>\<open>```sql\<close>, line feed, query, line feed,
  \<^verbatim>\<open>```\<close>, whose query does not itself contain the fence marker,
  \<^verbatim>\<open>postProcessSQL\<close> strips the fences: the result is that of the bare query, and it
  contains no fence marker.
\<close>

theorem postProcessSQL_strips_fences:
  assumes "\<not> includesStr query ''```''"
  shows "postProcessSQL (''```sql'' @ [nl] @ query @ [nl] @ ''```'') options
           = postProcessSQL query options
         \<and> \<not> includesStr (postProcessSQL (''```sql'' @ [nl] @ query @ [nl] @ ''```'') options) ''```''"
proof -
  have c: "cleanSQL (''```sql'' @ [nl] @ query @ [nl] @ ''```'') = cleanSQL query"
    using cleanSQL_fenced [OF assms] cleanSQL_fence_free [OF assms] by simp
  have "\<not> includesStr (trim query) ''```''"
    using assms by (rule trim_fence_free)
  then have ff: "\<not> includesStr (formatSQL (addLimit (trim query) options)) ''```''"
    by (intro formatSQL_fence_free addLimit_fence_free)
  have p1: "postProcessSQL (''```sql'' @ [nl] @ query @ [nl] @ ''```'') options
      = postProcessSQL query options"
    by (simp only: postProcessSQL_def c)
  have p2: "postProcessSQL query options = formatSQL (addLimit (trim query) options)"
    by (simp only: postProcessSQL_def cleanSQL_fence_free [OF assms])
  show ?thesis
    unfolding p1 p2 using ff by simp
qed

text \<open>
  Claim C7, as stated, fails for a query that contains a fence marker, as in a reply with
  two fenced blocks: only the opening fences and the last closing fence are removed, and
  the closing fence of the first block stays in the result.
\<close>

theorem postProcessSQL_fence_left:
  "postProcessSQL (''```sql'' @ [nl] @ (''SELECT 1'' @ [nl] @ ''```'' @ [nl] @ ''```sql'' @ [nl] @ ''SELECT 2'') @ [nl] @ ''```'') noOptions
     = ''SELECT 1'' @ [nl] @ ''```'' @ [nl] @ ''SELECT 2''
   \<and> includesStr (postProcessSQL (''```sql'' @ [nl] @ (''SELECT 1'' @ [nl] @ ''```'' @ [nl] @ ''```sql'' @ [nl] @ ''SELECT 2'') @ [nl] @ ''```'') noOptions) ''```''"
  by code_simp

theorem postProcessSQL_strips_fences_witness:
  "\<not> includesStr ''SELECT 1'' ''```''
   \<and> \<not> includesStr (postProcessSQL (''```sql'' @ [nl] @ ''SELECT 1'' @ [nl] @ ''```'') noOptions) ''```''"
proof -
  have h: "\<not> includesStr ''SELECT 1'' ''```''" by simp
  from postProcessSQL_strips_fences [OF h, of noOptions] h show ?thesis by blast
qed

subsection \<open>The appended LIMIT\<close>

lemma toLowerChar_nl: "toLowerChar p = toLowerChar nl \<longleftrightarrow> p = nl"
  by (auto simp: toLowerChar_def upperLetters_def lowerLetters_def upperLatin_def lowerLatin_def)

lemma isWordChar_nl: "\<not> isWordChar nl"
  by (simp add: isWordChar_def upperLetters_def lowerLetters_def upperLatin_def lowerLatin_def)

lemma matchesCI_length: "matchesCI kw s \<Longrightarrow> length kw \<le> length s"
  by (induction kw s rule: matchesCI.induct) auto

lemma matchesCI_before_nl:
  "nl \<notin> set kw \<Longrightarrow> matchesCI kw (a @ nl # t) = matchesCI kw a"
  by (induction kw a rule: matchesCI.induct) (auto simp: toLowerChar_nl)

lemma wordBoundary_before_nl:
  "wordBoundary x (headOpt (b @ nl # t)) = wordBoundary x (headOpt b)"
  by (cases b) (auto simp: headOpt_def wordBoundary_def isWordChar_nl)

lemma matchKeywordAt_before_nl:
  assumes "nl \<notin> set kw" "a \<noteq> []"
  shows "matchKeywordAt kw prev (a @ nl # t) = matchKeywordAt kw prev a"
proof (cases "matchesCI kw a")
  case True
  then have l: "length kw \<le> length a" by (rule matchesCI_length)
  have h: "headOpt (a @ nl # t) = headOpt a"
    using assms(2) by (cases a) (auto simp: headOpt_def)
  show ?thesis
    using l by (simp add: matchKeywordAt_def matchesCI_before_nl [OF assms(1)] h
        wordBoundary_before_nl)
next
  case False
  then show ?thesis
    by (simp add: matchKeywordAt_def matchesCI_before_nl [OF assms(1)])
qed

lemma no_match_at_nl:
  "nl \<notin> set kw \<Longrightarrow> kw \<noteq> [] \<Longrightarrow> \<not> matchKeywordAt kw prev (nl # t)"
  by (cases kw) (auto simp: matchKeywordAt_def toLowerChar_nl)

lemma replaceKeyword_at_nl:
  "nl \<notin> set kw \<Longrightarrow> replaceKeyword kw prev (nl # t) = nl # replaceKeyword kw (Some nl) t"
proof (cases "kw = []")
  case True
  then show ?thesis by simp
next
  case False
  assume "nl \<notin> set kw"
  then have "\<not> matchKeywordAt kw prev (nl # t)"
    using False by (rule no_match_at_nl)
  then show ?thesis by simp
qed

lemma drop_append_le: "n \<le> length xs \<Longrightarrow> drop n (xs @ ys) = drop n xs @ ys"
  by simp

lemma take_append_le: "n \<le> length xs \<Longrightarrow> take n (xs @ ys) = take n xs"
  by simp

lemma replaceKeyword_split_nl:
  "nl \<notin> set kw \<Longrightarrow>
   replaceKeyword kw prev (a @ nl # t) = replaceKeyword kw prev a @ nl # replaceKeyword kw (Some nl) t"
proof (induction kw prev a rule: replaceKeyword.induct)
  case (1 kw prev)
  show ?case
    by (simp only: append_Nil replaceKeyword.simps(1) replaceKeyword_at_nl [OF "1.prems"])
next
  case (2 kw prev c cs)
  have m: "matchKeywordAt kw prev ((c # cs) @ nl # t) = matchKeywordAt kw prev (c # cs)"
    using "2.prems" by (intro matchKeywordAt_before_nl) simp_all
  show ?case
  proof (cases "kw \<noteq> [] \<and> matchKeywordAt kw prev (c # cs)")
    case True
    then have "matchesCI kw (c # cs)" by (simp add: matchKeywordAt_def)
    then have l: "length kw \<le> length (c # cs)" by (rule matchesCI_length)
    have d: "drop (length kw) ((c # cs) @ nl # t) = drop (length kw) (c # cs) @ nl # t"
      using l by (rule drop_append_le)
    have k: "take (length kw) ((c # cs) @ nl # t) = take (length kw) (c # cs)"
      using l by (rule take_append_le)
    have "replaceKeyword kw prev ((c # cs) @ nl # t)
        = nl # kw @ replaceKeyword kw (lastOpt (take (length kw) ((c # cs) @ nl # t)))
                      (drop (length kw) ((c # cs) @ nl # t))"
      using True m by (simp only: append_Cons replaceKeyword.simps) simp
    also have "\<dots> = nl # kw @ replaceKeyword kw (lastOpt (take (length kw) (c # cs)))
                      (drop (length kw) (c # cs) @ nl # t)"
      by (simp only: d k)
    also have "\<dots> = nl # kw @ (replaceKeyword kw (lastOpt (take (length kw) (c # cs)))
                      (drop (length kw) (c # cs)) @ nl # replaceKeyword kw (Some nl) t)"
      using True "2.IH"(1) "2.prems" by simp
    also have "\<dots> = replaceKeyword kw prev (c # cs) @ nl # replaceKeyword kw (Some nl) t"
      using True by simp
    finally show ?thesis .
  next
    case False
    have "replaceKeyword kw prev ((c # cs) @ nl # t)
        = c # replaceKeyword kw (Some c) (cs @ nl # t)"
      using False m by (simp only: append_Cons replaceKeyword.simps) auto
    also have "\<dots> = c # (replaceKeyword kw (Some c) cs @ nl # replaceKeyword kw (Some nl) t)"
      using False "2.IH"(2) "2.prems" by simp
    also have "\<dots> = replaceKeyword kw prev (c # cs) @ nl # replaceKeyword kw (Some nl) t"
      using False by auto
    finally show ?thesis .
  qed
qed

lemma toLowerChar_digit: "d \<in> set ''0123456789'' \<Longrightarrow> toLowerChar d = d"
  by (simp; elim disjE; simp add: toLowerChar_def upperLetters_def lowerLetters_def upperLatin_def lowerLatin_def)

lemma toLowerChar_upper: "p \<in> set upperLetters \<Longrightarrow> toLowerChar p \<in> set lowerLetters"
  by (simp add: upperLetters_def; elim disjE;
      simp add: toLowerChar_def upperLetters_def lowerLetters_def upperLatin_def lowerLatin_def)

lemma replaceKeyword_skip:
  "\<not> matchKeywordAt kw prev (c # cs) \<Longrightarrow>
     replaceKeyword kw prev (c # cs) = c # replaceKeyword kw (Some c) cs"
  by simp

lemma keywordsList_upper: "\<forall>kw \<in> set keywordsList. kw \<noteq> [] \<and> hd kw \<in> set upperLetters"
  by code_simp

lemma no_match_first_char:
  assumes "hd kw \<in> set upperLetters" "kw \<noteq> []" "toLowerChar c \<notin> set lowerLetters"
  shows "\<not> matchKeywordAt kw prev (c # cs)"
proof -
  obtain p ps where kw: "kw = p # ps" using assms(2) by (cases kw) auto
  then have "toLowerChar p \<in> set lowerLetters"
    using assms(1) by (auto intro: toLowerChar_upper)
  with assms(3) have "toLowerChar p \<noteq> toLowerChar c" by auto
  with kw show ?thesis by (simp add: matchKeywordAt_def)
qed

lemma digit_not_lower: "d \<in> set ''0123456789'' \<Longrightarrow> toLowerChar d \<notin> set lowerLetters"
  by (simp; elim disjE; simp add: toLowerChar_def upperLetters_def lowerLetters_def upperLatin_def lowerLatin_def)

lemma replaceKeyword_digits:
  assumes "hd kw \<in> set upperLetters" "kw \<noteq> []"
  shows "set ds \<subseteq> set ''0123456789'' \<Longrightarrow> replaceKeyword kw prev ds = ds"
proof (induction ds arbitrary: prev)
  case Nil
  show ?case by simp
next
  case (Cons d ds)
  from Cons.prems have "d \<in> set ''0123456789''"
    by (simp only: set_simps insert_subset)
  then have "toLowerChar d \<notin> set lowerLetters" by (rule digit_not_lower)
  with assms have "\<not> matchKeywordAt kw prev (d # ds)" by (rule no_match_first_char)
  then have "replaceKeyword kw prev (d # ds) = d # replaceKeyword kw (Some d) ds"
    by (rule replaceKeyword_skip)
  moreover from Cons.prems have "set ds \<subseteq> set ''0123456789''"
    by (simp only: set_simps insert_subset)
  then have "replaceKeyword kw (Some d) ds = ds"
    by (rule Cons.IH)
  ultimately show ?case by (simp only:)
qed

lemma no_match_inside_word:
  "isWordChar p \<Longrightarrow> isWordChar c \<Longrightarrow> \<not> matchKeywordAt kw (Some p) (c # cs)"
  by (simp add: matchKeywordAt_def wordBoundary_def headOpt_def)

lemma matchesCI_take: "matchesCI kw (a @ b) \<Longrightarrow> matchesCI (take (length a) kw) a"
  by (induction kw a rule: matchesCI.induct) auto

lemma keywordsList_not_limit:
  "\<forall>kw \<in> set keywordsList. kw \<noteq> ''LIMIT'' \<longrightarrow> \<not> matchesCI (take (length ''LIMIT '') kw) ''LIMIT ''"
  by code_simp

lemma word_chars: "isWordChar CHR ''L''" "isWordChar CHR ''I''" "isWordChar CHR ''M''"
  "isWordChar CHR ''T''" "\<not> isWordChar CHR '' ''"
  by (simp_all add: isWordChar_def upperLetters_def lowerLetters_def upperLatin_def lowerLatin_def)

lemma toLowerChar_space: "toLowerChar CHR '' '' \<notin> set lowerLetters"
  by (simp add: toLowerChar_def upperLetters_def lowerLetters_def upperLatin_def lowerLatin_def)

lemma replaceKeyword_inside_word:
  "isWordChar p \<Longrightarrow> isWordChar c \<Longrightarrow>
     replaceKeyword kw (Some p) (c # cs) = c # replaceKeyword kw (Some c) cs"
  by (rule replaceKeyword_skip) (rule no_match_inside_word)

lemma limit_tail:
  assumes ds: "set ds \<subseteq> set ''0123456789''" and kw: "kw \<in> set keywordsList"
  shows "replaceKeyword kw (Some nl) (''LIMIT '' @ ds)
           = (if kw = ''LIMIT'' then nl # ''LIMIT '' @ ds else ''LIMIT '' @ ds)"
proof -
  have u: "hd kw \<in> set upperLetters" and ne: "kw \<noteq> []"
    using kw keywordsList_upper by auto
  have r: "replaceKeyword kw p ds = ds" for p
    using u ne ds by (rule replaceKeyword_digits)
  have sp: "replaceKeyword kw p (CHR '' '' # ds) = CHR '' '' # ds" for p
  proof -
    have "\<not> matchKeywordAt kw p (CHR '' '' # ds)"
      by (rule no_match_first_char [OF u ne toLowerChar_space])
    then have "replaceKeyword kw p (CHR '' '' # ds)
        = CHR '' '' # replaceKeyword kw (Some CHR '' '') ds"
      by (rule replaceKeyword_skip)
    then show ?thesis by (simp only: r)
  qed
  have i4: "replaceKeyword kw (Some CHR ''I'') (CHR ''T'' # CHR '' '' # ds) = CHR ''T'' # CHR '' '' # ds"
    by (simp only: replaceKeyword_inside_word [OF word_chars(2) word_chars(4)] sp)
  have i3: "replaceKeyword kw (Some CHR ''M'') (CHR ''I'' # CHR ''T'' # CHR '' '' # ds)
      = CHR ''I'' # CHR ''T'' # CHR '' '' # ds"
    by (simp only: replaceKeyword_inside_word [OF word_chars(3) word_chars(2)] i4)
  have i2: "replaceKeyword kw (Some CHR ''I'') (CHR ''M'' # CHR ''I'' # CHR ''T'' # CHR '' '' # ds)
      = CHR ''M'' # CHR ''I'' # CHR ''T'' # CHR '' '' # ds"
    by (simp only: replaceKeyword_inside_word [OF word_chars(2) word_chars(3)] i3)
  have inner: "replaceKeyword kw (Some CHR ''L'') (CHR ''I'' # CHR ''M'' # CHR ''I'' # CHR ''T'' # CHR '' '' # ds)
      = CHR ''I'' # CHR ''M'' # CHR ''I'' # CHR ''T'' # CHR '' '' # ds"
    by (simp only: replaceKeyword_inside_word [OF word_chars(1) word_chars(2)] i2)
  show ?thesis
  proof (cases "kw = ''LIMIT''")
    case True
    have m: "matchKeywordAt ''LIMIT'' (Some nl) (''LIMIT '' @ ds)"
      by (simp add: matchKeywordAt_def wordBoundary_def headOpt_def lastOpt_def word_chars
          isWordChar_nl)
    have "replaceKeyword ''LIMIT'' (Some nl) (CHR ''L'' # ''IMIT '' @ ds)
        = nl # ''LIMIT'' @ replaceKeyword ''LIMIT'' (lastOpt (take (length ''LIMIT'') (CHR ''L'' # ''IMIT '' @ ds)))
             (drop (length ''LIMIT'') (CHR ''L'' # ''IMIT '' @ ds))"
      using m by (subst replaceKeyword.simps(2)) simp
    then have "replaceKeyword ''LIMIT'' (Some nl) (''LIMIT '' @ ds)
        = nl # ''LIMIT'' @ replaceKeyword ''LIMIT'' (Some CHR ''T'') (CHR '' '' # ds)"
      by (simp add: lastOpt_def del: replaceKeyword.simps)
    with True sp [of "Some CHR ''T''"] show ?thesis
      by (simp del: replaceKeyword.simps)
  next
    case False
    with kw keywordsList_not_limit
    have "\<not> matchesCI (take (length ''LIMIT '') kw) ''LIMIT ''" by blast
    then have "\<not> matchesCI kw (''LIMIT '' @ ds)"
      using matchesCI_take [of kw "''LIMIT ''" ds] by blast
    then have "\<not> matchKeywordAt kw (Some nl) (CHR ''L'' # ''IMIT '' @ ds)"
      by (simp add: matchKeywordAt_def)
    then have "replaceKeyword kw (Some nl) (CHR ''L'' # ''IMIT '' @ ds)
        = CHR ''L'' # replaceKeyword kw (Some CHR ''L'') (''IMIT '' @ ds)"
      by (rule replaceKeyword_skip)
    with False inner show ?thesis by (simp del: replaceKeyword.simps)
  qed
qed

lemma keywordsList_no_nl: "\<forall>kw \<in> set keywordsList. nl \<notin> set kw"
  by code_simp

lemma foldl_limit_tail:
  assumes ds: "set ds \<subseteq> set ''0123456789''"
  shows "set kws \<subseteq> set keywordsList \<Longrightarrow>
    \<exists>b. foldl (\<lambda>formatted keyword. replaceKeyword keyword None formatted)
           (a @ nl # ''LIMIT '' @ ds) kws = b @ nl # ''LIMIT '' @ ds"
proof (induction kws arbitrary: a)
  case Nil
  show ?case by simp
next
  case (Cons kw kws)
  then have kw: "kw \<in> set keywordsList" and kws: "set kws \<subseteq> set keywordsList" by auto
  have n: "nl \<notin> set kw" using kw keywordsList_no_nl by blast
  have "replaceKeyword kw None (a @ nl # ''LIMIT '' @ ds)
      = replaceKeyword kw None a @ nl # replaceKeyword kw (Some nl) (''LIMIT '' @ ds)"
    using n by (rule replaceKeyword_split_nl)
  also have "\<dots> = (if kw = ''LIMIT'' then replaceKeyword kw None a @ [nl] else replaceKeyword kw None a)
      @ nl # ''LIMIT '' @ ds"
    by (simp only: limit_tail [OF ds kw]) simp
  finally obtain a' where "replaceKeyword kw None (a @ nl # ''LIMIT '' @ ds) = a' @ nl # ''LIMIT '' @ ds"
    by blast
  then show ?case
    using Cons.IH [OF kws, of a'] by (simp del: replaceKeyword.simps)
qed

lemma takeWhile_before_word:
  "t \<noteq> [] \<Longrightarrow> \<not> P (hd t) \<Longrightarrow> takeWhile P (cs @ t) = takeWhile P cs"
  by (induction cs) (auto simp: takeWhile_eq_Nil_iff)

lemma dropWhile_before_word:
  "t \<noteq> [] \<Longrightarrow> \<not> P (hd t) \<Longrightarrow> dropWhile P (cs @ t) = dropWhile P cs @ t"
  by (cases t) (auto simp: dropWhile_append3)

lemma collapseBlankLines_no_nl: "nl \<notin> set t \<Longrightarrow> collapseBlankLines t = t"
  by (induction t) auto

lemma collapseBlankLines_before_word:
  assumes "t \<noteq> []" "\<not> isSpace (hd t)" "nl \<notin> set t"
  shows "collapseBlankLines (x @ t) = collapseBlankLines x @ t"
proof (induction x rule: collapseBlankLines.induct)
  case 1
  show ?case using assms(3) by (simp add: collapseBlankLines_no_nl)
next
  case (2 c cs)
  have tw: "takeWhile isSpace (cs @ t) = takeWhile isSpace cs"
    using assms(1,2) by (rule takeWhile_before_word)
  have dw: "dropWhile isSpace (cs @ t) = dropWhile isSpace cs @ t"
    using assms(1,2) by (rule dropWhile_before_word)
  show ?case
  proof (cases "c = nl \<and> nl \<in> set (takeWhile isSpace cs)")
    case True
    have "collapseBlankLines ((c # cs) @ t)
        = nl # collapseBlankLines ((rev (takeWhile (\<lambda>x. x \<noteq> nl) (rev (takeWhile isSpace cs)))
            @ dropWhile isSpace cs) @ t)"
      using True by (simp add: tw dw)
    also have "\<dots> = nl # (collapseBlankLines (rev (takeWhile (\<lambda>x. x \<noteq> nl) (rev (takeWhile isSpace cs)))
            @ dropWhile isSpace cs) @ t)"
      using True "2.IH"(1) by simp
    also have "\<dots> = collapseBlankLines (c # cs) @ t"
      using True by simp
    finally show ?thesis .
  next
    case False
    have "collapseBlankLines ((c # cs) @ t) = c # collapseBlankLines (cs @ t)"
      using False by (auto simp: tw)
    also have "\<dots> = c # (collapseBlankLines cs @ t)"
      using False "2.IH"(2) by simp
    also have "\<dots> = collapseBlankLines (c # cs) @ t"
      using False by auto
    finally show ?thesis .
  qed
qed

lemma trim_before_word:
  assumes "t \<noteq> []" "\<not> isSpace (hd t)" "\<not> isSpace (last t)"
  shows "trim (y @ t) = trimStart y @ t"
proof -
  have "rev t \<noteq> []" "\<not> isSpace (hd (rev t))"
    using assms by (simp_all add: hd_rev)
  then have "dropWhile isSpace (rev t @ z) = rev t @ z" for z
    by (cases "rev t") auto
  then have "trimEnd (z @ t) = z @ t" for z
    by (simp add: trimEnd_def)
  moreover have "trimStart (y @ t) = trimStart y @ t"
    unfolding trimStart_def using assms(1,2) by (rule dropWhile_before_word)
  ultimately show ?thesis by (simp add: trim_def)
qed

lemma numToString_not_Nil: "numToString n \<noteq> []"
  by (subst numToString.simps) simp

lemma digit_not_space: "d \<in> set ''0123456789'' \<Longrightarrow> \<not> isSpace d \<and> d \<noteq> nl"
  by (simp; elim disjE; simp add: isSpace_def)

lemma formatSQL_limit_suffix:
  "suffix (''LIMIT '' @ numToString n) (formatSQL (c @ [nl] @ ''LIMIT '' @ numToString n))"
proof -
  let ?ds = "numToString n"
  let ?t = "''LIMIT '' @ ?ds"
  have ds: "set ?ds \<subseteq> set ''0123456789''" by (rule numToString_digits)
  have ne: "?ds \<noteq> []" by (rule numToString_not_Nil)
  have "last ?ds \<in> set ''0123456789''" using ds ne last_in_set by blast
  then have l: "\<not> isSpace (last ?t)" using ne digit_not_space by simp
  have nn: "nl \<notin> set ?t" using ds digit_not_space by auto
  have h: "?t \<noteq> []" "\<not> isSpace (hd ?t)" by (simp_all add: isSpace_def)
  obtain b where b: "foldl (\<lambda>formatted keyword. replaceKeyword keyword None formatted)
           (c @ nl # ?t) keywordsList = b @ nl # ?t"
    using foldl_limit_tail [OF ds, of keywordsList c] by auto
  have "formatSQL (c @ [nl] @ ?t) = trim (collapseBlankLines ((b @ [nl]) @ ?t))"
    using b by (simp add: formatSQL_def del: replaceKeyword.simps collapseBlankLines.simps)
  also have "\<dots> = trim (collapseBlankLines (b @ [nl]) @ ?t)"
    by (simp only: collapseBlankLines_before_word [OF h nn])
  also have "\<dots> = trimStart (collapseBlankLines (b @ [nl])) @ ?t"
    using h l by (rule trim_before_word)
  finally show ?thesis by (simp only: suffix_def) blast
qed

lemma matchesCI_lower: "matchesCI kw s \<Longrightarrow> prefix (toLowerCase kw) (toLowerCase s)"
  by (induction kw s rule: matchesCI.induct) (auto simp: toLowerCase_def)

lemma containsKeyword_includes:
  "containsKeyword kw prev s \<Longrightarrow> kw \<noteq> [] \<Longrightarrow> includesStr (toLowerCase s) (toLowerCase kw)"
proof (induction s arbitrary: prev)
  case Nil
  then show ?case by simp
next
  case (Cons c cs)
  show ?case
  proof (cases "matchKeywordAt kw prev (c # cs)")
    case True
    then have "prefix (toLowerCase kw) (toLowerCase (c # cs))"
      by (simp add: matchKeywordAt_def matchesCI_lower)
    then show ?thesis by (simp add: toLowerCase_def)
  next
    case False
    with Cons have "includesStr (toLowerCase cs) (toLowerCase kw)" by auto
    then show ?thesis by (simp add: toLowerCase_def)
  qed
qed

lemma hasLimitClause_includes: "hasLimitClause s \<Longrightarrow> includesStr (toLowerCase s) ''limit''"
proof -
  assume "hasLimitClause s"
  then have "includesStr (toLowerCase s) (toLowerCase ''LIMIT'')"
    unfolding hasLimitClause_def by (rule containsKeyword_includes) simp
  moreover have "toLowerCase ''LIMIT'' = ''limit''"
    by (simp add: toLowerCase_def toLowerChar_def upperLetters_def lowerLetters_def upperLatin_def lowerLatin_def)
  ultimately show ?thesis by simp
qed

subsection \<open>A LIMIT clause of the reply survives the cleaning\<close>

text \<open>An occurrence of the word: five characters that match LIMIT letter by letter.\<close>

lemma limit_match_chars:
  assumes "matchesCI ''LIMIT'' s"
  shows "\<exists>c1 c2 c3 c4 c5 r. s = c1 # c2 # c3 # c4 # c5 # r
     \<and> toLowerChar c1 = CHR ''l'' \<and> toLowerChar c2 = CHR ''i'' \<and> toLowerChar c3 = CHR ''m''
     \<and> toLowerChar c4 = CHR ''i'' \<and> toLowerChar c5 = CHR ''t''"
proof -
  have l: "toLowerChar CHR ''L'' = CHR ''l''" "toLowerChar CHR ''I'' = CHR ''i''"
    "toLowerChar CHR ''M'' = CHR ''m''" "toLowerChar CHR ''T'' = CHR ''t''"
    by (simp_all add: toLowerChar_def upperLetters_def lowerLetters_def upperLatin_def lowerLatin_def)
  from assms show ?thesis
    by (auto simp: matchesCI_Cons l)
qed

lemma lower_letter_props:
  assumes "toLowerChar c \<in> set lowerLetters"
  shows "c \<noteq> backtick" "\<not> isSpace c" "isWordChar c"
proof -
  have b: "toLowerChar backtick \<notin> set lowerLetters"
    by (simp add: toLowerChar_def upperLetters_def lowerLetters_def upperLatin_def lowerLatin_def)
  with assms show "c \<noteq> backtick" by auto
  have "toLowerChar x \<notin> set lowerLetters" if "isSpace x" for x
    using that by (simp add: isSpace_def; elim disjE;
        simp add: toLowerChar_def upperLetters_def lowerLetters_def upperLatin_def lowerLatin_def)
  with assms show "\<not> isSpace c" by auto
  have z: "zip (upperLetters @ upperLatin) (lowerLetters @ lowerLatin)
      = zip upperLetters lowerLetters @ zip upperLatin lowerLatin"
    by (simp add: upperLetters_def lowerLetters_def)
  have dj: "d \<notin> set lowerLetters" if "d \<in> set lowerLatin" for d
    using that by (auto simp: lowerLatin_def lowerLetters_def)
  have "toLowerChar c = c \<or> c \<in> set upperLetters"
  proof (cases "map_of (zip (upperLetters @ upperLatin) (lowerLetters @ lowerLatin)) c")
    case None
    then show ?thesis by (simp add: toLowerChar_def)
  next
    case (Some d)
    then have t: "toLowerChar c = d" by (simp add: toLowerChar_def)
    from Some have "(c, d) \<in> set (zip (upperLetters @ upperLatin) (lowerLetters @ lowerLatin))"
      by (rule map_of_SomeD)
    then have "(c, d) \<in> set (zip upperLetters lowerLetters)
        \<or> (c, d) \<in> set (zip upperLatin lowerLatin)"
      unfolding z by simp
    then show ?thesis
    proof
      assume "(c, d) \<in> set (zip upperLetters lowerLetters)"
      then have "c \<in> set upperLetters" by (rule set_zip_leftD)
      then show ?thesis by blast
    next
      assume "(c, d) \<in> set (zip upperLatin lowerLatin)"
      then have "d \<in> set lowerLatin" by (rule set_zip_rightD)
      with dj t assms show ?thesis by blast
    qed
  qed
  with assms show "isWordChar c" by (auto simp: isWordChar_def)
qed



lemma limitWord_chars:
  assumes "limitWord m"
  shows "m \<noteq> []" "backtick \<notin> set m" "\<forall>x \<in> set m. \<not> isSpace x" "isWordChar (hd m)"
    "toLowerChar (hd m) = CHR ''l''" "toLowerCase m = ''limit''"
proof -
  from assms obtain c1 c2 c3 c4 c5 where m: "m = [c1, c2, c3, c4, c5]"
    and c: "toLowerChar c1 = CHR ''l''" "toLowerChar c2 = CHR ''i''" "toLowerChar c3 = CHR ''m''"
      "toLowerChar c4 = CHR ''i''" "toLowerChar c5 = CHR ''t''"
    using limit_match_chars [of m] by (auto simp: limitWord_def)
  have low: "toLowerChar x \<in> set lowerLetters" if "x \<in> set m" for x
    using that m c by (auto simp: lowerLetters_def)
  show "m \<noteq> []" using m by simp
  show "backtick \<notin> set m" using low lower_letter_props(1) by blast
  show "\<forall>x \<in> set m. \<not> isSpace x" using low lower_letter_props(2) by blast
  show "isWordChar (hd m)" using low [of c1] lower_letter_props(3) m by simp
  show "toLowerChar (hd m) = CHR ''l''" using m c by simp
  show "toLowerCase m = ''limit''" using m c by (simp add: toLowerCase_def)
qed

lemma matchesCI_take_self:
  assumes "matchesCI kw s"
  shows "matchesCI kw (take (length kw) s)"
proof -
  from assms have len: "length kw \<le> length s" by (rule matchesCI_length)
  from assms have "matchesCI kw (take (length kw) s @ drop (length kw) s)" by simp
  then have "matchesCI (take (length (take (length kw) s)) kw) (take (length kw) s)"
    by (rule matchesCI_take)
  with len show ?thesis by simp
qed

lemma containsKeyword_occurrence:
  "containsKeyword ''LIMIT'' prev s \<Longrightarrow>
     \<exists>a m b. s = a @ m @ b \<and> limitWord m
       \<and> (if a = [] then \<not> (case prev of None \<Rightarrow> False | Some p \<Rightarrow> isWordChar p)
           else \<not> isWordChar (last a))"
proof (induction s arbitrary: prev)
  case Nil
  then show ?case by simp
next
  case (Cons c cs)
  show ?case
  proof (cases "matchKeywordAt ''LIMIT'' prev (c # cs)")
    case True
    then have mc: "matchesCI ''LIMIT'' (c # cs)"
      and wb: "wordBoundary prev (Some c)"
      by (simp_all add: matchKeywordAt_def headOpt_def)
    let ?m = "take (length ''LIMIT'') (c # cs)"
    from mc have len: "length ''LIMIT'' \<le> length (c # cs)" by (rule matchesCI_length)
    from mc have mm: "matchesCI ''LIMIT'' ?m" by (rule matchesCI_take_self)
    from len have "length ?m = 5" by simp
    with mm have lw: "limitWord ?m" unfolding limitWord_def by blast
    have "hd ?m = c" by simp
    then have "isWordChar c" using limitWord_chars(4) [OF lw] by simp
    with wb have "\<not> (case prev of None \<Rightarrow> False | Some p \<Rightarrow> isWordChar p)"
      by (simp add: wordBoundary_def)
    moreover have "c # cs = [] @ ?m @ drop (length ''LIMIT'') (c # cs)" by simp
    ultimately show ?thesis using lw by (metis (full_types))
  next
    case False
    with Cons.prems have "containsKeyword ''LIMIT'' (Some c) cs" by simp
    from Cons.IH [OF this] obtain a m b where s: "cs = a @ m @ b" and lw: "limitWord m"
      and bd0: "if a = [] then \<not> (case Some c of None \<Rightarrow> False | Some p \<Rightarrow> isWordChar p)
           else \<not> isWordChar (last a)"
      by blast
    from bd0 have bd: "if a = [] then \<not> isWordChar c else \<not> isWordChar (last a)"
      by (cases "a = []") simp_all
    have "c # cs = (c # a) @ m @ b" using s by simp
    moreover have "\<not> isWordChar (last (c # a))" using bd by (auto split: if_splits)
    ultimately show ?thesis using lw by (metis (full_types) list.distinct(1))
  qed
qed

lemma hasLimitClause_occurrence:
  "hasLimitClause s \<Longrightarrow>
     \<exists>a m b. s = a @ m @ b \<and> limitWord m \<and> (a = [] \<or> \<not> isWordChar (last a))"
  using containsKeyword_occurrence [of None s]
  by (auto simp: hasLimitClause_def split: if_splits) blast+

lemma stripFenceOpen_word:
  "backtick \<notin> set m \<Longrightarrow> stripFenceOpen (m @ b) = m @ stripFenceOpen b"
proof (induction m)
  case Nil
  show ?case by simp
next
  case (Cons x m)
  then have "\<not> prefix ''```'' (x # m @ b)" by auto
  then have nm: "\<not> matchesCI ''```sql'' (x # m @ b)" using matchesCI_fence by blast
  have "stripFenceOpen (x # m @ b) = x # stripFenceOpen (m @ b)"
    using nm by (simp only: stripFenceOpen.simps if_False)
  with Cons show ?case by (simp del: stripFenceOpen.simps)
qed

lemma fence_open_chars:
  assumes "matchesCI ''```sql'' s"
  shows "\<exists>r. s = backtick # backtick # backtick # r \<and> 6 \<le> length s
     \<and> toLowerChar (s ! 3) = CHR ''s'' \<and> toLowerChar (s ! 4) = CHR ''q''
     \<and> toLowerChar (s ! 5) = CHR ''l''"
proof -
  have l: "toLowerChar CHR ''s'' = CHR ''s''" "toLowerChar CHR ''q'' = CHR ''q''"
    "toLowerChar CHR ''l'' = CHR ''l''"
    by (simp_all add: toLowerChar_def upperLetters_def lowerLetters_def upperLatin_def lowerLatin_def)
  from assms show ?thesis
    by (auto simp: matchesCI_Cons l toLowerChar_backtick)
qed

lemma fence_open_before_word:
  assumes mt: "matchesCI ''```sql'' (a @ m @ b)" and lw: "limitWord m"
    and bd: "a = [] \<or> \<not> isWordChar (last a)"
  shows "6 \<le> length a"
proof (rule ccontr)
  assume "\<not> 6 \<le> length a"
  then have k: "length a < 6" by simp
  let ?s = "a @ m @ b"
  from fence_open_chars [OF mt] obtain r where
    s: "?s = backtick # backtick # backtick # r"
    and c3: "toLowerChar (?s ! 3) = CHR ''s''" and c4: "toLowerChar (?s ! 4) = CHR ''q''"
    and c5: "toLowerChar (?s ! 5) = CHR ''l''"
    by blast
  have hm: "?s ! length a = hd m"
    using limitWord_chars(1) [OF lw] by (cases m) (simp_all add: nth_append)
  have l: "toLowerChar (?s ! length a) = CHR ''l''"
    using hm limitWord_chars(5) [OF lw] by simp
  have bt: "toLowerChar backtick \<noteq> CHR ''l''"
    by (simp add: toLowerChar_def upperLetters_def lowerLetters_def upperLatin_def lowerLatin_def)
  from k consider "length a = 0" | "length a = 1" | "length a = 2" | "length a = 3"
    | "length a = 4" | "length a = 5" by linarith
  then show False
  proof cases
    case 1 with l s bt show ?thesis by simp
  next
    case 2 with l s bt show ?thesis by simp
  next
    case 3 with l s bt show ?thesis by simp
  next
    case 4 with l c3 show ?thesis by simp
  next
    case 5 with l c4 show ?thesis by simp
  next
    case 6
    then have "a \<noteq> []" by auto
    with 6 have "?s ! 4 = last a" by (simp add: nth_append last_conv_nth)
    with c4 have "toLowerChar (last a) \<in> set lowerLetters" by (simp add: lowerLetters_def)
    then have "isWordChar (last a)" by (rule lower_letter_props(3))
    with bd \<open>a \<noteq> []\<close> show ?thesis by simp
  qed
qed

lemma stripFenceOpen_keeps_word:
  assumes lw: "limitWord m"
  shows "s = a @ m @ b \<Longrightarrow> a = [] \<or> \<not> isWordChar (last a) \<Longrightarrow> sublist m (stripFenceOpen s)"
proof (induction s arbitrary: a rule: stripFenceOpen.induct)
  case 1
  with limitWord_chars(1) [OF lw] show ?case by simp
next
  case (2 c cs)
  note nb = limitWord_chars(2) [OF lw]
  show ?case
  proof (cases a)
    case Nil
    with "2.prems"(1) have "stripFenceOpen (c # cs) = m @ stripFenceOpen b"
      using stripFenceOpen_word [OF nb, of b] by simp
    then show ?thesis by simp
  next
    case (Cons x a')
    with "2.prems"(1) have cs: "cs = a' @ m @ b" and x: "x = c" by simp_all
    have bd': "a' = [] \<or> \<not> isWordChar (last a')"
      using "2.prems"(2) Cons by (auto split: if_splits)
    show ?thesis
    proof (cases "matchesCI ''```sql'' (c # cs)")
      case True
      then have "matchesCI ''```sql'' (a @ m @ b)" using "2.prems"(1) by simp
      from fence_open_before_word [OF this lw "2.prems"(2)] have len: "6 \<le> length a" .
      let ?a = "dropWhile isSpace (drop 6 a)"
      have hdm: "m @ b \<noteq> []" "\<not> isSpace (hd (m @ b))"
        using limitWord_chars(1,3) [OF lw] by (cases m; simp)+
      have "drop 6 (c # cs) = drop 6 a @ m @ b"
        using len "2.prems"(1) by simp
      then have d: "dropWhile isSpace (drop 6 (c # cs)) = ?a @ m @ b"
        using dropWhile_before_word [of "m @ b" isSpace "drop 6 a"] hdm by simp
      have "?a = [] \<or> \<not> isWordChar (last ?a)"
      proof (cases "?a = []")
        case True
        then show ?thesis by blast
      next
        case False
        then have "last ?a = last (drop 6 a)" by (rule last_dropWhile)
        moreover from False have "drop 6 a \<noteq> []" by auto
        then have "6 < length a" by simp
        then have "last (drop 6 a) = last a" by (rule last_drop)
        moreover have "a \<noteq> []" using Cons by simp
        ultimately show ?thesis using "2.prems"(2) by simp
      qed
      with True "2.IH"(1) d have "sublist m (stripFenceOpen (dropWhile isSpace (drop 6 (c # cs))))"
        by blast
      moreover have "stripFenceOpen (c # cs) = stripFenceOpen (dropWhile isSpace (drop 6 (c # cs)))"
        using True by (simp only: stripFenceOpen.simps if_True)
      ultimately show ?thesis by simp
    next
      case False
      with "2.IH"(2) cs bd' have "sublist m (stripFenceOpen cs)" by blast
      moreover have "stripFenceOpen (c # cs) = c # stripFenceOpen cs"
        using False by (simp only: stripFenceOpen.simps if_False)
      ultimately show ?thesis by (metis sublist_Cons_right)
    qed
  qed
qed

lemma stripFenceClose_prefix:
  "prefix m s \<Longrightarrow> backtick \<notin> set m \<Longrightarrow> prefix m (stripFenceClose s)"
proof (induction m arbitrary: s)
  case Nil
  show ?case by simp
next
  case (Cons x m)
  then obtain s' where s: "s = x # s'" and p: "prefix m s'" by (cases s) auto
  from Cons.prems(2) have "\<not> prefix ''```'' (x # s')" by auto
  with s p Cons show ?case by simp
qed

lemma stripFenceClose_keeps_word:
  assumes "m \<noteq> []" "backtick \<notin> set m" "\<forall>x \<in> set m. \<not> isSpace x"
  shows "sublist m s \<Longrightarrow> sublist m (stripFenceClose s)"
proof (induction s)
  case Nil
  then show ?case by simp
next
  case (Cons c cs)
  have no: "\<not> (prefix ''```'' (c # cs) \<and> list_all isSpace (drop 3 (c # cs)))"
  proof
    assume f: "prefix ''```'' (c # cs) \<and> list_all isSpace (drop 3 (c # cs))"
    then obtain r where r: "c # cs = ''```'' @ r" unfolding prefix_def by blast
    then have "drop 3 (c # cs) = r" by simp
    with f have sp: "list_all isSpace r" by simp
    from assms(1) have hm: "hd m \<in> set m" by simp
    moreover from Cons.prems have "set m \<subseteq> set (c # cs)" by (rule set_mono_sublist)
    ultimately have "hd m \<in> set (''```'' @ r)" using r by (metis subsetD)
    then have "hd m = backtick \<or> isSpace (hd m)"
      using sp by (auto simp: list_all_iff)
    with assms hm show False by metis
  qed
  from Cons.prems have "prefix m (c # cs) \<or> sublist m cs" by (simp add: sublist_Cons_right)
  then show ?case
  proof
    assume "prefix m (c # cs)"
    then have "prefix m (stripFenceClose (c # cs))" using assms(2) by (rule stripFenceClose_prefix)
    then show ?thesis by (rule prefix_imp_sublist)
  next
    assume "sublist m cs"
    then have "sublist m (stripFenceClose cs)" by (rule Cons.IH)
    with no show ?thesis by (auto simp: sublist_Cons_right)
  qed
qed

lemma dropWhile_keeps_word:
  assumes "m \<noteq> []" "\<not> P (hd m)"
  shows "sublist m s \<Longrightarrow> sublist m (dropWhile P s)"
proof (induction s)
  case Nil
  then show ?case by simp
next
  case (Cons c cs)
  show ?case
  proof (cases "P c")
    case True
    with assms have "\<not> prefix m (c # cs)" by (cases m) auto
    with Cons.prems have "sublist m cs" by (simp add: sublist_Cons_right)
    with True Cons.IH show ?thesis by simp
  next
    case False
    with Cons.prems show ?thesis by simp
  qed
qed

lemma trim_keeps_word:
  assumes "m \<noteq> []" "\<forall>x \<in> set m. \<not> isSpace x" "sublist m s"
  shows "sublist m (trim s)"
proof -
  have h: "\<not> isSpace (hd m)" "\<not> isSpace (hd (rev m))" "rev m \<noteq> []"
    using assms(1,2) by (simp_all add: hd_rev)
  have "sublist m (trimStart s)"
    unfolding trimStart_def
    using dropWhile_keeps_word [of m isSpace s] assms(1,3) h(1) by blast
  then have "sublist (rev m) (rev (trimStart s))" by simp
  then have "sublist (rev m) (dropWhile isSpace (rev (trimStart s)))"
    using dropWhile_keeps_word [of "rev m" isSpace "rev (trimStart s)"] h(2,3) by blast
  then show ?thesis
    by (simp add: trim_def trimEnd_def sublist_rev_left)
qed

lemma limitWord_included:
  assumes "limitWord m" "sublist m s"
  shows "includesStr (toLowerCase s) ''limit''"
proof -
  from assms(2) have "sublist (map toLowerChar m) (map toLowerChar s)"
    by (rule map_mono_sublist)
  then show ?thesis
    using limitWord_chars(6) [OF assms(1)] by (simp add: includesStr_sublist toLowerCase_def)
qed

lemma hasLimitClause_cleanSQL:
  assumes "hasLimitClause sql"
  shows "includesStr (toLowerCase (cleanSQL sql)) ''limit''"
proof -
  from hasLimitClause_occurrence [OF assms] obtain a m b where s: "sql = a @ m @ b"
    and lw: "limitWord m" and bd: "a = [] \<or> \<not> isWordChar (last a)"
    by blast
  note c = limitWord_chars [OF lw]
  have "sublist m (stripFenceOpen sql)" using lw s bd by (rule stripFenceOpen_keeps_word)
  then have "sublist m (stripFenceClose (stripFenceOpen sql))"
    by (rule stripFenceClose_keeps_word [OF c(1) c(2) c(3)])
  then have "sublist m (cleanSQL sql)"
    unfolding cleanSQL_def by (rule trim_keeps_word [OF c(1) c(3)])
  with lw show ?thesis by (rule limitWord_included)
qed

text \<open>
  The LIMIT that \<^verbatim>\<open>postProcessSQL\<close> appends, for a positive \<^verbatim>\<open>limitResults\<close> \<open>n\<close>
  below \<open>2\<^sup>5\<^sup>3\<close>: if the text left after the fences are stripped and the ends trimmed
  does not contain the letters \<^verbatim>\<open>limit\<close> in any case, a line feed and \<^verbatim>\<open>LIMIT n\<close>
  are appended before re-formatting, and the returned string ends with \<^verbatim>\<open>LIMIT n\<close>; if
  it contains these letters, nothing is appended; and it contains them whenever the SQL
  string, or the text left of it, has a LIMIT clause.
\<close>

lemma postProcessSQL_limit:
  assumes "limitResults options = Some n" "0 < n" "n < 2 ^ 53"
  shows "(\<not> includesStr (toLowerCase (cleanSQL sql)) ''limit'' \<longrightarrow>
           addLimit (cleanSQL sql) options = cleanSQL sql @ [nl] @ ''LIMIT '' @ numToString n
           \<and> suffix (''LIMIT '' @ numToString n) (postProcessSQL sql options))
       \<and> (includesStr (toLowerCase (cleanSQL sql)) ''limit'' \<longrightarrow>
           addLimit (cleanSQL sql) options = cleanSQL sql
           \<and> postProcessSQL sql options = formatSQL (cleanSQL sql))
       \<and> (hasLimitClause sql \<longrightarrow> includesStr (toLowerCase (cleanSQL sql)) ''limit'')
       \<and> (hasLimitClause (cleanSQL sql) \<longrightarrow> includesStr (toLowerCase (cleanSQL sql)) ''limit'')"
proof -
  have a: "addLimit s options =
      (if \<not> includesStr (toLowerCase s) ''limit'' then s @ [nl] @ ''LIMIT '' @ numToString n else s)" for s
    using assms by (simp add: addLimit_def)
  show ?thesis
    using formatSQL_limit_suffix [of n "cleanSQL sql"] hasLimitClause_includes [of "cleanSQL sql"]
      hasLimitClause_cleanSQL [of sql]
    by (auto simp: postProcessSQL_def a simp del: replaceKeyword.simps)
qed

text \<open>
  Claim C1 fails for a query without a LIMIT clause in which the letters \<^verbatim>\<open>limit\<close> are
  part of a name. \<^verbatim>\<open>postProcessSQL\<close>, called with the SQL string
  'SELECT speed_limit FROM roads' and \<^verbatim>\<open>limitResults\<close> 10, returns the query with a
  line feed before FROM and nothing else: no LIMIT is appended, although the query has no
  LIMIT clause. The test that decides it looks for the letters, not for the word, which
  the formatting step of the same function does find as a word.
\<close>

theorem postProcessSQL_identifier_with_limit:
  "\<not> hasLimitClause ''SELECT speed_limit FROM roads''
   \<and> postProcessSQL ''SELECT speed_limit FROM roads'' (noOptions\<lparr> limitResults := Some 10 \<rparr>)
       = ''SELECT speed_limit '' @ [nl] @ ''FROM roads''
   \<and> \<not> includesStr (postProcessSQL ''SELECT speed_limit FROM roads''
                        (noOptions\<lparr> limitResults := Some 10 \<rparr>)) ''LIMIT''"
  by code_simp

section \<open>Properties of the rate limit\<close>

lemma requestTime_after_last:
  "lastRequestTime st + RATE_LIMIT_DELAY \<le> requestTime env st"
  by (simp add: requestTime_def enforceRateLimit_def Let_def)

text \<open>
  Claim C6. A chat-completion request of \<^verbatim>\<open>generateSQL\<close> is never sent earlier than
  \<^verbatim>\<open>lastRequestTime + RATE_LIMIT_DELAY\<close>, with \<^verbatim>\<open>RATE_LIMIT_DELAY = 1000\<close>; so of two
  calls made one after the other, the second sends its request at least 1000 ms after the
  recorded time of the first one's answer, and after a rejected first request the recorded
  time is still that of the answer before it.
\<close>

theorem rate_limit_between_requests:
  "RATE_LIMIT_DELAY = 1000
   \<and> lastRequestTime st + 1000 \<le> requestTime env1 st
   \<and> (let st1 = snd (generateSQL q1 o1 env1 st)
       in lastRequestTime st1 + 1000 \<le> requestTime env2 st1
          \<and> (\<forall>content finished. env_outcome env1 = Answered content finished \<longrightarrow>
                lastRequestTime st1 = finished \<and> finished + 1000 \<le> requestTime env2 st1)
          \<and> (\<forall>message. env_outcome env1 = Rejected message \<longrightarrow>
                st1 = st \<and> lastRequestTime st + 1000 \<le> requestTime env2 st1))"
proof -
  have a: "lastRequestTime s + 1000 \<le> requestTime e s" for e s
    using requestTime_after_last [of s e] by (simp add: RATE_LIMIT_DELAY_def)
  have b: "env_outcome env1 = Answered content finished \<Longrightarrow>
      lastRequestTime (snd (generateSQL q1 o1 env1 st)) = finished" for content finished
    by (simp add: generateSQL_def Let_def)
  have c: "env_outcome env1 = Rejected message \<Longrightarrow> snd (generateSQL q1 o1 env1 st) = st"
    for message
    by (simp add: generateSQL_def)
  show ?thesis
    unfolding Let_def using a b c by (metis RATE_LIMIT_DELAY_def)
qed

theorem rate_limit_between_requests_witness:
  "env_outcome \<lparr> env_now = 5000, env_late = 0, env_outcome = Answered (Some ''SELECT 1'') 5400 \<rparr>
     = Answered (Some ''SELECT 1'') 5400
   \<and> lastRequestTime (snd (generateSQL ''q'' noOptions
         \<lparr> env_now = 5000, env_late = 0, env_outcome = Answered (Some ''SELECT 1'') 5400 \<rparr>
         initialService)) = 5400
   \<and> requestTime \<lparr> env_now = 5500, env_late = 0, env_outcome = Rejected ''offline'' \<rparr>
         (snd (generateSQL ''q'' noOptions
           \<lparr> env_now = 5000, env_late = 0, env_outcome = Answered (Some ''SELECT 1'') 5400 \<rparr>
           initialService)) = 6400
   \<and> (5400::int) + 1000 \<le> 6400"
proof -
  note t = rate_limit_between_requests [of initialService
      "\<lparr> env_now = 5000, env_late = 0, env_outcome = Answered (Some ''SELECT 1'') 5400 \<rparr>"
      "''q''" noOptions
      "\<lparr> env_now = 5500, env_late = 0, env_outcome = Rejected ''offline'' \<rparr>"]
  have l: "lastRequestTime (snd (generateSQL ''q'' noOptions
         \<lparr> env_now = 5000, env_late = 0, env_outcome = Answered (Some ''SELECT 1'') 5400 \<rparr>
         initialService)) = 5400"
    using t unfolding Let_def by simp
  show ?thesis
    by (simp add: l requestTime_def enforceRateLimit_def RATE_LIMIT_DELAY_def Let_def)
qed

section \<open>Properties of the validator\<close>

lemma foldl_basicStep_hasSelect:
  "hasSelect (foldl basicStep s tokens)
     = (hasSelect s \<or> (\<exists>t \<in> set tokens. isKeywordToken ''SELECT'' t))"
  by (induction tokens arbitrary: s)
     (auto simp: basicStep_def isKeywordToken_def Let_def)

lemma foldl_basicStep_hasFrom:
  "hasFrom (foldl basicStep s tokens)
     = (hasFrom s \<or> (\<exists>t \<in> set tokens. isKeywordToken ''FROM'' t))"
  by (induction tokens arbitrary: s)
     (auto simp: basicStep_def isKeywordToken_def Let_def)

lemma validateBasicSyntax_missing_select:
  "\<not> (\<exists>t \<in> set tokens. isKeywordToken ''SELECT'' t) \<Longrightarrow>
     missingSelect \<in> set (validateBasicSyntax tokens [])"
  by (simp add: validateBasicSyntax_def Let_def foldl_basicStep_hasSelect missingSelect_def)

lemma validateBasicSyntax_missing_from:
  "\<not> (\<exists>t \<in> set tokens. isKeywordToken ''FROM'' t) \<Longrightarrow>
     missingFrom \<in> set (validateBasicSyntax tokens [])"
  by (simp add: validateBasicSyntax_def Let_def foldl_basicStep_hasFrom missingFrom_def)

lemma validateSQLStructure_keeps_errors:
  "set errs \<subseteq> set (fst (validateSQLStructure tokens errs warns))"
  by (auto simp: validateSQLStructure_def Let_def)

lemma errors_validateSQL:
  "errors (validateSQL sql schema)
     = fst (validateSQLStructure (tokenize sql) (validateBasicSyntax (tokenize sql) []) [])"
  by (simp add: validateSQL_def Let_def validateAgainstSchema_def
      split: prod.splits option.splits)

lemma isValid_validateSQL:
  "isValid (validateSQL sql schema) = (errors (validateSQL sql schema) = [])"
  by (simp add: validateSQL_def Let_def split: prod.splits option.splits)

subsection \<open>The tokens are words of the text\<close>

lemma wordsOf_dropWhile: "wordsOf (dropWhile isSpace s) = wordsOf s"
  by (induction s) auto

lemma wordsOf_spaces: "\<forall>x \<in> set s. isSpace x \<Longrightarrow> wordsOf s = []"
  by (induction s) auto

lemma wordsOf_decomp:
  "wordsOf s = filter (\<lambda>w. w \<noteq> []) [takeWhile (\<lambda>x. \<not> isSpace x) s]
                 @ wordsOf (dropWhile (\<lambda>x. \<not> isSpace x) s)"
  by (cases s) auto

lemma filter_hd_tl:
  "xs \<noteq> [] \<Longrightarrow> filter P xs = filter P [hd xs] @ filter P (tl xs)"
  by (cases xs) auto

lemma splitSpaces_words:
  "splitSpaces s \<noteq> []
   \<and> hd (splitSpaces s) = takeWhile (\<lambda>x. \<not> isSpace x) s
   \<and> filter (\<lambda>w. w \<noteq> []) (tl (splitSpaces s)) = wordsOf (dropWhile (\<lambda>x. \<not> isSpace x) s)"
proof (induction s rule: splitSpaces.induct)
  case 1
  show ?case by simp
next
  case (2 c cs)
  show ?case
  proof (cases "isSpace c")
    case True
    let ?r = "dropWhile isSpace cs"
    from True "2.IH"(1) have ih: "splitSpaces ?r \<noteq> []"
      "hd (splitSpaces ?r) = takeWhile (\<lambda>x. \<not> isSpace x) ?r"
      "filter (\<lambda>w. w \<noteq> []) (tl (splitSpaces ?r)) = wordsOf (dropWhile (\<lambda>x. \<not> isSpace x) ?r)"
      by auto
    have "filter (\<lambda>w. w \<noteq> []) (splitSpaces ?r) = wordsOf ?r"
      by (simp only: filter_hd_tl [OF ih(1)] ih(2) ih(3) wordsOf_decomp [symmetric])
    then have "filter (\<lambda>w. w \<noteq> []) (splitSpaces ?r) = wordsOf cs"
      by (simp add: wordsOf_dropWhile)
    with True show ?thesis by simp
  next
    case False
    with "2.IH"(2) have ih: "splitSpaces cs \<noteq> []"
      "hd (splitSpaces cs) = takeWhile (\<lambda>x. \<not> isSpace x) cs"
      "filter (\<lambda>w. w \<noteq> []) (tl (splitSpaces cs)) = wordsOf (dropWhile (\<lambda>x. \<not> isSpace x) cs)"
      by auto
    from ih(1) obtain w ws where s: "splitSpaces cs = w # ws" by (cases "splitSpaces cs") auto
    with ih False show ?thesis by simp
  qed
qed

lemma filter_splitSpaces: "filter (\<lambda>w. w \<noteq> []) (splitSpaces s) = wordsOf s"
proof -
  note w = splitSpaces_words [of s]
  from w have ne: "splitSpaces s \<noteq> []" by blast
  from w have h: "hd (splitSpaces s) = takeWhile (\<lambda>x. \<not> isSpace x) s" by blast
  from w have t: "filter (\<lambda>w. w \<noteq> []) (tl (splitSpaces s))
      = wordsOf (dropWhile (\<lambda>x. \<not> isSpace x) s)" by blast
  show ?thesis
    by (simp only: filter_hd_tl [OF ne] h t wordsOf_decomp [symmetric])
qed

lemma wordsOf_append_space:
  "isSpace sp \<Longrightarrow> wordsOf (a @ sp # b) = wordsOf a @ wordsOf b"
proof (induction a rule: wordsOf.induct)
  case 1
  then show ?case by simp
next
  case (2 c cs)
  show ?case
  proof (cases "isSpace c")
    case True
    with 2 show ?thesis by simp
  next
    case False
    have t: "takeWhile (\<lambda>x. \<not> isSpace x) (cs @ sp # b) = takeWhile (\<lambda>x. \<not> isSpace x) cs"
      using "2.prems" by (simp add: takeWhile_tail)
    have d: "dropWhile (\<lambda>x. \<not> isSpace x) (cs @ sp # b) = dropWhile (\<lambda>x. \<not> isSpace x) cs @ sp # b"
      using "2.prems" by (simp add: dropWhile_append3)
    from False "2.IH"(2) "2.prems"
    have "wordsOf (dropWhile (\<lambda>x. \<not> isSpace x) cs @ sp # b)
        = wordsOf (dropWhile (\<lambda>x. \<not> isSpace x) cs) @ wordsOf b" by blast
    with False show ?thesis by (simp add: t d)
  qed
qed

lemma wordsOf_append_spaces: "\<forall>x \<in> set ws. isSpace x \<Longrightarrow> wordsOf (a @ ws) = wordsOf a"
  by (cases ws) (auto simp: wordsOf_append_space wordsOf_spaces)

lemma wordsOf_trim: "wordsOf (trim l) = wordsOf l"
proof -
  let ?s = "trimStart l"
  have "?s = trimEnd ?s @ rev (takeWhile isSpace (rev ?s))"
    unfolding trimEnd_def by (metis rev_append rev_rev_ident takeWhile_dropWhile_id)
  moreover have "\<forall>x \<in> set (rev (takeWhile isSpace (rev ?s))). isSpace x"
    by (auto dest: set_takeWhileD)
  ultimately have "wordsOf ?s = wordsOf (trimEnd ?s)"
    by (metis wordsOf_append_spaces)
  then show ?thesis by (simp add: trim_def trimStart_def wordsOf_dropWhile)
qed

lemma splitLines_no_nl: "nl \<notin> set p \<Longrightarrow> splitLines p = [p]"
  by (induction p) auto

lemma splitLines_at_nl: "nl \<notin> set p \<Longrightarrow> splitLines (p @ nl # r) = p # splitLines r"
  by (induction p) auto

lemma wordsOf_splitLines: "concat (map wordsOf (splitLines s)) = wordsOf s"
proof (induction "length s" arbitrary: s rule: less_induct)
  case less
  show ?case
  proof (cases "nl \<in> set s")
    case False
    then show ?thesis by (simp add: splitLines_no_nl)
  next
    case True
    then obtain p r where s: "s = p @ nl # r" and p: "nl \<notin> set p"
      by (meson split_list_first)
    have "concat (map wordsOf (splitLines r)) = wordsOf r"
      using s by (intro less) simp
    then show ?thesis
      using p by (simp add: s splitLines_at_nl wordsOf_append_space isSpace_nl)
  qed
qed

lemma tokenizeWords_values:
  "map tok_value (tokenizeWords lineNo col ws) = filter (\<lambda>w. w \<noteq> []) ws"
  by (induction ws arbitrary: col) auto

lemma wordType_not_comment: "wordType w \<noteq> TComment"
  by (simp add: wordType_def)

lemma tokenizeWords_types: "t \<in> set (tokenizeWords lineNo col ws) \<Longrightarrow> tok_type t \<noteq> TComment"
  by (induction ws arbitrary: col) (auto simp: wordType_not_comment split: if_splits)

lemma tokenizeLine_words:
  assumes "t \<in> set (tokenizeLine lineNum l)" "tok_type t \<noteq> TComment"
  shows "tok_value t \<in> set (wordsOf l)"
proof -
  from assms have "t \<in> set (tokenizeWords (lineNum + 1) 1 (splitSpaces (trim l)))"
    by (auto simp: tokenizeLine_def Let_def split: if_splits)
  then have "tok_value t \<in> set (map tok_value (tokenizeWords (lineNum + 1) 1 (splitSpaces (trim l))))"
    by simp
  then show ?thesis
    by (simp only: tokenizeWords_values filter_splitSpaces wordsOf_trim)
qed

lemma tokenize_words:
  assumes "t \<in> set (tokenize sql)" "tok_type t \<noteq> TComment"
  shows "tok_value t \<in> set (wordsOf sql)"
proof -
  from assms(1) obtain lineNum l where l: "l \<in> set (splitLines sql)"
    and t: "t \<in> set (tokenizeLine lineNum l)"
    by (auto simp: tokenize_def dest: in_set_enumerate_eq [THEN iffD1] set_zip_rightD
        simp: enumerate_eq_zip)
  from t assms(2) have "tok_value t \<in> set (wordsOf l)" by (rule tokenizeLine_words)
  with l have "tok_value t \<in> set (concat (map wordsOf (splitLines sql)))" by auto
  then show ?thesis by (simp only: wordsOf_splitLines)
qed

lemma no_keyword_token:
  assumes "\<forall>w \<in> set (wordsOf sql). toUpperCase w \<noteq> kw"
  shows "\<not> (\<exists>t \<in> set (tokenize sql). isKeywordToken kw t)"
proof
  assume "\<exists>t \<in> set (tokenize sql). isKeywordToken kw t"
  then obtain t where t: "t \<in> set (tokenize sql)" "tok_type t = TKeyword"
      "toUpperCase (tok_value t) = kw"
    by (auto simp: isKeywordToken_def)
  from t(1,2) have "tok_value t \<in> set (wordsOf sql)"
    by (intro tokenize_words) simp_all
  with assms t(3) show False by blast
qed

text \<open>
  Claim C3. \<^verbatim>\<open>validateSQL\<close> returns \<^verbatim>\<open>isValid = true\<close> if and only if its error list is
  empty. When no token of the tokenizer is the word SELECT, in whatever case, and so in
  particular when no white-space separated word of the text is, the errors contain
  'Missing SELECT clause' and \<^verbatim>\<open>isValid\<close> is false; likewise for FROM and
  'Missing FROM clause'.
\<close>

theorem validateSQL_valid_iff_no_errors:
  "(isValid (validateSQL sql schema) \<longleftrightarrow> errors (validateSQL sql schema) = [])
   \<and> ((\<forall>t \<in> set (tokenize sql). toUpperCase (tok_value t) \<noteq> ''SELECT'')
        \<or> (\<forall>w \<in> set (wordsOf sql). toUpperCase w \<noteq> ''SELECT'') \<longrightarrow>
        (\<exists>e \<in> set (errors (validateSQL sql schema)).
            ve_message e = ''Missing SELECT clause'' \<and> ve_type e = SevError)
        \<and> \<not> isValid (validateSQL sql schema))
   \<and> ((\<forall>t \<in> set (tokenize sql). toUpperCase (tok_value t) \<noteq> ''FROM'')
        \<or> (\<forall>w \<in> set (wordsOf sql). toUpperCase w \<noteq> ''FROM'') \<longrightarrow>
        (\<exists>e \<in> set (errors (validateSQL sql schema)).
            ve_message e = ''Missing FROM clause'' \<and> ve_type e = SevError)
        \<and> \<not> isValid (validateSQL sql schema))"
proof -
  let ?r = "validateSQL sql schema"
  have sub: "set (validateBasicSyntax (tokenize sql) []) \<subseteq> set (errors ?r)"
    unfolding errors_validateSQL by (rule validateSQLStructure_keeps_errors)
  have none: "\<not> (\<exists>t \<in> set (tokenize sql). isKeywordToken kw t)"
    if "(\<forall>t \<in> set (tokenize sql). toUpperCase (tok_value t) \<noteq> kw)
        \<or> (\<forall>w \<in> set (wordsOf sql). toUpperCase w \<noteq> kw)" for kw
    using that no_keyword_token [of sql kw] by (auto simp: isKeywordToken_def)
  have s: "missingSelect \<in> set (errors ?r)"
    if "(\<forall>t \<in> set (tokenize sql). toUpperCase (tok_value t) \<noteq> ''SELECT'')
        \<or> (\<forall>w \<in> set (wordsOf sql). toUpperCase w \<noteq> ''SELECT'')"
    using none [OF that] validateBasicSyntax_missing_select sub by blast
  have f: "missingFrom \<in> set (errors ?r)"
    if "(\<forall>t \<in> set (tokenize sql). toUpperCase (tok_value t) \<noteq> ''FROM'')
        \<or> (\<forall>w \<in> set (wordsOf sql). toUpperCase w \<noteq> ''FROM'')"
    using none [OF that] validateBasicSyntax_missing_from sub by blast
  have ms: "ve_message missingSelect = ''Missing SELECT clause'' \<and> ve_type missingSelect = SevError"
    by (simp add: missingSelect_def)
  have mf: "ve_message missingFrom = ''Missing FROM clause'' \<and> ve_type missingFrom = SevError"
    by (simp add: missingFrom_def)
  have v: "isValid ?r \<longleftrightarrow> errors ?r = []" by (rule isValid_validateSQL)
  show ?thesis
  proof (intro conjI impI)
    show "isValid ?r \<longleftrightarrow> errors ?r = []" by (rule v)
  next
    assume a: "(\<forall>t \<in> set (tokenize sql). toUpperCase (tok_value t) \<noteq> ''SELECT'')
        \<or> (\<forall>w \<in> set (wordsOf sql). toUpperCase w \<noteq> ''SELECT'')"
    from s [OF a] ms show "\<exists>e \<in> set (errors ?r).
        ve_message e = ''Missing SELECT clause'' \<and> ve_type e = SevError" by blast
    from s [OF a] v show "\<not> isValid ?r" by auto
  next
    assume a: "(\<forall>t \<in> set (tokenize sql). toUpperCase (tok_value t) \<noteq> ''FROM'')
        \<or> (\<forall>w \<in> set (wordsOf sql). toUpperCase w \<noteq> ''FROM'')"
    from f [OF a] mf show "\<exists>e \<in> set (errors ?r).
        ve_message e = ''Missing FROM clause'' \<and> ve_type e = SevError" by blast
    from f [OF a] v show "\<not> isValid ?r" by auto
  qed
qed

theorem validateSQL_valid_iff_no_errors_witness:
  "wordsOf ''show tables'' = [''show'', ''tables'']
   \<and> map tok_value (tokenize ''show tables'') = [''show'', ''tables'']
   \<and> map ve_message (errors (validateSQL ''show tables'' None))
       = [''Missing SELECT clause'', ''Missing FROM clause'']
   \<and> \<not> isValid (validateSQL ''show tables'' None)
   \<and> isValid (validateSQL ''SELECT a FROM t'' None)
   \<and> errors (validateSQL ''SELECT a FROM t'' None) = []"
proof -
  have w: "wordsOf ''show tables'' = [''show'', ''tables'']" by code_simp
  have t: "map tok_value (tokenize ''show tables'') = [''show'', ''tables'']" by code_simp
  have e: "map ve_message (errors (validateSQL ''show tables'' None))
       = [''Missing SELECT clause'', ''Missing FROM clause'']" by code_simp
  have n: "errors (validateSQL ''SELECT a FROM t'' None) = []" by code_simp
  have u: "\<forall>w \<in> set (wordsOf ''show tables''). toUpperCase w \<noteq> ''SELECT''"
    by code_simp
  note th = validateSQL_valid_iff_no_errors
  from th [of "''show tables''" None] u have i: "\<not> isValid (validateSQL ''show tables'' None)"
    by blast
  from th [of "''SELECT a FROM t''" None] n have v: "isValid (validateSQL ''SELECT a FROM t'' None)"
    by blast
  from w t e i v n show ?thesis by blast
qed

text \<open>White space of every kind separates the words: with no-break spaces between them,
  SELECT and FROM are tokens of their own, and the query has no error.\<close>

lemma validateSQL_no_break_space:
  "map tok_value (tokenize (''SELECT'' @ [CHR 0xA0] @ ''a FROM'' @ [CHR 0xA0] @ ''t''))
     = [''SELECT'', ''a'', ''FROM'', ''t'']
   \<and> errors (validateSQL (''SELECT'' @ [CHR 0xA0] @ ''a FROM'' @ [CHR 0xA0] @ ''t'') None) = []
   \<and> isValid (validateSQL (''SELECT'' @ [CHR 0xA0] @ ''a FROM'' @ [CHR 0xA0] @ ''t'') None)"
  by code_simp

end
